(* ===== verification/Prelude.thy ===== *)
theory Prelude
  imports Main "HOL-Library.AList" "HOL-Library.Multiset" "HOL-Library.Word"
begin

text \<open>
  What the components share: Go's error values, run-time panics, maps, pointers and machine
  integers, the lemma collections of the development, and the generic facts on association
  lists and on lists used as memories.

  \<^item> A Go \<open>error\<close> is its message (\<open>go_error\<close>); a call that returns \<open>(v, err)\<close> is a sum,
    \<open>Inl\<close> the error.
  \<^item> A call that may panic returns \<open>'a go\<close>.
  \<^item> A non-nil Go map with string keys is an association list with distinct keys
    (\<open>'v gomap\<close>); a map that may be nil is an option of one. The order of the list is the
    model's own: where the source ranges over a map, an iteration order is a parameter.
  \<^item> A pointer to a heap object is an index into a list of cells.
\<close>

section \<open>Collections of facts\<close>

named_theorems map_simps \<open>lookups after updates of Go maps\<close>
named_theorems mem_simps \<open>reads after writes and allocations\<close>
named_theorems store_simps \<open>the stores' operations, unfolded\<close>

section \<open>Errors and panics\<close>

datatype go_error = GoError (message: string)

type_synonym 'a res = "go_error + 'a"

datatype panic =
    NilDereference
  | FailedTypeAssertion
  | IndexOutOfRange
  | DivideByZero
  | NilMapWrite
  | SendOnClosedChannel
  | CloseOfClosedChannel

datatype 'a go = Returns 'a | Panics panic

fun go_bind :: "'a go \<Rightarrow> ('a \<Rightarrow> 'b go) \<Rightarrow> 'b go" where
  "go_bind (Returns x) f = f x"
| "go_bind (Panics p) f = Panics p"

lemma go_bind_Returns_iff:
  "go_bind m f = Returns y \<longleftrightarrow> (\<exists>x. m = Returns x \<and> f x = Returns y)"
  by (cases m) auto

lemma go_bind_ReturnsE:
  assumes "go_bind m f = Returns y"
  obtains x where "m = Returns x" and "f x = Returns y"
  using assms by (cases m) auto

lemma go_bind_cong: "m = m' \<Longrightarrow> (\<And>x. m' = Returns x \<Longrightarrow> f x = f' x) \<Longrightarrow> go_bind m f = go_bind m' f'"
  by (cases m') simp_all

lemma go_bind_assoc: "go_bind (go_bind m f) g = go_bind m (\<lambda>x. go_bind (f x) g)"
  by (cases m) simp_all

section \<open>Machine integers, identifiers, time\<close>

type_synonym int32 = "32 word"
type_synonym int64 = "64 word"
type_synonym uint64 = "64 word"

text \<open>
  \<open>github.com/google/uuid\<close> documents a UUID as 128 bits, \<open>Nil\<close> as the one with every bit
  zero. Its printer and its generator are parameters where they are used.
\<close>

type_synonym uuid = "128 word"

definition uuid_Nil :: uuid where
  "uuid_Nil = 0"

text \<open>
  An instant is a number of nanoseconds; \<open>time.Time.Sub\<close> saturates at the range of a
  \<open>time.Duration\<close>, a signed 64-bit count of nanoseconds.
\<close>

type_synonym instant = int
type_synonym duration = "64 word"

definition max_duration :: int where
  "max_duration = 2 ^ 63 - 1"

definition min_duration :: int where
  "min_duration = - (2 ^ 63)"

definition time_Sub :: "instant \<Rightarrow> instant \<Rightarrow> duration" where
  "time_Sub t u = word_of_int (max min_duration (min max_duration (t - u)))"

lemma sint_in_range:
  fixes k :: int
  assumes "- (2 ^ 63) \<le> k" and "k < 2 ^ 63"
  shows "sint (word_of_int k :: int64) = k"
  using assms by (simp add: sint_sbintrunc' signed_take_bit_int_eq_self)

lemma sint_time_Sub:
  "sint (time_Sub t u) = max min_duration (min max_duration (t - u))"
  unfolding time_Sub_def
  by (rule sint_in_range) (auto simp: min_duration_def max_duration_def)

section \<open>Maps\<close>

type_synonym 'v gomap = "(string \<times> 'v) list"

definition gomap_ok :: "'v gomap \<Rightarrow> bool" where
  "gomap_ok m \<longleftrightarrow> distinct (map fst m)"

lemma gomap_ok_Nil [simp]: "gomap_ok []"
  by (simp add: gomap_ok_def)

lemma gomap_ok_update [simp]: "gomap_ok m \<Longrightarrow> gomap_ok (AList.update k v m)"
  by (simp add: gomap_ok_def distinct_update)

lemma gomap_ok_delete [simp]: "gomap_ok m \<Longrightarrow> gomap_ok (AList.delete k m)"
  by (simp add: gomap_ok_def distinct_delete)

lemma lookup_update [map_simps, simp]:
  "map_of (AList.update k v m) k' = (if k' = k then Some v else map_of m k')"
  by (simp add: update_conv')

lemma lookup_delete [map_simps, simp]:
  "map_of (AList.delete k m) k' = (if k' = k then None else map_of m k')"
  by (simp add: delete_conv')

lemma length_update_new:
  "map_of m k = None \<Longrightarrow> length (AList.update k v m) = Suc (length m)"
  by (induction m) (auto split: if_splits)

lemma length_update_old:
  "map_of m k = Some w \<Longrightarrow> length (AList.update k v m) = length m"
  by (induction m) (auto split: if_splits)

lemma length_gomap: "gomap_ok m \<Longrightarrow> length m = card (dom (map_of m))"
  by (simp add: gomap_ok_def dom_map_of_conv_image_fst distinct_card flip: set_map)

lemma lookup_iff_member: "gomap_ok m \<Longrightarrow> map_of m k = Some v \<longleftrightarrow> (k, v) \<in> set m"
  by (simp add: gomap_ok_def)

text \<open>An iteration order over a map is any rearrangement of its entries.\<close>

definition iteration_order :: "('v gomap \<Rightarrow> 'v gomap) \<Rightarrow> bool" where
  "iteration_order iter \<longleftrightarrow> (\<forall>m. mset (iter m) = mset m)"

lemma iteration_order_id [simp]: "iteration_order (\<lambda>m. m)"
  by (simp add: iteration_order_def)

lemma iteration_order_rev [simp]: "iteration_order rev"
  by (simp add: iteration_order_def)

lemma set_iteration: "iteration_order iter \<Longrightarrow> set (iter m) = set m"
  by (metis iteration_order_def set_mset_mset)

lemma length_iteration: "iteration_order iter \<Longrightarrow> length (iter m) = length m"
  by (metis iteration_order_def size_mset)

section \<open>Memory\<close>

type_synonym addr = nat

definition alloc :: "'a \<Rightarrow> 'a list \<Rightarrow> addr \<times> 'a list" where
  "alloc x h = (length h, h @ [x])"

lemma fst_alloc [simp, mem_simps]: "fst (alloc x h) = length h"
  by (simp add: alloc_def)

lemma snd_alloc [simp, mem_simps]: "snd (alloc x h) = h @ [x]"
  by (simp add: alloc_def)

lemma read_old_alloc [mem_simps]: "a < length h \<Longrightarrow> (h @ [x]) ! a = h ! a"
  by (simp add: nth_append)

lemma read_write [mem_simps]:
  "a < length h \<Longrightarrow> h[b := x] ! a = (if a = b then x else h ! a)"
  by (simp add: nth_list_update)

end
