(* ===== verification/Process_Store.thy ===== *)
theory Process_Store
  imports Prelude
begin

text \<open>
  The process data of \<open>internal/core/domain\<close> (\<open>process.go\<close>, \<open>states.go\<close>, \<open>worker.go\<close>) and the
  process use case of \<open>internal/core/usecase/process_store.go\<close>, which records the status of
  every process scheduled.
\<close>

section \<open>Data\<close>

type_synonym ProcessState = string

definition StatePending :: ProcessState where "StatePending = ''PENDING''"
definition StateScheduled :: ProcessState where "StateScheduled = ''SCHEDULED''"
definition StateRunning :: ProcessState where "StateRunning = ''RUNNING''"
definition StateCompleted :: ProcessState where "StateCompleted = ''COMPLETED''"
definition StateFailed :: ProcessState where "StateFailed = ''FAILED''"
definition StateBusy :: ProcessState where "StateBusy = ''BUSY''"
definition StateAborted :: ProcessState where "StateAborted = ''ABORTED''"

record ProcessRequest =
  RequestID :: string
  RequestCommand :: "string list"
  RequestWorkingDir :: string
  RequestEnvVars :: "string gomap option"

record ProcessStatus =
  ProcessID :: string
  ProcState :: ProcessState
  ProcExitCode :: int32
  ProcErrorMsg :: string

text \<open>A registered worker.\<close>

record WorkerInstance =
  WorkerID :: string
  WorkerName :: string
  Address :: string
  Port :: int32
  IsHealthy :: bool
  IsBusy :: bool

section \<open>The use case\<close>

record processStoreImpl =
  processes :: "ProcessStatus gomap"

definition NewProcessUseCaseImpl :: processStoreImpl where
  "NewProcessUseCaseImpl = \<lparr>processes = []\<rparr>"

definition ScheduleProcess ::
  "ProcessRequest \<Rightarrow> processStoreImpl \<Rightarrow> ProcessStatus res \<times> processStoreImpl" where
  "ScheduleProcess req uc =
     (let status = \<lparr>ProcessID = RequestID req, ProcState = StatePending,
                    ProcExitCode = 0, ProcErrorMsg = ''''\<rparr>
      in (Inr status, uc\<lparr>processes := AList.update (RequestID req) status (processes uc)\<rparr>))"

definition UpdateProcessState ::
  "string \<Rightarrow> ProcessState \<Rightarrow> int32 \<Rightarrow> string \<Rightarrow> processStoreImpl \<Rightarrow>
   go_error option \<times> processStoreImpl" where
  "UpdateProcessState processID newState exitCode errMsg uc =
     (case map_of (processes uc) processID of
        None \<Rightarrow> (Some (GoError (''proceso no encontrado: '' @ processID)), uc)
      | Some procStatus \<Rightarrow>
          (None, uc\<lparr>processes := AList.update processID
                     (procStatus\<lparr>ProcState := newState, ProcExitCode := exitCode,
                                 ProcErrorMsg := errMsg\<rparr>)
                     (processes uc)\<rparr>))"

section \<open>Runs\<close>

datatype process_op =
    Schedule ProcessRequest
  | Update string ProcessState int32 string

fun op_process :: "process_op \<Rightarrow> string" where
  "op_process (Schedule req) = RequestID req"
| "op_process (Update p _ _ _) = p"

fun process_step :: "process_op \<Rightarrow> processStoreImpl \<Rightarrow> processStoreImpl" where
  "process_step (Schedule req) uc = snd (ScheduleProcess req uc)"
| "process_step (Update p s x m) uc = snd (UpdateProcessState p s x m uc)"

definition status_of :: "processStoreImpl \<Rightarrow> string \<Rightarrow> ProcessStatus option" where
  "status_of uc = map_of (processes uc)"

text \<open>What an operation means for the one process it names.\<close>

fun process_spec :: "process_op \<Rightarrow> ProcessStatus option \<Rightarrow> ProcessStatus option" where
  "process_spec (Schedule req) _ =
     Some \<lparr>ProcessID = RequestID req, ProcState = StatePending, ProcExitCode = 0,
           ProcErrorMsg = ''''\<rparr>"
| "process_spec (Update p s x m) st =
     map_option (\<lambda>ps. ps\<lparr>ProcState := s, ProcExitCode := x, ProcErrorMsg := m\<rparr>) st"

lemma status_of_step:
  "status_of (process_step c uc) p =
     (if op_process c = p then process_spec c (status_of uc p) else status_of uc p)"
  by (cases c)
    (auto simp: status_of_def ScheduleProcess_def UpdateProcessState_def Let_def
      split: option.split)

lemma status_of_run:
  "status_of (fold process_step cs uc) p =
     fold process_spec (filter (\<lambda>c. op_process c = p) cs) (status_of uc p)"
  by (induction cs arbitrary: uc) (simp_all add: status_of_step)

text \<open>After any run of the use case the status of a process is what its own operations,
  in order, make of it: operations on other processes never touch it, scheduling it again
  resets it to PENDING, and updates before it is first scheduled have no effect.\<close>

theorem process_runs_are_independent:
  "status_of (fold process_step cs NewProcessUseCaseImpl) p =
     fold process_spec (filter (\<lambda>c. op_process c = p) cs) None"
  using status_of_run [of cs NewProcessUseCaseImpl p]
  by (simp add: status_of_def NewProcessUseCaseImpl_def)

lemma process_spec_None:
  "fold process_spec cs st = None \<longleftrightarrow> st = None \<and> (\<forall>req. Schedule req \<notin> set cs)"
proof (induction cs arbitrary: st)
  case Nil
  then show ?case by simp
next
  case (Cons c cs)
  show ?case
    by (cases c) (auto simp: Cons.IH)
qed

text \<open>An update is refused exactly when its process was never scheduled; a refused update
  leaves the store as it was, an accepted one keeps every process known.\<close>

theorem update_refused_iff_never_scheduled:
  "let uc = fold process_step cs NewProcessUseCaseImpl;
       r = UpdateProcessState p s x m uc in
     (fst r \<noteq> None \<longleftrightarrow> (\<forall>req. Schedule req \<in> set cs \<longrightarrow> RequestID req \<noteq> p))
     \<and> (fst r \<noteq> None \<longrightarrow> snd r = uc)
     \<and> dom (status_of (snd r)) = dom (status_of uc)"
proof -
  let ?uc = "fold process_step cs NewProcessUseCaseImpl"
  have "status_of ?uc p = None \<longleftrightarrow> (\<forall>req. Schedule req \<in> set cs \<longrightarrow> RequestID req \<noteq> p)"
    using status_of_run [of cs NewProcessUseCaseImpl p]
    by (auto simp: process_spec_None status_of_def NewProcessUseCaseImpl_def)
  then show ?thesis
    by (auto simp: UpdateProcessState_def status_of_def dom_def Let_def split: option.splits)
qed

lemma update_refused_iff_never_scheduled_witness:
  "fst (UpdateProcessState ''p2'' StateRunning 0 ''''
     (fold process_step
        [Schedule \<lparr>RequestID = ''p1'', RequestCommand = [''ls''], RequestWorkingDir = '''',
                   RequestEnvVars = None\<rparr>]
        NewProcessUseCaseImpl)) \<noteq> None"
  using update_refused_iff_never_scheduled
    [of "[Schedule \<lparr>RequestID = ''p1'', RequestCommand = [''ls''], RequestWorkingDir = '''',
                    RequestEnvVars = None\<rparr>]" "''p2''" StateRunning 0 "''''"]
  by (simp add: Let_def)

end
