(* ===== verification/Task_State.thy ===== *)
theory Task_State
  imports Prelude "HOL-Library.Sublist"
begin

text \<open>
  The task life cycle of \<open>internal/core/domain/task/state_machine.go\<close>: the enumeration
  \<open>State\<close>, its printing, the transition table and the check every component makes before it
  changes a task's state.

  A Go \<open>State\<close> is an \<open>int\<close>; a value decoded from JSON need not be one of the eight declared
  constants. Such a value is \<open>Undeclared i\<close>.
\<close>

section \<open>States\<close>

datatype State =
    Pending
  | Creating
  | Scheduled
  | Starting
  | Running
  | Stopping
  | Completed
  | Failed
  | Undeclared int

fun declared :: "State \<Rightarrow> bool" where
  "declared (Undeclared _) = False"
| "declared _ = True"

fun int_of_state :: "State \<Rightarrow> int" where
  "int_of_state Pending = 0"
| "int_of_state Creating = 1"
| "int_of_state Scheduled = 2"
| "int_of_state Starting = 3"
| "int_of_state Running = 4"
| "int_of_state Stopping = 5"
| "int_of_state Completed = 6"
| "int_of_state Failed = 7"
| "int_of_state (Undeclared i) = i"

definition AllStates :: "string list" where
  "AllStates =
     [''Pending'', ''Creating'', ''Scheduled'', ''Starting'',
      ''Running'', ''Stopping'', ''Completed'', ''Failed'']"

fun State_String :: "State \<Rightarrow> string" where
  "State_String Pending = ''Pending''"
| "State_String Creating = ''Creating''"
| "State_String Scheduled = ''Scheduled''"
| "State_String Starting = ''Starting''"
| "State_String Running = ''Running''"
| "State_String Stopping = ''Stopping''"
| "State_String Completed = ''Completed''"
| "State_String Failed = ''Failed''"
| "State_String _ = ''Unknown''"

text \<open>
  The states are ordered as the source declares them, by their integers; a value without a
  name comes after the named one with the same integer, which the decoder never produces.
\<close>

instantiation State :: linorder
begin

definition less_eq_State :: "State \<Rightarrow> State \<Rightarrow> bool" where
  "less_eq_State s t \<longleftrightarrow>
     int_of_state s < int_of_state t
     \<or> (int_of_state s = int_of_state t \<and> (declared s \<or> \<not> declared t))"

definition less_State :: "State \<Rightarrow> State \<Rightarrow> bool" where
  "less_State s t \<longleftrightarrow> s \<le> t \<and> \<not> t \<le> (s :: State)"

instance
proof
  fix s t u :: State
  show "s < t \<longleftrightarrow> s \<le> t \<and> \<not> t \<le> s"
    by (simp add: less_State_def)
  show "s \<le> s"
    by (simp add: less_eq_State_def)
  show "s \<le> t \<Longrightarrow> t \<le> u \<Longrightarrow> s \<le> u"
    by (auto simp: less_eq_State_def)
  show "s \<le> t \<Longrightarrow> t \<le> s \<Longrightarrow> s = t"
    by (cases s; cases t) (auto simp: less_eq_State_def)
  show "s \<le> t \<or> t \<le> s"
    by (auto simp: less_eq_State_def)
qed

end

section \<open>Transitions\<close>

definition stateTransitionMap :: "(State \<times> State list) list" where
  "stateTransitionMap =
     [(Pending,   [Pending, Creating, Scheduled]),
      (Creating,  [Creating, Scheduled, Failed]),
      (Scheduled, [Scheduled, Starting, Failed]),
      (Starting,  [Starting, Running, Failed]),
      (Running,   [Running, Stopping, Completed, Failed, Scheduled]),
      (Stopping,  [Stopping, Completed, Failed]),
      (Completed, []),
      (Failed,    [Scheduled])]"

fun Contains :: "State list \<Rightarrow> State \<Rightarrow> bool" where
  "Contains [] state = False"
| "Contains (s # states) state = (if s = state then True else Contains states state)"

text \<open>Indexing a Go map with a missing key gives the zero value, here the nil slice.\<close>

definition ValidStateTransition :: "State \<Rightarrow> State \<Rightarrow> bool" where
  "ValidStateTransition src dst =
     Contains (case map_of stateTransitionMap src of None \<Rightarrow> [] | Some dsts \<Rightarrow> dsts) dst"

lemma Contains_iff_member: "Contains xs s \<longleftrightarrow> s \<in> set xs"
  by (induction xs) auto

lemma valid_from [simp]:
  "ValidStateTransition Pending t \<longleftrightarrow> t \<in> {Pending, Creating, Scheduled}"
  "ValidStateTransition Creating t \<longleftrightarrow> t \<in> {Creating, Scheduled, Failed}"
  "ValidStateTransition Scheduled t \<longleftrightarrow> t \<in> {Scheduled, Starting, Failed}"
  "ValidStateTransition Starting t \<longleftrightarrow> t \<in> {Starting, Running, Failed}"
  "ValidStateTransition Running t \<longleftrightarrow> t \<in> {Running, Stopping, Completed, Failed, Scheduled}"
  "ValidStateTransition Stopping t \<longleftrightarrow> t \<in> {Stopping, Completed, Failed}"
  "ValidStateTransition Completed t \<longleftrightarrow> False"
  "ValidStateTransition Failed t \<longleftrightarrow> t = Scheduled"
  "ValidStateTransition (Undeclared i) t \<longleftrightarrow> False"
  by (auto simp: ValidStateTransition_def stateTransitionMap_def Contains_iff_member)

lemma valid_to_Creating: "ValidStateTransition s Creating \<longleftrightarrow> s = Pending \<or> s = Creating"
  by (cases s) auto

lemma valid_to_Failed:
  "ValidStateTransition s Failed \<longleftrightarrow>
     s \<in> {Creating, Scheduled, Starting, Running, Stopping}"
  by (cases s) auto

lemma valid_declared: "ValidStateTransition s t \<Longrightarrow> declared s \<and> declared t"
  by (cases s; cases t) auto

section \<open>Histories\<close>

text \<open>
  A history from a state is the list of states a task then takes, each change accepted by
  the check.
\<close>

fun history :: "State \<Rightarrow> State list \<Rightarrow> bool" where
  "history s [] = True"
| "history s (t # ts) = (ValidStateTransition s t \<and> history t ts)"

lemma history_append:
  "history s (xs @ ys) \<longleftrightarrow> history s xs \<and> history (last (s # xs)) ys"
  by (induction xs arbitrary: s) auto

text \<open>The milestones that still lie between a state and \<open>Completed\<close>.\<close>

fun milestones :: "State \<Rightarrow> State list" where
  "milestones Scheduled = [Starting, Running, Completed]"
| "milestones Starting = [Running, Completed]"
| "milestones Running = [Completed]"
| "milestones Stopping = [Completed]"
| "milestones Completed = []"
| "milestones _ = [Scheduled, Starting, Running, Completed]"

lemma milestones_step:
  assumes "ValidStateTransition s t" and "subseq (milestones t) ts"
  shows "subseq (milestones s) (t # ts)"
  using assms
  by (cases s; cases t) (auto dest: subseq_Cons')

lemma milestones_history:
  "history s ts \<Longrightarrow> Completed \<in> set ts \<Longrightarrow> subseq (milestones s) ts"
proof (induction ts arbitrary: s)
  case Nil
  then show ?case by simp
next
  case (Cons t ts)
  show ?case
  proof (cases "t = Completed")
    case True
    with Cons.prems show ?thesis
      by (cases s) auto
  next
    case False
    with Cons show ?thesis
      by (auto intro: milestones_step)
  qed
qed

text \<open>C11: A task that starts in Pending and ends up Completed has been Scheduled, then
  Starting, then Running, in that order, whatever restarts its history has.\<close>

theorem completed_only_after_running:
  assumes "history Pending ts" and "Completed \<in> set ts"
  shows "subseq [Scheduled, Starting, Running, Completed] ts"
  using milestones_history [OF assms] by simp

lemma completed_only_after_running_witness:
  "subseq [Scheduled, Starting, Running, Completed]
     [Creating, Scheduled, Starting, Failed, Scheduled, Starting, Running, Stopping, Completed]"
  by (rule completed_only_after_running) simp_all

section \<open>Direction, bounds, reachable states\<close>

text \<open>The only accepted change that goes back in the life cycle is the restart, to Scheduled.\<close>

lemma valid_forward: "ValidStateTransition s t \<Longrightarrow> t \<noteq> Scheduled \<Longrightarrow> s \<le> t"
  by (cases s; cases t) (auto simp: less_eq_State_def)

text \<open>How many changes of state can still be accepted before the next restart.\<close>

fun moves_left :: "State \<Rightarrow> nat" where
  "moves_left Scheduled = 4"
| "moves_left Starting = 3"
| "moves_left Running = 2"
| "moves_left Stopping = 1"
| "moves_left Completed = 0"
| "moves_left Pending = 2"
| "moves_left Creating = 1"
| "moves_left _ = 0"

lemma moves_left_step:
  "ValidStateTransition s t \<Longrightarrow> t \<noteq> Scheduled \<Longrightarrow> t \<noteq> s \<Longrightarrow> moves_left t < moves_left s"
  by (cases s; cases t) auto

lemma moves_left_history:
  "history s ts \<Longrightarrow> Scheduled \<notin> set ts \<Longrightarrow> distinct_adj (s # ts) \<Longrightarrow> length ts \<le> moves_left s"
proof (induction ts arbitrary: s)
  case Nil
  then show ?case by simp
next
  case (Cons t ts)
  then have "length ts \<le> moves_left t" and "moves_left t < moves_left s"
    by (auto intro!: moves_left_step)
  then show ?case by simp
qed

lemma moves_left_le: "moves_left s \<le> 4"
  by (cases s) simp_all

lemma forward_history:
  "history s ts \<Longrightarrow> Scheduled \<notin> set ts \<Longrightarrow> sorted (s # ts)"
proof (induction ts arbitrary: s)
  case Nil
  then show ?case by simp
next
  case (Cons t ts)
  then have "s \<le> t" and "sorted (t # ts)"
    by (auto intro: valid_forward)
  then show ?case by auto
qed

text \<open>Between two restarts a task's state only moves forward in the declared order, and
  it changes at most four times: the life cycle cannot cycle except through Scheduled.\<close>

theorem restart_free_history_bounded:
  assumes "history s ts" and "Scheduled \<notin> set ts" and "distinct_adj (s # ts)"
  shows "sorted (s # ts) \<and> length ts \<le> 4"
  using forward_history [OF assms(1,2)] moves_left_history [OF assms] moves_left_le [of s]
  by simp

lemma restart_free_history_bounded_witness:
  "sorted [Scheduled, Starting, Running, Stopping, Completed]
   \<and> length [Starting, Running, Stopping, Completed] \<le> 4"
  by (rule restart_free_history_bounded) simp_all

lemma history_from_Completed: "history Completed ts \<longleftrightarrow> ts = []"
  by (cases ts) auto

lemma history_declared: "history s ts \<Longrightarrow> set ts \<subseteq> Collect declared"
  by (induction ts arbitrary: s) (auto dest: valid_declared)

lemma Pending_reaches: "declared t \<Longrightarrow> \<exists>ts. history Pending ts \<and> last (Pending # ts) = t"
proof (cases t)
  case Pending
  then show ?thesis by (intro exI [of _ "[]"]) simp
next
  case Creating
  then show ?thesis by (intro exI [of _ "[Creating]"]) simp
next
  case Scheduled
  then show ?thesis by (intro exI [of _ "[Scheduled]"]) simp
next
  case Starting
  then show ?thesis by (intro exI [of _ "[Scheduled, Starting]"]) simp
next
  case Running
  then show ?thesis by (intro exI [of _ "[Scheduled, Starting, Running]"]) simp
next
  case Stopping
  then show ?thesis by (intro exI [of _ "[Scheduled, Starting, Running, Stopping]"]) simp
next
  case Completed
  then show ?thesis by (intro exI [of _ "[Scheduled, Starting, Running, Completed]"]) simp
next
  case Failed
  then show ?thesis by (intro exI [of _ "[Creating, Failed]"]) simp
next
  case (Undeclared i)
  moreover assume "declared t"
  ultimately show ?thesis by simp
qed

text \<open>From Pending the check lets a task reach exactly the eight declared states; it can
  neither enter nor leave a state number the source does not declare, and Completed is
  final, without even a transition to itself.\<close>

theorem reachable_states_are_declared:
  "(declared t \<longleftrightarrow> (\<exists>ts. history Pending ts \<and> last (Pending # ts) = t))
   \<and> \<not> ValidStateTransition Completed t
   \<and> \<not> ValidStateTransition (Undeclared i) t"
proof -
  have "declared t" if "history Pending ts" and "last (Pending # ts) = t" for ts
    using history_declared [OF that(1)] that(2)
    by (cases ts rule: rev_cases) auto
  then show ?thesis using Pending_reaches [of t] by (metis valid_from(7,9))
qed

lemma State_String_AllStates:
  "declared s \<Longrightarrow> AllStates ! nat (int_of_state s) = State_String s"
  by (cases s) (simp_all add: AllStates_def)

lemma State_String_inj: "declared s \<Longrightarrow> State_String s = State_String t \<Longrightarrow> s = t"
  by (cases s; cases t) simp_all

end
