(* ===== verification/Sandbox_Config.thy ===== *)
theory Sandbox_Config
  imports Prelude
begin

text \<open>
  Sandbox configurations and their builder, \<open>internal/core/domain/sandbox_config.go\<close>.

  A configuration is a struct whose map fields are references: copying it (\<open>Build\<close> returns the
  builder's struct by value) shares the maps. The records are polymorphic in what stands for a
  reference: addresses of a heap of maps in the builder, the maps themselves (\<open>None\<close> for a nil
  map) in the rest of the development, where no map is written after it is shared. \<open>deref\<close>
  reads the first as the second.
\<close>

section \<open>Configurations\<close>

type_synonym SandboxType = string

definition SandboxTypeDocker :: SandboxType where
  "SandboxTypeDocker = ''docker''"

definition SandboxTypeKubernetes :: SandboxType where
  "SandboxTypeKubernetes = ''kubernetes''"

definition SandboxTypeHyperV :: SandboxType where
  "SandboxTypeHyperV = ''hyperv''"

record ResourceRequests =
  CPU :: string
  Memory :: string
  Disk :: string

record ('m, 's) NetworkConfig =
  ExposedPorts :: 's
  PortBindings :: 'm

record 'm StorageConfig =
  Volumes :: 'm

record ('m, 's) SandboxConfig =
  SanboxID :: string
  SandboxName :: string
  Image :: string
  EnvVars :: 'm
  SandboxMetadata :: 'm
  SandboxTypeField :: SandboxType
  Resources :: ResourceRequests
  Network :: "('m, 's) NetworkConfig"
  Storage :: "'m StorageConfig"
  WorkingDir :: string

type_synonym config_ref = "(addr option, addr option) SandboxConfig"
type_synonym config = "(string gomap option, unit gomap option) SandboxConfig"

definition zero_resources :: ResourceRequests where
  "zero_resources = \<lparr>CPU = '''', Memory = '''', Disk = ''''\<rparr>"

section \<open>The heap of maps\<close>

record map_heap =
  str_maps :: "string gomap list"
  set_maps :: "unit gomap list"

text \<open>\<open>m[key] = value\<close> on a map reference: a nil map panics.\<close>

definition put_str :: "addr option \<Rightarrow> string \<Rightarrow> string \<Rightarrow> map_heap \<Rightarrow> map_heap go" where
  "put_str r k v h =
     (case r of
        None \<Rightarrow> Panics NilMapWrite
      | Some a \<Rightarrow> Returns (h\<lparr>str_maps := (str_maps h)[a := AList.update k v (str_maps h ! a)]\<rparr>))"

definition put_set :: "addr option \<Rightarrow> string \<Rightarrow> map_heap \<Rightarrow> map_heap go" where
  "put_set r k h =
     (case r of
        None \<Rightarrow> Panics NilMapWrite
      | Some a \<Rightarrow> Returns (h\<lparr>set_maps := (set_maps h)[a := AList.update k () (set_maps h ! a)]\<rparr>))"

definition read_str :: "map_heap \<Rightarrow> addr option \<Rightarrow> string gomap option" where
  "read_str h r = map_option (\<lambda>a. str_maps h ! a) r"

definition read_set :: "map_heap \<Rightarrow> addr option \<Rightarrow> unit gomap option" where
  "read_set h r = map_option (\<lambda>a. set_maps h ! a) r"

definition deref :: "map_heap \<Rightarrow> config_ref \<Rightarrow> config" where
  "deref h c =
     \<lparr>SanboxID = SanboxID c, SandboxName = SandboxName c, Image = Image c,
      EnvVars = read_str h (EnvVars c), SandboxMetadata = read_str h (SandboxMetadata c),
      SandboxTypeField = SandboxTypeField c, Resources = Resources c,
      Network = \<lparr>ExposedPorts = read_set h (ExposedPorts (Network c)),
                 PortBindings = read_str h (PortBindings (Network c))\<rparr>,
      Storage = \<lparr>Volumes = read_str h (Volumes (Storage c))\<rparr>,
      WorkingDir = WorkingDir c\<rparr>"

section \<open>The builder\<close>

text \<open>
  Every method changes the builder it is called on and returns that same pointer, so a method
  is a step on the builder's struct and the heap.
\<close>

record SandboxConfigBuilder =
  sandboxConfig :: config_ref

type_synonym builder_state = "SandboxConfigBuilder \<times> map_heap"

definition NewSandboxConfigBuilder :: "map_heap \<Rightarrow> builder_state" where
  "NewSandboxConfigBuilder h =
     (let n = length (str_maps h); e = length (set_maps h) in
      (\<lparr>sandboxConfig =
          \<lparr>SanboxID = '''', SandboxName = '''', Image = '''',
           EnvVars = Some n, SandboxMetadata = Some (n + 1),
           SandboxTypeField = '''', Resources = zero_resources,
           Network = \<lparr>ExposedPorts = Some e, PortBindings = Some (n + 2)\<rparr>,
           Storage = \<lparr>Volumes = Some (n + 3)\<rparr>,
           WorkingDir = ''''\<rparr>\<rparr>,
       \<lparr>str_maps = str_maps h @ [[], [], [], []], set_maps = set_maps h @ [[]]\<rparr>))"

definition WithSandboxID :: "string \<Rightarrow> builder_state \<Rightarrow> builder_state go" where
  "WithSandboxID sid = (\<lambda>(b, h). Returns (b\<lparr>sandboxConfig := (sandboxConfig b)\<lparr>SanboxID := sid\<rparr>\<rparr>, h))"

definition WithImage :: "string \<Rightarrow> builder_state \<Rightarrow> builder_state go" where
  "WithImage img = (\<lambda>(b, h). Returns (b\<lparr>sandboxConfig := (sandboxConfig b)\<lparr>Image := img\<rparr>\<rparr>, h))"

definition WithEnvVar :: "string \<Rightarrow> string \<Rightarrow> builder_state \<Rightarrow> builder_state go" where
  "WithEnvVar key v = (\<lambda>(b, h).
     go_bind (put_str (EnvVars (sandboxConfig b)) key v h) (\<lambda>h'. Returns (b, h')))"

definition WithMetadata :: "string \<Rightarrow> string \<Rightarrow> builder_state \<Rightarrow> builder_state go" where
  "WithMetadata key v = (\<lambda>(b, h).
     go_bind (put_str (SandboxMetadata (sandboxConfig b)) key v h) (\<lambda>h'. Returns (b, h')))"

definition WithSandboxType :: "SandboxType \<Rightarrow> builder_state \<Rightarrow> builder_state go" where
  "WithSandboxType ty = (\<lambda>(b, h).
     Returns (b\<lparr>sandboxConfig := (sandboxConfig b)\<lparr>SandboxTypeField := ty\<rparr>\<rparr>, h))"

definition WithName :: "string \<Rightarrow> builder_state \<Rightarrow> builder_state go" where
  "WithName name = (\<lambda>(b, h).
     Returns (b\<lparr>sandboxConfig := (sandboxConfig b)\<lparr>SandboxName := name\<rparr>\<rparr>, h))"

definition WithResourceRequests ::
  "string \<Rightarrow> string \<Rightarrow> string \<Rightarrow> builder_state \<Rightarrow> builder_state go" where
  "WithResourceRequests cpu memory disk = (\<lambda>(b, h).
     Returns (b\<lparr>sandboxConfig := (sandboxConfig b)
       \<lparr>Resources := \<lparr>CPU = cpu, Memory = memory, Disk = disk\<rparr>\<rparr>\<rparr>, h))"

definition WithExposedPort :: "string \<Rightarrow> builder_state \<Rightarrow> builder_state go" where
  "WithExposedPort port = (\<lambda>(b, h).
     go_bind (put_set (ExposedPorts (Network (sandboxConfig b))) port h) (\<lambda>h'. Returns (b, h')))"

definition WithPortBinding :: "string \<Rightarrow> string \<Rightarrow> builder_state \<Rightarrow> builder_state go" where
  "WithPortBinding hostPort containerPort = (\<lambda>(b, h).
     go_bind (put_str (PortBindings (Network (sandboxConfig b))) containerPort hostPort h)
       (\<lambda>h'. Returns (b, h')))"

definition WithVolume :: "string \<Rightarrow> string \<Rightarrow> builder_state \<Rightarrow> builder_state go" where
  "WithVolume hostPath containerPath = (\<lambda>(b, h).
     go_bind (put_str (Volumes (Storage (sandboxConfig b))) hostPath containerPath h)
       (\<lambda>h'. Returns (b, h')))"

definition WithWorkingDir :: "string \<Rightarrow> builder_state \<Rightarrow> builder_state go" where
  "WithWorkingDir workingDir = (\<lambda>(b, h).
     Returns (b\<lparr>sandboxConfig := (sandboxConfig b)\<lparr>WorkingDir := workingDir\<rparr>\<rparr>, h))"

definition Build :: "SandboxConfigBuilder \<Rightarrow> config_ref" where
  "Build b = sandboxConfig b"

text \<open>A chain of calls on one builder.\<close>

datatype builder_call =
    SetSandboxID string
  | SetImage string
  | AddEnvVar string string
  | AddMetadata string string
  | SetSandboxType SandboxType
  | SetName string
  | SetResources string string string
  | ExposePort string
  | BindPort string string
  | AddVolume string string
  | SetWorkingDir string

fun builder_step :: "builder_call \<Rightarrow> builder_state \<Rightarrow> builder_state go" where
  "builder_step (SetSandboxID i) = WithSandboxID i"
| "builder_step (SetImage i) = WithImage i"
| "builder_step (AddEnvVar k v) = WithEnvVar k v"
| "builder_step (AddMetadata k v) = WithMetadata k v"
| "builder_step (SetSandboxType ty) = WithSandboxType ty"
| "builder_step (SetName n) = WithName n"
| "builder_step (SetResources c m d) = WithResourceRequests c m d"
| "builder_step (ExposePort p) = WithExposedPort p"
| "builder_step (BindPort hp cp) = WithPortBinding hp cp"
| "builder_step (AddVolume hp cp) = WithVolume hp cp"
| "builder_step (SetWorkingDir w) = WithWorkingDir w"

fun builder_run :: "builder_call list \<Rightarrow> builder_state \<Rightarrow> builder_state go" where
  "builder_run [] s = Returns s"
| "builder_run (c # cs) s = go_bind (builder_step c s) (builder_run cs)"

section \<open>What the builder promises\<close>

text \<open>
  The specification of a call, on configurations that own their maps: it sets one scalar field
  or adds one entry to one map.
\<close>

definition add_entry :: "string \<Rightarrow> 'v \<Rightarrow> 'v gomap option \<Rightarrow> 'v gomap option" where
  "add_entry k v m = map_option (AList.update k v) m"

fun spec_call :: "builder_call \<Rightarrow> config \<Rightarrow> config" where
  "spec_call (SetSandboxID i) c = c\<lparr>SanboxID := i\<rparr>"
| "spec_call (SetImage i) c = c\<lparr>Image := i\<rparr>"
| "spec_call (AddEnvVar k v) c = c\<lparr>EnvVars := add_entry k v (EnvVars c)\<rparr>"
| "spec_call (AddMetadata k v) c = c\<lparr>SandboxMetadata := add_entry k v (SandboxMetadata c)\<rparr>"
| "spec_call (SetSandboxType ty) c = c\<lparr>SandboxTypeField := ty\<rparr>"
| "spec_call (SetName n) c = c\<lparr>SandboxName := n\<rparr>"
| "spec_call (SetResources cp m d) c = c\<lparr>Resources := \<lparr>CPU = cp, Memory = m, Disk = d\<rparr>\<rparr>"
| "spec_call (ExposePort p) c =
     c\<lparr>Network := (Network c)\<lparr>ExposedPorts := add_entry p () (ExposedPorts (Network c))\<rparr>\<rparr>"
| "spec_call (BindPort hp cp) c =
     c\<lparr>Network := (Network c)\<lparr>PortBindings := add_entry cp hp (PortBindings (Network c))\<rparr>\<rparr>"
| "spec_call (AddVolume hp cp) c =
     c\<lparr>Storage := (Storage c)\<lparr>Volumes := add_entry hp cp (Volumes (Storage c))\<rparr>\<rparr>"
| "spec_call (SetWorkingDir w) c = c\<lparr>WorkingDir := w\<rparr>"

definition empty_config :: config where
  "empty_config =
     \<lparr>SanboxID = '''', SandboxName = '''', Image = '''', EnvVars = Some [],
      SandboxMetadata = Some [], SandboxTypeField = '''', Resources = zero_resources,
      Network = \<lparr>ExposedPorts = Some [], PortBindings = Some []\<rparr>,
      Storage = \<lparr>Volumes = Some []\<rparr>, WorkingDir = ''''\<rparr>"

text \<open>The configuration points to four different string maps and one set, all allocated.\<close>

definition config_owned :: "config_ref \<Rightarrow> map_heap \<Rightarrow> bool" where
  "config_owned c h \<longleftrightarrow>
     (\<exists>e m p v s. EnvVars c = Some e \<and> SandboxMetadata c = Some m
        \<and> PortBindings (Network c) = Some p \<and> Volumes (Storage c) = Some v
        \<and> ExposedPorts (Network c) = Some s
        \<and> distinct [e, m, p, v] \<and> {e, m, p, v} \<subseteq> {..<length (str_maps h)}
        \<and> s < length (set_maps h))"

lemma new_builder_owned: "NewSandboxConfigBuilder h = (b, h') \<Longrightarrow> config_owned (sandboxConfig b) h'"
  by (auto simp: NewSandboxConfigBuilder_def config_owned_def Let_def)

lemma new_builder_deref:
  "NewSandboxConfigBuilder h = (b, h') \<Longrightarrow> deref h' (sandboxConfig b) = empty_config"
  by (auto simp: NewSandboxConfigBuilder_def deref_def empty_config_def Let_def
      read_str_def read_set_def nth_append)

lemmas with_defs =
  WithSandboxID_def WithImage_def WithEnvVar_def WithMetadata_def WithSandboxType_def
  WithName_def WithResourceRequests_def WithExposedPort_def WithPortBinding_def
  WithVolume_def WithWorkingDir_def put_str_def put_set_def

text \<open>One call refines its specification, keeps ownership and never panics.\<close>

lemma call_refines:
  assumes "config_owned (sandboxConfig b) h"
  shows "\<exists>b' h'. builder_step c (b, h) = Returns (b', h') \<and> config_owned (sandboxConfig b') h'
           \<and> deref h' (sandboxConfig b') = spec_call c (deref h (sandboxConfig b))"
  using assms
  by (cases c)
    (auto simp: with_defs config_owned_def deref_def read_str_def read_set_def add_entry_def
      nth_list_update)

lemma calls_refine:
  "config_owned (sandboxConfig b) h \<Longrightarrow>
   \<exists>b' h'. builder_run cs (b, h) = Returns (b', h') \<and> config_owned (sandboxConfig b') h'
     \<and> deref h' (sandboxConfig b') = fold spec_call cs (deref h (sandboxConfig b))"
proof (induction cs arbitrary: b h)
  case Nil
  then show ?case by simp
next
  case (Cons c cs)
  from call_refines [OF Cons.prems, of c] obtain b1 h1 where
    one: "builder_step c (b, h) = Returns (b1, h1)" "config_owned (sandboxConfig b1) h1"
      "deref h1 (sandboxConfig b1) = spec_call c (deref h (sandboxConfig b))"
    by blast
  from Cons.IH [OF one(2)] one(1,3) show ?case by auto
qed

text \<open>C23: A chain of builder calls from a new builder never panics, and the configuration it
  builds is the one the calls describe: each call sets its field or adds its entry, in order.\<close>

theorem builder_refines_spec:
  "\<exists>b h'. builder_run cs (NewSandboxConfigBuilder h) = Returns (b, h')
     \<and> deref h' (Build b) = fold spec_call cs empty_config"
proof -
  obtain b0 h0 where new: "NewSandboxConfigBuilder h = (b0, h0)"
    by fastforce
  show ?thesis
    using calls_refine [OF new_builder_owned [OF new], of cs] new_builder_deref [OF new]
    by (auto simp: new Build_def)
qed

text \<open>A call never moves a map: the references of the builder's struct stay what they are.\<close>

definition map_refs :: "config_ref \<Rightarrow> addr option list \<times> addr option" where
  "map_refs c =
     ([EnvVars c, SandboxMetadata c, PortBindings (Network c), Volumes (Storage c)],
      ExposedPorts (Network c))"

lemma call_refs:
  "builder_step c (b, h) = Returns (b', h') \<Longrightarrow> map_refs (sandboxConfig b') = map_refs (sandboxConfig b)"
  by (cases c)
    (auto simp: with_defs map_refs_def go_bind_Returns_iff split: option.splits)

lemma calls_refs:
  "builder_run cs (b, h) = Returns (b', h') \<Longrightarrow> map_refs (sandboxConfig b') = map_refs (sandboxConfig b)"
proof (induction cs arbitrary: b h)
  case Nil
  then show ?case by simp
next
  case (Cons c cs)
  then show ?case by (auto simp: go_bind_Returns_iff dest: call_refs)
qed

definition same_maps :: "config \<Rightarrow> config \<Rightarrow> bool" where
  "same_maps c d \<longleftrightarrow>
     EnvVars c = EnvVars d \<and> SandboxMetadata c = SandboxMetadata d \<and> Network c = Network d
     \<and> Storage c = Storage d"

lemma same_refs_same_maps: "map_refs c = map_refs d \<Longrightarrow> same_maps (deref h c) (deref h d)"
  by (simp add: map_refs_def same_maps_def deref_def)

text \<open>A configuration that was built shares its maps with the builder: calls made on the
  builder afterwards change the environment, metadata, ports and volumes of the configuration
  already handed out, while its scalar fields keep the values of the time it was built.\<close>

theorem built_config_shares_maps:
  assumes "builder_run cs (b, h) = Returns (b', h')"
  shows "same_maps (deref h' (Build b)) (deref h' (Build b'))
    \<and> Image (deref h' (Build b)) = Image (deref h (Build b))
    \<and> SandboxTypeField (deref h' (Build b)) = SandboxTypeField (deref h (Build b))
    \<and> Resources (deref h' (Build b)) = Resources (deref h (Build b))"
  using same_refs_same_maps [OF calls_refs [OF assms], of h']
  by (auto simp: Build_def deref_def same_maps_def)

lemma built_config_shares_maps_witness:
  "let (b, h) = NewSandboxConfigBuilder \<lparr>str_maps = [], set_maps = []\<rparr> in
   \<exists>b' h'. builder_run [AddEnvVar ''A'' ''1'', SetImage ''alpine''] (b, h) = Returns (b', h')
     \<and> same_maps (deref h' (Build b)) (deref h' (Build b'))
     \<and> EnvVars (deref h' (Build b)) = Some [(''A'', ''1'')]
     \<and> Image (deref h' (Build b)) = '''' \<and> Image (deref h' (Build b')) = ''alpine''"
proof -
  obtain b h where new: "NewSandboxConfigBuilder \<lparr>str_maps = [], set_maps = []\<rparr> = (b, h)"
    by fastforce
  obtain b' h' where run:
    "builder_run [AddEnvVar ''A'' ''1'', SetImage ''alpine''] (b, h) = Returns (b', h')"
    using calls_refine [OF new_builder_owned [OF new]] by blast
  have "EnvVars (deref h' (Build b)) = Some [(''A'', ''1'')]"
    "Image (deref h' (Build b)) = ''''" "Image (deref h' (Build b')) = ''alpine''"
    using new run
    by (auto simp: NewSandboxConfigBuilder_def Build_def deref_def with_defs read_str_def Let_def)
  with new run built_config_shares_maps [OF run] show ?thesis
    by auto
qed

end
