(* ===== verification/Task_Model.thy ===== *)
theory Task_Model
  imports Task_State Sandbox_Config
begin

text \<open>
  Tasks, \<open>internal/core/domain/task/task.go\<close>: the specification, status and metadata structs,
  their constructor and methods. The current time and a fresh identifier, which the source
  reads from the clock and from \<open>uuid.New\<close>, are arguments.

  A pointer to a time or to an exit code is an option: the code replaces such pointers and never
  writes through them.
\<close>

section \<open>Data\<close>

record TaskSpec =
  SpecConfig :: config
  Command :: "string list"
  Timeout :: duration

record TaskStatus =
  State :: State
  ContainerID :: string
  StartTime :: "instant option"
  FinishTime :: "instant option"
  Message :: string
  Reason :: string
  ExitCode :: "int32 option"
  RestartCount :: int32
  LastRestartTime :: "instant option"

record TaskMetadata =
  MetaID :: uuid
  MetaName :: string
  Namespace :: string
  Labels :: "string gomap option"
  CreatedAt :: instant

record Task =
  Metadata :: TaskMetadata
  Spec :: TaskSpec
  Status :: TaskStatus

record TaskEvent =
  EventID :: uuid
  EventState :: State
  Timestamp :: instant
  EventTask :: Task

definition zero_status :: TaskStatus where
  "zero_status =
     \<lparr>State = Pending, ContainerID = '''', StartTime = None, FinishTime = None, Message = '''',
      Reason = '''', ExitCode = None, RestartCount = 0, LastRestartTime = None\<rparr>"

section \<open>Construction\<close>

definition NewTask :: "instant \<Rightarrow> uuid \<Rightarrow> string \<Rightarrow> string \<Rightarrow> Task" where
  "NewTask now new_id name img =
     \<lparr>Metadata = \<lparr>MetaID = new_id, MetaName = name, Namespace = '''', Labels = Some [],
                  CreatedAt = now\<rparr>,
      Spec =
        \<lparr>SpecConfig =
           \<lparr>SanboxID = '''', SandboxName = '''', Image = img, EnvVars = None,
            SandboxMetadata = None, SandboxTypeField = '''',
            Resources = \<lparr>CPU = ''0.1'', Memory = ''256MB'', Disk = ''1GB''\<rparr>,
            Network = \<lparr>ExposedPorts = Some [], PortBindings = Some []\<rparr>,
            Storage = \<lparr>Volumes = Some []\<rparr>, WorkingDir = ''''\<rparr>,
         Command = [], Timeout = 0\<rparr>,
      Status = zero_status\<lparr>State := Pending\<rparr>\<rparr>"

definition WithResources :: "string \<Rightarrow> string \<Rightarrow> string \<Rightarrow> Task \<Rightarrow> Task" where
  "WithResources cpu memory disk t =
     t\<lparr>Spec := (Spec t)\<lparr>SpecConfig := (SpecConfig (Spec t))
        \<lparr>Resources := \<lparr>CPU = cpu, Memory = memory, Disk = disk\<rparr>\<rparr>\<rparr>\<rparr>"

definition WithNetwork :: "unit gomap option \<Rightarrow> string gomap option \<Rightarrow> Task \<Rightarrow> Task" where
  "WithNetwork exposedPorts portBindings t =
     t\<lparr>Spec := (Spec t)\<lparr>SpecConfig := (SpecConfig (Spec t))
        \<lparr>Network := \<lparr>ExposedPorts = exposedPorts, PortBindings = portBindings\<rparr>\<rparr>\<rparr>\<rparr>"

definition WithStorage :: "string gomap option \<Rightarrow> Task \<Rightarrow> Task" where
  "WithStorage volumes t =
     t\<lparr>Spec := (Spec t)\<lparr>SpecConfig := (SpecConfig (Spec t))\<lparr>Storage := \<lparr>Volumes = volumes\<rparr>\<rparr>\<rparr>\<rparr>"

section \<open>Status\<close>

definition UpdateStatus :: "instant \<Rightarrow> State \<Rightarrow> string \<Rightarrow> string \<Rightarrow> Task \<Rightarrow> Task" where
  "UpdateStatus now state containerID msg t =
     (let t = t\<lparr>Status := (Status t)\<lparr>State := state\<rparr>\<rparr>;
          t = t\<lparr>Status := (Status t)\<lparr>ContainerID := containerID\<rparr>\<rparr>;
          t = t\<lparr>Status := (Status t)\<lparr>Message := msg\<rparr>\<rparr>
      in case state of
           Running \<Rightarrow>
             (if StartTime (Status t) = None
              then t\<lparr>Status := (Status t)\<lparr>StartTime := Some now\<rparr>\<rparr> else t)
         | Completed \<Rightarrow> t\<lparr>Status := (Status t)\<lparr>FinishTime := Some now\<rparr>\<rparr>
         | Failed \<Rightarrow> t\<lparr>Status := (Status t)\<lparr>FinishTime := Some now\<rparr>\<rparr>
         | _ \<Rightarrow> t)"

definition IsComplete :: "Task \<Rightarrow> bool" where
  "IsComplete t \<longleftrightarrow> State (Status t) = Completed \<or> State (Status t) = Failed"

definition Duration :: "instant \<Rightarrow> Task \<Rightarrow> duration" where
  "Duration now t =
     (case StartTime (Status t) of
        None \<Rightarrow> 0
      | Some start \<Rightarrow>
          (case FinishTime (Status t) of
             Some finish \<Rightarrow> time_Sub finish start
           | None \<Rightarrow> time_Sub now start))"

definition Validate :: "Task \<Rightarrow> bool" where
  "Validate t \<longleftrightarrow>
     MetaID (Metadata t) \<noteq> uuid_Nil \<and> length (Command (Spec t)) > 0
     \<and> sint (Timeout (Spec t)) > 0 \<and> Image (SpecConfig (Spec t)) \<noteq> ''''"

lemma UpdateStatus_fields [simp]:
  "State (Status (UpdateStatus now s c m t)) = s"
  "ContainerID (Status (UpdateStatus now s c m t)) = c"
  "Message (Status (UpdateStatus now s c m t)) = m"
  "Metadata (UpdateStatus now s c m t) = Metadata t"
  "Spec (UpdateStatus now s c m t) = Spec t"
  "RestartCount (Status (UpdateStatus now s c m t)) = RestartCount (Status t)"
  by (simp_all add: UpdateStatus_def Let_def split: State.split)

lemma StartTime_UpdateStatus:
  "StartTime (Status (UpdateStatus now s c m t)) =
     (if s = Running \<and> StartTime (Status t) = None then Some now else StartTime (Status t))"
  by (simp add: UpdateStatus_def Let_def split: State.split)

lemma FinishTime_UpdateStatus:
  "FinishTime (Status (UpdateStatus now s c m t)) =
     (if s = Completed \<or> s = Failed then Some now else FinishTime (Status t))"
  by (simp add: UpdateStatus_def Let_def split: State.split)

section \<open>Runs of updates\<close>

record status_update =
  at :: instant
  to :: State
  container :: string
  note_msg :: string

definition apply_update :: "status_update \<Rightarrow> Task \<Rightarrow> Task" where
  "apply_update u = UpdateStatus (at u) (to u) (container u) (note_msg u)"

definition final_update :: "status_update \<Rightarrow> bool" where
  "final_update u \<longleftrightarrow> to u = Completed \<or> to u = Failed"

lemma StartTime_run:
  "StartTime (Status (fold apply_update us t)) =
     (case StartTime (Status t) of
        Some x \<Rightarrow> Some x
      | None \<Rightarrow> map_option at (List.find (\<lambda>u. to u = Running) us))"
  by (induction us arbitrary: t)
    (auto simp: apply_update_def StartTime_UpdateStatus split: option.split)

lemma find_rev_snoc: "List.find P (rev (x # xs)) =
    (case List.find P (rev xs) of Some y \<Rightarrow> Some y | None \<Rightarrow> if P x then Some x else None)"
proof -
  have "List.find P (ys @ [x]) =
    (case List.find P ys of Some y \<Rightarrow> Some y | None \<Rightarrow> if P x then Some x else None)" for ys
    by (induction ys) auto
  then show ?thesis by simp
qed

lemma FinishTime_run:
  "FinishTime (Status (fold apply_update us t)) =
     (case List.find final_update (rev us) of
        Some u \<Rightarrow> Some (at u)
      | None \<Rightarrow> FinishTime (Status t))"
proof (induction us arbitrary: t)
  case Nil
  then show ?case by simp
next
  case (Cons u us)
  then show ?case
    by (simp del: rev.simps
        add: find_rev_snoc apply_update_def FinishTime_UpdateStatus final_update_def
        split: option.split)
qed

lemma State_run: "State (Status (fold apply_update us t)) = last (State (Status t) # map to us)"
  by (induction us arbitrary: t) (simp_all add: apply_update_def)

text \<open>C25: After any run of status updates on a fresh task, the start time is the time of the
  first update to Running, never overwritten, the finish time that of the last update to
  Completed or Failed, and the state that of the last update.\<close>

theorem update_run_times:
  "let t = fold apply_update us (NewTask now new_id name img) in
     StartTime (Status t) = map_option at (List.find (\<lambda>u. to u = Running) us)
     \<and> FinishTime (Status t) = map_option at (List.find final_update (rev us))
     \<and> State (Status t) = last (Pending # map to us)
     \<and> (IsComplete t \<longleftrightarrow> us \<noteq> [] \<and> final_update (last us))"
proof -
  let ?t = "fold apply_update us (NewTask now new_id name img)"
  have fresh: "StartTime (Status (NewTask now new_id name img)) = None"
    "FinishTime (Status (NewTask now new_id name img)) = None"
    "State (Status (NewTask now new_id name img)) = Pending"
    by (simp_all add: NewTask_def zero_status_def)
  have state: "State (Status ?t) = last (Pending # map to us)"
    using State_run [of us "NewTask now new_id name img"] by (simp only: fresh)
  then have "IsComplete ?t \<longleftrightarrow> us \<noteq> [] \<and> final_update (last us)"
    by (auto simp: IsComplete_def final_update_def last_map split: if_splits)
  with state show ?thesis
    by (simp add: Let_def StartTime_run FinishTime_run fresh option.case_eq_if option.map_sel
        map_option_case)
qed

section \<open>Durations\<close>

lemma sint_Duration:
  "sint (Duration now t) =
     (case StartTime (Status t) of
        None \<Rightarrow> 0
      | Some start \<Rightarrow>
          (let stop = (case FinishTime (Status t) of Some f \<Rightarrow> f | None \<Rightarrow> now) in
           max (- (2 ^ 63)) (min (2 ^ 63 - 1) (stop - start))))"
  by (simp add: Duration_def sint_time_Sub min_duration_def max_duration_def Let_def
      split: option.split)

text \<open>The duration of a task is zero until it runs; afterwards it is the signed
  difference between the finish time (the current time while there is none) and the start
  time, saturated at the range of a 64-bit number of nanoseconds, so never wrapped around.\<close>

theorem Duration_saturates:
  "sint (Duration now t) =
     (case StartTime (Status t) of
        None \<Rightarrow> 0
      | Some start \<Rightarrow>
          (let stop = (case FinishTime (Status t) of Some f \<Rightarrow> f | None \<Rightarrow> now) in
           max (- (2 ^ 63)) (min (2 ^ 63 - 1) (stop - start))))"
  by (rule sint_Duration)

text \<open>The updates of a task whose first run fails before it starts and that is restarted.\<close>

definition restarted_before_running :: "instant \<Rightarrow> instant \<Rightarrow> status_update list" where
  "restarted_before_running failed running =
     map (\<lambda>(x, s). \<lparr>at = x, to = s, container = '''', note_msg = ''''\<rparr>)
       [(failed - 1, Scheduled), (failed, Failed), (failed, Scheduled), (failed, Starting),
        (running, Running)]"

text \<open>UpdateStatus keeps the finish time of an earlier failure when a task is restarted: a
  task that failed before it ran and then runs, by transitions the life cycle accepts, has a
  negative duration while it is running.\<close>

theorem restart_gives_negative_duration:
  assumes "failed < running" and "running - failed < 2 ^ 63"
  shows "let us = restarted_before_running failed running;
             t = fold apply_update us (NewTask created new_id name img) in
           history Pending (map to us)
           \<and> State (Status t) = Running \<and> sint (Duration now t) = failed - running
           \<and> sint (Duration now t) < 0"
proof -
  let ?us = "restarted_before_running failed running"
  let ?t = "fold apply_update ?us (NewTask created new_id name img)"
  have times: "StartTime (Status ?t) = Some running" "FinishTime (Status ?t) = Some failed"
    and state: "State (Status ?t) = Running"
    by (simp_all add: restarted_before_running_def apply_update_def UpdateStatus_def
        NewTask_def zero_status_def)
  have "sint (Duration now ?t) = failed - running"
    using assms by (simp add: sint_Duration times)
  moreover have "history Pending (map to ?us)"
    by (simp add: restarted_before_running_def)
  ultimately show ?thesis
    using assms(1) state by (simp add: Let_def)
qed

lemma restart_gives_negative_duration_witness:
  "sint (Duration 99 (fold apply_update (restarted_before_running 10 25)
     (NewTask 0 1 ''job'' ''alpine''))) = - 15"
  using restart_gives_negative_duration [of 10 25 0 1 "''job''" "''alpine''" 99]
  by (simp add: Let_def)

end
