(* ===== verification/Store.thy ===== *)
theory Store
  imports Task_Model
begin

text \<open>
  The stores of \<open>internal/adapters/store\<close>: the in-memory stores of tasks and of task events, the
  persistent ones over a bolt database, and the factory.

  An in-memory store maps keys to \<^emph>\<open>pointers\<close>: what \<open>Get\<close> returns is the object that was put,
  and a write through it is seen by every later \<open>Get\<close>. A persistent store encodes and decodes,
  so \<open>Get\<close> returns a new object. Both are operations over a memory of tasks (a list of cells) and
  the store's own state.

  A value passed as \<open>interface{}\<close> is a pointer to a task, a pointer to an event, or something
  else; its rendering by \<open>%v\<close> is the parameter \<open>fmt_v\<close>.
\<close>

datatype "value" = VTask addr | VTaskEvent addr | VOther string

section \<open>The contract of a store of pointers\<close>

definition view_of :: "(string \<Rightarrow> 's \<Rightarrow> addr res) \<Rightarrow> 's \<Rightarrow> string \<Rightarrow> addr option" where
  "view_of get s k = (case get k s of Inl _ \<Rightarrow> None | Inr a \<Rightarrow> Some a)"

datatype store_cmd = PutCmd string addr | DeleteCmd string

fun cmd_spec :: "store_cmd \<Rightarrow> (string \<Rightarrow> addr option) \<Rightarrow> (string \<Rightarrow> addr option)" where
  "cmd_spec (PutCmd k a) m = m(k := Some a)"
| "cmd_spec (DeleteCmd k) m = m(k := None)"

text \<open>A refused command leaves the store as it is.\<close>

fun run_cmd ::
  "(string \<Rightarrow> addr \<Rightarrow> 's \<Rightarrow> 's res) \<Rightarrow> (string \<Rightarrow> 's \<Rightarrow> 's res) \<Rightarrow> store_cmd \<Rightarrow> 's \<Rightarrow> 's" where
  "run_cmd put del (PutCmd k a) s = (case put k a s of Inl _ \<Rightarrow> s | Inr s' \<Rightarrow> s')"
| "run_cmd put del (DeleteCmd k) s = (case del k s of Inl _ \<Rightarrow> s | Inr s' \<Rightarrow> s')"

locale keyed_store =
  fixes empty :: 's
    and put :: "string \<Rightarrow> addr \<Rightarrow> 's \<Rightarrow> 's res"
    and get :: "string \<Rightarrow> 's \<Rightarrow> addr res"
    and del :: "string \<Rightarrow> 's \<Rightarrow> 's res"
    and list_all_of :: "(addr gomap \<Rightarrow> addr gomap) \<Rightarrow> 's \<Rightarrow> addr list"
    and count :: "'s \<Rightarrow> nat"
    and invar :: "'s \<Rightarrow> bool"
  assumes invar_empty: "invar empty"
    and view_empty: "view_of get empty k = None"
    and put_total: "\<exists>s'. put k a s = Inr s'"
    and view_put: "invar s \<Longrightarrow> put k a s = Inr s' \<Longrightarrow> view_of get s' = (view_of get s)(k := Some a)"
    and invar_put: "invar s \<Longrightarrow> put k a s = Inr s' \<Longrightarrow> invar s'"
    and del_total: "(\<exists>s'. del k s = Inr s') \<longleftrightarrow> view_of get s k \<noteq> None"
    and view_del: "invar s \<Longrightarrow> del k s = Inr s' \<Longrightarrow> view_of get s' = (view_of get s)(k := None)"
    and invar_del: "invar s \<Longrightarrow> del k s = Inr s' \<Longrightarrow> invar s'"
    and count_view: "invar s \<Longrightarrow> count s = card (dom (view_of get s))"
    and list_view: "invar s \<Longrightarrow> iteration_order iter \<Longrightarrow> set (list_all_of iter s) = ran (view_of get s)"
    and length_list: "invar s \<Longrightarrow> iteration_order iter \<Longrightarrow> length (list_all_of iter s) = count s"
begin

lemma view_cmd:
  "invar s \<Longrightarrow> invar (run_cmd put del c s)
     \<and> view_of get (run_cmd put del c s) = cmd_spec c (view_of get s)"
proof (cases c)
  case (PutCmd k a)
  moreover assume "invar s"
  moreover obtain s' where "put k a s = Inr s'" using put_total by blast
  ultimately show ?thesis by (simp add: view_put invar_put)
next
  case (DeleteCmd k)
  moreover assume s: "invar s"
  moreover have "view_of get s = (view_of get s)(k := None)" if "del k s = Inl e" for e
    using that del_total [of k s] by (auto simp: fun_eq_iff)
  ultimately show ?thesis
    by (cases "del k s") (auto simp: view_del invar_del)
qed

lemma view_cmds:
  "invar s \<Longrightarrow> invar (fold (run_cmd put del) cs s)
     \<and> view_of get (fold (run_cmd put del) cs s) = fold cmd_spec cs (view_of get s)"
  by (induction cs arbitrary: s) (simp_all add: view_cmd)

lemma store_refines_map:
  assumes "iteration_order iter"
  shows "let s = fold (run_cmd put del) cs empty; m = fold cmd_spec cs (\<lambda>_. None) in
     view_of get s = m \<and> count s = card (dom m) \<and> set (list_all_of iter s) = ran m
     \<and> length (list_all_of iter s) = card (dom m)
     \<and> (\<forall>k. (\<exists>s'. del k s = Inr s') \<longleftrightarrow> k \<in> dom m)"
proof -
  let ?s = "fold (run_cmd put del) cs empty" and ?m = "fold cmd_spec cs (\<lambda>_. None)"
  have "view_of get empty = (\<lambda>_. None)"
    by (rule ext) (rule view_empty)
  then have inv: "invar ?s" and view: "view_of get ?s = ?m"
    using view_cmds [OF invar_empty, of cs] by simp_all
  show ?thesis
    using count_view [OF inv] list_view [OF inv assms] length_list [OF inv assms]
    by (simp add: view del_total dom_def Let_def)
qed

end

section \<open>In-memory stores\<close>

record mem_store =
  Db :: "addr gomap"

type_synonym InMemoryTaskStore = mem_store
type_synonym InMemoryTaskEventStore = mem_store

definition NewInMemoryTaskStore :: InMemoryTaskStore where
  "NewInMemoryTaskStore = \<lparr>Db = []\<rparr>"

definition InMemoryTaskStore_Put ::
  "(value \<Rightarrow> string) \<Rightarrow> string \<Rightarrow> value \<Rightarrow> InMemoryTaskStore \<Rightarrow> InMemoryTaskStore res" where
  "InMemoryTaskStore_Put fmt_v key v i =
     (case v of
        VTask t \<Rightarrow> Inr (i\<lparr>Db := AList.update key t (Db i)\<rparr>)
      | _ \<Rightarrow> Inl (GoError (''value '' @ fmt_v v @ '' is not a task.Task type'')))"

definition InMemoryTaskStore_Get :: "string \<Rightarrow> InMemoryTaskStore \<Rightarrow> addr res" where
  "InMemoryTaskStore_Get key i =
     (case map_of (Db i) key of
        None \<Rightarrow> Inl (GoError (''task with key '' @ key @ '' does not exist''))
      | Some t \<Rightarrow> Inr t)"

definition InMemoryTaskStore_List ::
  "(addr gomap \<Rightarrow> addr gomap) \<Rightarrow> InMemoryTaskStore \<Rightarrow> addr list" where
  "InMemoryTaskStore_List iter i = map snd (iter (Db i))"

definition InMemoryTaskStore_Count :: "InMemoryTaskStore \<Rightarrow> nat" where
  "InMemoryTaskStore_Count i = length (Db i)"

definition InMemoryTaskStore_Delete :: "string \<Rightarrow> InMemoryTaskStore \<Rightarrow> InMemoryTaskStore res" where
  "InMemoryTaskStore_Delete key i =
     (case map_of (Db i) key of
        None \<Rightarrow> Inl (GoError (''task with key '' @ key @ '' does not exist''))
      | Some _ \<Rightarrow> Inr (i\<lparr>Db := AList.delete key (Db i)\<rparr>))"

definition NewInMemoryTaskEventStore :: InMemoryTaskEventStore where
  "NewInMemoryTaskEventStore = \<lparr>Db = []\<rparr>"

definition InMemoryTaskEventStore_Put ::
  "(value \<Rightarrow> string) \<Rightarrow> string \<Rightarrow> value \<Rightarrow> InMemoryTaskEventStore \<Rightarrow> InMemoryTaskEventStore res" where
  "InMemoryTaskEventStore_Put fmt_v key v i =
     (case v of
        VTaskEvent e \<Rightarrow> Inr (i\<lparr>Db := AList.update key e (Db i)\<rparr>)
      | _ \<Rightarrow> Inl (GoError (''value '' @ fmt_v v @ '' is not a task.TaskEvent type'')))"

definition InMemoryTaskEventStore_Get :: "string \<Rightarrow> InMemoryTaskEventStore \<Rightarrow> addr res" where
  "InMemoryTaskEventStore_Get key i =
     (case map_of (Db i) key of
        None \<Rightarrow> Inl (GoError (''task event with key '' @ key @ '' does not exist''))
      | Some e \<Rightarrow> Inr e)"

definition InMemoryTaskEventStore_List ::
  "(addr gomap \<Rightarrow> addr gomap) \<Rightarrow> InMemoryTaskEventStore \<Rightarrow> addr list" where
  "InMemoryTaskEventStore_List iter i = map snd (iter (Db i))"

definition InMemoryTaskEventStore_Count :: "InMemoryTaskEventStore \<Rightarrow> nat" where
  "InMemoryTaskEventStore_Count i = length (Db i)"

definition InMemoryTaskEventStore_Delete ::
  "string \<Rightarrow> InMemoryTaskEventStore \<Rightarrow> InMemoryTaskEventStore res" where
  "InMemoryTaskEventStore_Delete key i =
     (case map_of (Db i) key of
        None \<Rightarrow> Inl (GoError (''task event with key '' @ key @ '' does not exist''))
      | Some _ \<Rightarrow> Inr (i\<lparr>Db := AList.delete key (Db i)\<rparr>))"

definition mem_ok :: "mem_store \<Rightarrow> bool" where
  "mem_ok i \<longleftrightarrow> gomap_ok (Db i)"

lemmas mem_task_defs =
  NewInMemoryTaskStore_def InMemoryTaskStore_Put_def InMemoryTaskStore_Get_def
  InMemoryTaskStore_List_def InMemoryTaskStore_Count_def InMemoryTaskStore_Delete_def

lemmas mem_event_defs =
  NewInMemoryTaskEventStore_def InMemoryTaskEventStore_Put_def InMemoryTaskEventStore_Get_def
  InMemoryTaskEventStore_List_def InMemoryTaskEventStore_Count_def
  InMemoryTaskEventStore_Delete_def

lemma ran_map_of: "gomap_ok m \<Longrightarrow> ran (map_of m) = snd ` set m"
  by (simp add: gomap_ok_def ran_distinct)

lemma view_mem_task [store_simps, simp]: "view_of InMemoryTaskStore_Get i = map_of (Db i)"
  by (auto simp: view_of_def InMemoryTaskStore_Get_def fun_eq_iff split: option.split)

lemma view_mem_event [store_simps, simp]: "view_of InMemoryTaskEventStore_Get i = map_of (Db i)"
  by (auto simp: view_of_def InMemoryTaskEventStore_Get_def fun_eq_iff split: option.split)

interpretation mem_tasks: keyed_store
  NewInMemoryTaskStore "\<lambda>k a. InMemoryTaskStore_Put fmt_v k (VTask a)" InMemoryTaskStore_Get
  InMemoryTaskStore_Delete InMemoryTaskStore_List InMemoryTaskStore_Count mem_ok
  for fmt_v
  by unfold_locales
    (auto simp: mem_task_defs mem_ok_def fun_eq_iff length_gomap set_iteration length_iteration
      ran_map_of split: option.splits)

interpretation mem_events: keyed_store
  NewInMemoryTaskEventStore "\<lambda>k a. InMemoryTaskEventStore_Put fmt_v k (VTaskEvent a)"
  InMemoryTaskEventStore_Get InMemoryTaskEventStore_Delete InMemoryTaskEventStore_List
  InMemoryTaskEventStore_Count mem_ok
  for fmt_v
  by unfold_locales
    (auto simp: mem_event_defs mem_ok_def fun_eq_iff length_gomap set_iteration length_iteration
      ran_map_of split: option.splits)

text \<open>C12: The in-memory task store is a finite map from keys to task pointers: after any run
  of puts and deletes Get, List (in every iteration order Go may choose), Count and the
  refusals of Delete are those of the map the commands describe.\<close>

theorem mem_task_store_refines_map:
  assumes "iteration_order iter"
  shows "let s = fold (run_cmd (\<lambda>k a. InMemoryTaskStore_Put fmt_v k (VTask a))
                    InMemoryTaskStore_Delete) cs NewInMemoryTaskStore;
             m = fold cmd_spec cs (\<lambda>_. None) in
     view_of InMemoryTaskStore_Get s = m
     \<and> InMemoryTaskStore_Count s = card (dom m)
     \<and> set (InMemoryTaskStore_List iter s) = ran m
     \<and> length (InMemoryTaskStore_List iter s) = card (dom m)
     \<and> (\<forall>k. (\<exists>s'. InMemoryTaskStore_Delete k s = Inr s') \<longleftrightarrow> k \<in> dom m)"
  by (rule mem_tasks.store_refines_map [OF assms])

lemma mem_task_store_refines_map_witness:
  "let s = fold (run_cmd (\<lambda>k a. InMemoryTaskStore_Put (\<lambda>_. '''') k (VTask a))
                    InMemoryTaskStore_Delete)
             [PutCmd ''a'' 0, PutCmd ''b'' 1, DeleteCmd ''a'', PutCmd ''c'' 2]
             NewInMemoryTaskStore in
     InMemoryTaskStore_Count s = card (dom [''b'' \<mapsto> 1, ''c'' \<mapsto> (2::nat)])"
proof -
  have "fold cmd_spec [PutCmd ''a'' 0, PutCmd ''b'' 1, DeleteCmd ''a'', PutCmd ''c'' 2] (\<lambda>_. None)
      = [''b'' \<mapsto> 1, ''c'' \<mapsto> 2]"
    by (auto simp: fun_eq_iff)
  then show ?thesis
    using mem_task_store_refines_map [OF iteration_order_rev,
        of "\<lambda>_. ''''" "[PutCmd ''a'' 0, PutCmd ''b'' 1, DeleteCmd ''a'', PutCmd ''c'' 2]"]
    by (simp only: Let_def)
qed

lemma mem_event_store_refines_map:
  assumes "iteration_order iter"
  shows "let s = fold (run_cmd (\<lambda>k a. InMemoryTaskEventStore_Put fmt_v k (VTaskEvent a))
                    InMemoryTaskEventStore_Delete) cs NewInMemoryTaskEventStore;
             m = fold cmd_spec cs (\<lambda>_. None) in
     view_of InMemoryTaskEventStore_Get s = m
     \<and> InMemoryTaskEventStore_Count s = card (dom m)
     \<and> set (InMemoryTaskEventStore_List iter s) = ran m
     \<and> length (InMemoryTaskEventStore_List iter s) = card (dom m)
     \<and> (\<forall>k. (\<exists>s'. InMemoryTaskEventStore_Delete k s = Inr s') \<longleftrightarrow> k \<in> dom m)"
  by (rule mem_events.store_refines_map [OF assms])

end
