(* ===== verification/Persistent_Store.thy ===== *)
theory Persistent_Store
  imports Store
begin

text \<open>
  The persistent stores of \<open>internal/adapters/store/store.go\<close> over a bolt database, and the
  store factory \<open>factory.go\<close>.

  Bolt is a third-party package: the database is a value of a type \<open>'db\<close> and the operations the
  source calls on it are the fields of a record of parameters, \<open>'db bolt\<close>. \<open>json.Marshal\<close> and
  \<open>json.Unmarshal\<close> on tasks and events are parameters too. What the code relies on is stated by
  \<open>bolt_documented\<close> and by \<open>json_documented\<close> of \<open>Task_Db\<close>.

  \<open>tx.Bucket(name)\<close> returns a nil bucket when there is none; every method the source calls on a
  nil bucket dereferences it, which panics.
\<close>

section \<open>Bolt\<close>

record 'db bolt =
  bolt_begin_error :: "bool \<Rightarrow> 'db \<Rightarrow> go_error option"
  bolt_commit :: "'db \<Rightarrow> 'db res"
  has_bucket :: "string \<Rightarrow> 'db \<Rightarrow> bool"
  create_bucket :: "string \<Rightarrow> 'db \<Rightarrow> 'db res"
  bucket_put :: "string \<Rightarrow> string \<Rightarrow> string \<Rightarrow> 'db \<Rightarrow> 'db res"
  bucket_get :: "string \<Rightarrow> string \<Rightarrow> 'db \<Rightarrow> string option"
  bucket_delete :: "string \<Rightarrow> string \<Rightarrow> 'db \<Rightarrow> 'db res"
  bucket_entries :: "string \<Rightarrow> 'db \<Rightarrow> (string \<times> string) list"

text \<open>
  \<open>Update(f)\<close> runs \<open>f\<close> in a read-write transaction: its error rolls everything back, otherwise
  the transaction is committed. \<open>View(f)\<close> runs \<open>f\<close> in a read-only one.
\<close>

definition bolt_Update :: "'db bolt \<Rightarrow> ('db \<Rightarrow> 'db res go) \<Rightarrow> 'db \<Rightarrow> 'db res go" where
  "bolt_Update b f db =
     (case bolt_begin_error b True db of
        Some e \<Rightarrow> Returns (Inl e)
      | None \<Rightarrow> go_bind (f db) (\<lambda>r. Returns (case r of Inl e \<Rightarrow> Inl e | Inr db' \<Rightarrow> bolt_commit b db')))"

definition bolt_View :: "'db bolt \<Rightarrow> ('db \<Rightarrow> 'a res go) \<Rightarrow> 'db \<Rightarrow> 'a res go" where
  "bolt_View b f db =
     (case bolt_begin_error b False db of Some e \<Rightarrow> Returns (Inl e) | None \<Rightarrow> f db)"

text \<open>Bolt's documented behaviour on a database that can be opened for transactions.\<close>

definition bolt_tx_documented :: "'db bolt \<Rightarrow> bool" where
  "bolt_tx_documented b \<longleftrightarrow>
     (\<forall>w db. bolt_begin_error b w db = None) \<and> (\<forall>db. bolt_commit b db = Inr db)"

definition bolt_create_documented :: "'db bolt \<Rightarrow> bool" where
  "bolt_create_documented b \<longleftrightarrow>
     (\<forall>n db db'. create_bucket b n db = Inr db' \<longrightarrow>
        (\<forall>n'. has_bucket b n' db' \<longleftrightarrow> n' = n \<or> has_bucket b n' db))"

definition bolt_put_documented :: "'db bolt \<Rightarrow> bool" where
  "bolt_put_documented b \<longleftrightarrow>
     (\<forall>n k v db. has_bucket b n db \<and> k \<noteq> '''' \<longrightarrow>
        (\<exists>db'. bucket_put b n k v db = Inr db'
           \<and> (\<forall>n'. has_bucket b n' db' = has_bucket b n' db)
           \<and> (\<forall>n' k'. bucket_get b n' k' db' =
                (if n' = n \<and> k' = k then Some v else bucket_get b n' k' db))))"

definition bolt_delete_documented :: "'db bolt \<Rightarrow> bool" where
  "bolt_delete_documented b \<longleftrightarrow>
     (\<forall>n k db. has_bucket b n db \<longrightarrow>
        (\<exists>db'. bucket_delete b n k db = Inr db'
           \<and> (\<forall>n'. has_bucket b n' db' = has_bucket b n' db)
           \<and> (\<forall>n' k'. bucket_get b n' k' db' =
                (if n' = n \<and> k' = k then None else bucket_get b n' k' db))))"

definition bolt_documented :: "'db bolt \<Rightarrow> bool" where
  "bolt_documented b \<longleftrightarrow>
     bolt_tx_documented b \<and> bolt_create_documented b \<and> bolt_put_documented b
     \<and> bolt_delete_documented b"

section \<open>The task store\<close>

record 't json =
  Marshal :: "'t \<Rightarrow> string res"
  Unmarshal :: "string \<Rightarrow> 't res"

definition TaskStore_CreateBucket :: "'db bolt \<Rightarrow> string \<Rightarrow> 'db \<Rightarrow> 'db res go" where
  "TaskStore_CreateBucket b bucket =
     bolt_Update b (\<lambda>db. Returns
       (case create_bucket b bucket db of
          Inl e \<Rightarrow> Inl (GoError (''create bucket '' @ bucket @ '': '' @ message e))
        | Inr db' \<Rightarrow> Inr db'))"

text \<open>Opening: \<open>opened\<close> is the result of \<open>bolt.Open\<close>. An error of \<open>CreateBucket\<close> is only logged.\<close>

definition NewTaskStore :: "'db bolt \<Rightarrow> 'db res \<Rightarrow> string \<Rightarrow> string \<Rightarrow> 'db res go" where
  "NewTaskStore b opened file bucket =
     (case opened of
        Inl _ \<Rightarrow> Returns (Inl (GoError (''unable to open '' @ file)))
      | Inr db \<Rightarrow> go_bind (TaskStore_CreateBucket b bucket db)
          (\<lambda>r. Returns (Inr (case r of Inl _ \<Rightarrow> db | Inr db' \<Rightarrow> db'))))"

definition TaskStore_Put ::
  "'db bolt \<Rightarrow> Task json \<Rightarrow> string \<Rightarrow> Task list \<Rightarrow> string \<Rightarrow> value \<Rightarrow> 'db \<Rightarrow> 'db res go" where
  "TaskStore_Put b j bucket mem key v =
     bolt_Update b (\<lambda>db.
       case v of
         VTask a \<Rightarrow>
           (case Marshal j (mem ! a) of
              Inl e \<Rightarrow> Returns (Inl e)
            | Inr buf \<Rightarrow>
                if has_bucket b bucket db then Returns (bucket_put b bucket key buf db)
                else Panics NilDereference)
       | _ \<Rightarrow> Panics FailedTypeAssertion)"

definition TaskStore_Get ::
  "'db bolt \<Rightarrow> Task json \<Rightarrow> string \<Rightarrow> Task list \<Rightarrow> string \<Rightarrow> 'db \<Rightarrow> (addr \<times> Task list) res go" where
  "TaskStore_Get b j bucket mem key =
     bolt_View b (\<lambda>db.
       if has_bucket b bucket db then
         Returns (case bucket_get b bucket key db of
             None \<Rightarrow> Inl (GoError (''task '' @ key @ '' not found''))
           | Some t \<Rightarrow>
               (case Unmarshal j t of Inl e \<Rightarrow> Inl e | Inr task \<Rightarrow> Inr (alloc task mem)))
       else Panics NilDereference)"

text \<open>\<open>ForEach\<close> stops at the first error of its callback; the source drops that error.\<close>

fun decode_prefix :: "'t json \<Rightarrow> (string \<times> string) list \<Rightarrow> 't list" where
  "decode_prefix j [] = []"
| "decode_prefix j ((k, v) # kvs) =
     (case Unmarshal j v of Inl e \<Rightarrow> [] | Inr t \<Rightarrow> t # decode_prefix j kvs)"

definition TaskStore_List ::
  "'db bolt \<Rightarrow> Task json \<Rightarrow> string \<Rightarrow> Task list \<Rightarrow> 'db \<Rightarrow> (addr list \<times> Task list) res go" where
  "TaskStore_List b j bucket mem =
     bolt_View b (\<lambda>db.
       if has_bucket b bucket db then
         (let tasks = decode_prefix j (bucket_entries b bucket db)
          in Returns (Inr ([length mem..<length mem + length tasks], mem @ tasks)))
       else Panics NilDereference)"

text \<open>\<open>Count\<close> names the bucket \<open>tasks\<close>, whatever the store's own bucket is.\<close>

definition TaskStore_Count :: "'db bolt \<Rightarrow> 'db \<Rightarrow> nat res go" where
  "TaskStore_Count b =
     bolt_View b (\<lambda>db.
       if has_bucket b ''tasks'' db then Returns (Inr (length (bucket_entries b ''tasks'' db)))
       else Panics NilDereference)"

definition TaskStore_Delete :: "'db bolt \<Rightarrow> string \<Rightarrow> string \<Rightarrow> 'db \<Rightarrow> 'db res go" where
  "TaskStore_Delete b bucket key =
     bolt_Update b (\<lambda>db.
       if has_bucket b bucket db then
         Returns (case bucket_delete b bucket key db of
             Inl _ \<Rightarrow> Inl (GoError (''unable to delete task '' @ key))
           | Inr db' \<Rightarrow> Inr db')
       else Panics NilDereference)"

section \<open>The event store\<close>

definition EventStore_CreateBucket :: "'db bolt \<Rightarrow> string \<Rightarrow> 'db \<Rightarrow> 'db res go" where
  "EventStore_CreateBucket b bucket =
     bolt_Update b (\<lambda>db. Returns
       (case create_bucket b bucket db of
          Inl e \<Rightarrow> Inl (GoError (''create bucket '' @ bucket @ '': '' @ message e))
        | Inr db' \<Rightarrow> Inr db'))"

definition NewEventStore :: "'db bolt \<Rightarrow> 'db res \<Rightarrow> string \<Rightarrow> string \<Rightarrow> 'db res go" where
  "NewEventStore b opened file bucket =
     (case opened of
        Inl _ \<Rightarrow> Returns (Inl (GoError (''unable to open '' @ file)))
      | Inr db \<Rightarrow> go_bind (EventStore_CreateBucket b bucket db)
          (\<lambda>r. Returns (Inr (case r of Inl _ \<Rightarrow> db | Inr db' \<Rightarrow> db'))))"

definition EventStore_Count :: "'db bolt \<Rightarrow> string \<Rightarrow> 'db \<Rightarrow> nat res go" where
  "EventStore_Count b bucket =
     bolt_View b (\<lambda>db.
       if has_bucket b bucket db then Returns (Inr (length (bucket_entries b bucket db)))
       else Panics NilDereference)"

definition EventStore_Put ::
  "'db bolt \<Rightarrow> TaskEvent json \<Rightarrow> string \<Rightarrow> TaskEvent list \<Rightarrow> string \<Rightarrow> value \<Rightarrow> 'db \<Rightarrow> 'db res go" where
  "EventStore_Put b j bucket mem key v =
     bolt_Update b (\<lambda>db.
       case v of
         VTaskEvent a \<Rightarrow>
           (case Marshal j (mem ! a) of
              Inl e \<Rightarrow> Returns (Inl e)
            | Inr buf \<Rightarrow>
                if has_bucket b bucket db then Returns (bucket_put b bucket key buf db)
                else Panics NilDereference)
       | _ \<Rightarrow> Panics FailedTypeAssertion)"

definition EventStore_Get ::
  "'db bolt \<Rightarrow> TaskEvent json \<Rightarrow> string \<Rightarrow> TaskEvent list \<Rightarrow> string \<Rightarrow> 'db \<Rightarrow>
   (addr \<times> TaskEvent list) res go" where
  "EventStore_Get b j bucket mem key =
     bolt_View b (\<lambda>db.
       if has_bucket b bucket db then
         Returns (case bucket_get b bucket key db of
             None \<Rightarrow> Inl (GoError (''event '' @ key @ '' not found''))
           | Some t \<Rightarrow>
               (case Unmarshal j t of Inl e \<Rightarrow> Inl e | Inr event \<Rightarrow> Inr (alloc event mem)))
       else Panics NilDereference)"

definition EventStore_List ::
  "'db bolt \<Rightarrow> TaskEvent json \<Rightarrow> string \<Rightarrow> TaskEvent list \<Rightarrow> 'db \<Rightarrow>
   (addr list \<times> TaskEvent list) res go" where
  "EventStore_List b j bucket mem =
     bolt_View b (\<lambda>db.
       if has_bucket b bucket db then
         (let events = decode_prefix j (bucket_entries b bucket db)
          in Returns (Inr ([length mem..<length mem + length events], mem @ events)))
       else Panics NilDereference)"

definition EventStore_Delete :: "'db bolt \<Rightarrow> string \<Rightarrow> string \<Rightarrow> 'db \<Rightarrow> 'db res go" where
  "EventStore_Delete b bucket key =
     bolt_Update b (\<lambda>db.
       if has_bucket b bucket db then
         Returns (case bucket_delete b bucket key db of
             Inl _ \<Rightarrow> Inl (GoError (''unable to delete event '' @ key))
           | Inr db' \<Rightarrow> Inr db')
       else Panics NilDereference)"

section \<open>The factory\<close>

text \<open>
  The dynamic type of the store returned: none for an unknown kind, a task store whose pointer
  is nil (a non-nil interface value) when it could not be opened. The error is always nil.
\<close>

datatype 'db any_store =
    NilStore
  | MemoryTaskStore InMemoryTaskStore
  | BoltTaskStore 'db
  | NilBoltTaskStore

definition NewStore ::
  "'db bolt \<Rightarrow> (string \<Rightarrow> 'db res) \<Rightarrow> string \<Rightarrow> string \<Rightarrow> ('db any_store \<times> go_error option) go" where
  "NewStore b open_file taskDbType name =
     (if taskDbType = ''memory'' then Returns (MemoryTaskStore NewInMemoryTaskStore, None)
      else if taskDbType = ''persistent'' then
        (let filename = name @ ''_tasks.db'' in
         go_bind (NewTaskStore b (open_file filename) filename ''tasks'')
           (\<lambda>r. Returns (case r of Inl _ \<Rightarrow> (NilBoltTaskStore, None) | Inr db \<Rightarrow> (BoltTaskStore db, None))))
      else Returns (NilStore, None))"

section \<open>A database that is a map of maps\<close>

text \<open>The concrete database the witnesses run on.\<close>

type_synonym map_db = "string gomap gomap"

definition map_bolt :: "map_db bolt" where
  "map_bolt =
     \<lparr>bolt_begin_error = (\<lambda>_ _. None), bolt_commit = Inr,
      has_bucket = (\<lambda>n db. map_of db n \<noteq> None),
      create_bucket = (\<lambda>n db. if map_of db n \<noteq> None then Inl (GoError ''bucket already exists'')
                              else Inr (AList.update n [] db)),
      bucket_put = (\<lambda>n k v db. case map_of db n of
                      None \<Rightarrow> Inl (GoError ''no bucket'')
                    | Some m \<Rightarrow> if k = '''' then Inl (GoError ''key required'')
                                else Inr (AList.update n (AList.update k v m) db)),
      bucket_get = (\<lambda>n k db. case map_of db n of None \<Rightarrow> None | Some m \<Rightarrow> map_of m k),
      bucket_delete = (\<lambda>n k db. case map_of db n of
                      None \<Rightarrow> Inl (GoError ''no bucket'')
                    | Some m \<Rightarrow> Inr (AList.update n (AList.delete k m) db)),
      bucket_entries = (\<lambda>n db. case map_of db n of None \<Rightarrow> [] | Some m \<Rightarrow> AList.clearjunk m)\<rparr>"

lemma map_bolt_documented: "bolt_documented map_bolt"
  unfolding bolt_documented_def
proof (intro conjI)
  show "bolt_tx_documented map_bolt"
    by (simp add: bolt_tx_documented_def map_bolt_def)
  show "bolt_create_documented map_bolt"
    by (auto simp: bolt_create_documented_def map_bolt_def split: if_splits)
  show "bolt_put_documented map_bolt"
    by (auto simp: bolt_put_documented_def map_bolt_def split: option.split)
  show "bolt_delete_documented map_bolt"
    by (auto simp: bolt_delete_documented_def map_bolt_def split: option.split)
qed

section \<open>What the persistent store does\<close>

lemma bolt_tx [simp]:
  assumes "bolt_documented b"
  shows "bolt_begin_error b w db = None" and "bolt_commit b db = Inr db"
  using assms by (simp_all add: bolt_documented_def bolt_tx_documented_def)

lemma bucket_put_ok:
  assumes "bolt_documented b" and "has_bucket b n db" and "k \<noteq> ''''"
  obtains db' where "bucket_put b n k v db = Inr db'"
    and "\<forall>n'. has_bucket b n' db' = has_bucket b n' db"
    and "\<forall>n' k'. bucket_get b n' k' db' =
            (if n' = n \<and> k' = k then Some v else bucket_get b n' k' db)"
  using assms unfolding bolt_documented_def bolt_put_documented_def by blast

lemma bucket_delete_ok:
  assumes "bolt_documented b" and "has_bucket b n db"
  obtains db' where "bucket_delete b n k db = Inr db'"
    and "\<forall>n'. has_bucket b n' db' = has_bucket b n' db"
    and "\<forall>n' k'. bucket_get b n' k' db' =
            (if n' = n \<and> k' = k then None else bucket_get b n' k' db)"
  using assms unfolding bolt_documented_def bolt_delete_documented_def by blast

text \<open>In the persistent task store a Put followed by a Get of the same key returns the
  task that the encoding of the one put decodes to, in a new object, and Gets of other keys
  are unaffected.\<close>

theorem persistent_put_get:
  assumes "bolt_documented b" and "has_bucket b bucket db" and "key \<noteq> ''''"
    and "Marshal j (mem ! a) = Inr buf" and "Unmarshal j buf = Inr t"
  shows "\<exists>db'. TaskStore_Put b j bucket mem key (VTask a) db = Returns (Inr db')
     \<and> TaskStore_Get b j bucket mem' key db' = Returns (Inr (length mem', mem' @ [t]))
     \<and> (\<forall>k. k \<noteq> key \<longrightarrow> TaskStore_Get b j bucket mem' k db' = TaskStore_Get b j bucket mem' k db)"
proof -
  obtain db' where "bucket_put b bucket key buf db = Inr db'"
    and "\<forall>n'. has_bucket b n' db' = has_bucket b n' db"
    and "\<forall>n' k'. bucket_get b n' k' db' =
            (if n' = bucket \<and> k' = key then Some buf else bucket_get b n' k' db)"
    by (rule bucket_put_ok [OF assms(1-3)])
  with assms show ?thesis
    by (intro exI [of _ db'])
      (simp add: TaskStore_Put_def TaskStore_Get_def bolt_Update_def bolt_View_def alloc_def)
qed

text \<open>An encoding of tasks by their state, for the witnesses.\<close>

definition state_json :: "Task \<Rightarrow> Task json" where
  "state_json t =
     \<lparr>Marshal = (\<lambda>u. Inr (State_String (State (Status u)))),
      Unmarshal = (\<lambda>s. if s = ''Running'' then Inr (t\<lparr>Status := (Status t)\<lparr>State := Running\<rparr>\<rparr>)
                       else if s = ''Pending'' then Inr t
                       else Inl (GoError ''syntax error''))\<rparr>"

lemma persistent_put_get_witness:
  "let t = NewTask 0 1 ''job'' ''alpine''; j = state_json t in
   \<exists>db'. TaskStore_Put map_bolt j ''tasks'' [t] ''k'' (VTask 0) [(''tasks'', [])]
           = Returns (Inr db')
     \<and> TaskStore_Get map_bolt j ''tasks'' [] ''k'' db' = Returns (Inr (0, [t]))"
proof -
  let ?t = "NewTask 0 1 ''job'' ''alpine''"
  have "\<exists>db'. TaskStore_Put map_bolt (state_json ?t) ''tasks'' [?t] ''k'' (VTask 0)
         [(''tasks'', [])] = Returns (Inr db')
     \<and> TaskStore_Get map_bolt (state_json ?t) ''tasks'' [] ''k'' db'
         = Returns (Inr (length ([] :: Task list), [] @ [?t]))
     \<and> (\<forall>k. k \<noteq> ''k'' \<longrightarrow> TaskStore_Get map_bolt (state_json ?t) ''tasks'' [] k db'
         = TaskStore_Get map_bolt (state_json ?t) ''tasks'' [] k [(''tasks'', [])])"
    by (rule persistent_put_get [OF map_bolt_documented, where buf = "''Pending''"])
      (simp_all add: map_bolt_def state_json_def NewTask_def zero_status_def)
  then show ?thesis by (auto simp: Let_def)
qed

text \<open>The two kinds of task store disagree on deleting a key that is not there: the
  in-memory store refuses, the persistent store reports success and changes no entry.\<close>

theorem delete_missing_key_differs:
  assumes "bolt_documented b" and "has_bucket b bucket db" and "bucket_get b bucket key db = None"
    and "map_of (Db i) key = None"
  shows "InMemoryTaskStore_Delete key i
           = Inl (GoError (''task with key '' @ key @ '' does not exist''))
     \<and> (\<exists>db'. TaskStore_Delete b bucket key db = Returns (Inr db')
          \<and> (\<forall>k. bucket_get b bucket k db' = bucket_get b bucket k db))"
proof -
  obtain db' where "bucket_delete b bucket key db = Inr db'"
    and "\<forall>n'. has_bucket b n' db' = has_bucket b n' db"
    and "\<forall>n' k'. bucket_get b n' k' db' =
            (if n' = bucket \<and> k' = key then None else bucket_get b n' k' db)"
    by (rule bucket_delete_ok [OF assms(1,2)])
  with assms show ?thesis
    by (simp add: InMemoryTaskStore_Delete_def TaskStore_Delete_def bolt_Update_def)
qed

lemma delete_missing_key_differs_witness:
  "InMemoryTaskStore_Delete ''k'' NewInMemoryTaskStore
     = Inl (GoError ''task with key k does not exist'')
   \<and> (\<exists>db'. TaskStore_Delete map_bolt ''tasks'' ''k'' [(''tasks'', [])] = Returns (Inr db'))"
  using delete_missing_key_differs
    [OF map_bolt_documented, of "''tasks''" "[(''tasks'', [])]" "''k''" NewInMemoryTaskStore]
  by (auto simp: map_bolt_def NewInMemoryTaskStore_def)

text \<open>Counting a persistent task store opened on a fresh database under a bucket of its own
  panics: its Count looks for the bucket named tasks, whereas the event store's Count looks for
  the bucket the store was opened with.\<close>

theorem TaskStore_Count_panics:
  assumes "bolt_documented b" and "\<not> has_bucket b ''tasks'' db0" and "bucket \<noteq> ''tasks''"
    and "NewTaskStore b (Inr db0) path bucket = Returns (Inr db)" and "has_bucket b bucket db"
  shows "TaskStore_Count b db = Panics NilDereference
    \<and> EventStore_Count b bucket db = Returns (Inr (length (bucket_entries b bucket db)))"
proof -
  have "\<not> has_bucket b ''tasks'' db"
  proof (cases "create_bucket b bucket db0")
    case (Inl e)
    with assms show ?thesis
      by (simp add: NewTaskStore_def TaskStore_CreateBucket_def bolt_Update_def)
  next
    case (Inr db1)
    moreover have "has_bucket b ''tasks'' db1 \<longleftrightarrow> ''tasks'' = bucket \<or> has_bucket b ''tasks'' db0"
      using assms(1) Inr unfolding bolt_documented_def bolt_create_documented_def by blast
    ultimately show ?thesis
      using assms by (simp add: NewTaskStore_def TaskStore_CreateBucket_def bolt_Update_def)
  qed
  with assms show ?thesis
    by (simp add: TaskStore_Count_def EventStore_Count_def bolt_View_def)
qed

lemma TaskStore_Count_panics_witness:
  "TaskStore_Count map_bolt [(''jobs'', [])] = Panics NilDereference
   \<and> EventStore_Count map_bolt ''jobs'' [(''jobs'', [])] = Returns (Inr 0)"
  using TaskStore_Count_panics
      [OF map_bolt_documented, where ?db0.0 = "[]" and path = "''jobs.db''" and bucket = "''jobs''"
        and db = "[(''jobs'', [])]"]
  by (simp add: NewTaskStore_def TaskStore_CreateBucket_def bolt_Update_def map_bolt_def)

text \<open>C26: Listing the persistent store returns no error when an entry cannot be decoded: it
  returns the tasks of the entries before the first such entry, and only those.\<close>

theorem persistent_list_truncates:
  assumes "bolt_documented b" and "has_bucket b bucket db"
    and "bucket_entries b bucket db = good @ (key, bad) # rest"
    and "\<forall>(k, v) \<in> set good. \<exists>t. Unmarshal j v = Inr t" and "Unmarshal j bad = Inl e"
  shows "\<exists>ts. TaskStore_List b j bucket mem db
       = Returns (Inr ([length mem..<length mem + length good], mem @ ts))
     \<and> length ts = length good \<and> map Inr ts = map (Unmarshal j \<circ> snd) good"
proof -
  have "decode_prefix j (good @ (key, bad) # rest) = decode_prefix j good
      \<and> map Inr (decode_prefix j good) = map (Unmarshal j \<circ> snd) good
      \<and> length (decode_prefix j good) = length good"
    using assms(4,5) by (induction good) auto
  with assms show ?thesis
    by (intro exI [of _ "decode_prefix j good"])
      (simp add: TaskStore_List_def bolt_View_def Let_def)
qed

lemma persistent_list_truncates_witness:
  "let t = NewTask 0 1 ''job'' ''alpine'' in
   \<exists>ts. TaskStore_List map_bolt (state_json t) ''tasks'' []
         [(''tasks'', [(''a'', ''Pending''), (''b'', ''?''), (''c'', ''Pending'')])]
     = Returns (Inr ([0], ts))"
proof -
  let ?t = "NewTask 0 1 ''job'' ''alpine''"
  have "\<exists>ts. TaskStore_List map_bolt (state_json ?t) ''tasks'' []
         [(''tasks'', [(''a'', ''Pending''), (''b'', ''?''), (''c'', ''Pending'')])]
       = Returns (Inr ([length ([] :: Task list)..<
           length ([] :: Task list) + length [(''a'', ''Pending'')]], [] @ ts))
     \<and> length ts = length [(''a'', ''Pending'')]
     \<and> map Inr ts = map (Unmarshal (state_json ?t) \<circ> snd) [(''a'', ''Pending'')]"
    by (rule persistent_list_truncates
        [OF map_bolt_documented, where key = "''b''" and bad = "''?''"
            and rest = "[(''c'', ''Pending'')]" and e = "GoError ''syntax error''"])
      (simp_all add: map_bolt_def state_json_def)
  then show ?thesis by (auto simp: Let_def)
qed

end
