(* ===== verification/Go_Text.thy ===== *)
theory Go_Text
  imports Prelude "HOL-Library.Sublist"
begin

text \<open>
  The text functions of Go's standard library that the source calls: prefixes and suffixes,
  splitting at a character, decimal printing and parsing (\<open>strconv.ParseInt\<close> in base 10 with
  64 bits), and \<open>net.SplitHostPort\<close>. Strings are lists of bytes.

  \<open>strconv\<close> errors quote their input; the quoting is the parameter \<open>quote\<close>.
\<close>

section \<open>Prefixes, suffixes, pieces\<close>

definition HasPrefix :: "string \<Rightarrow> string \<Rightarrow> bool" where
  "HasPrefix s p \<longleftrightarrow> take (length p) s = p"

definition TrimPrefix :: "string \<Rightarrow> string \<Rightarrow> string" where
  "TrimPrefix s p = (if HasPrefix s p then drop (length p) s else s)"

definition HasSuffix :: "string \<Rightarrow> string \<Rightarrow> bool" where
  "HasSuffix s p \<longleftrightarrow> length p \<le> length s \<and> drop (length s - length p) s = p"

definition TrimSuffix :: "string \<Rightarrow> string \<Rightarrow> string" where
  "TrimSuffix s p = (if HasSuffix s p then take (length s - length p) s else s)"

text \<open>\<open>strings.Split(s, sep)[0]\<close> for a separator of one byte.\<close>

definition first_piece :: "char \<Rightarrow> string \<Rightarrow> string" where
  "first_piece sep s = takeWhile (\<lambda>c. c \<noteq> sep) s"

fun split_at :: "char \<Rightarrow> string \<Rightarrow> string list" where
  "split_at sep [] = [[]]"
| "split_at sep (c # s) =
     (if c = sep then [] # split_at sep s
      else (case split_at sep s of p # ps \<Rightarrow> (c # p) # ps | [] \<Rightarrow> [[c]]))"

lemma HasPrefix_append [simp]: "HasPrefix (p @ s) p"
  by (simp add: HasPrefix_def)

lemma HasPrefix_iff: "HasPrefix s p \<longleftrightarrow> (\<exists>r. s = p @ r)"
  by (auto simp: HasPrefix_def) (metis append_take_drop_id)

lemma TrimPrefix_append [simp]: "TrimPrefix (p @ s) p = s"
  by (simp add: TrimPrefix_def)

lemma HasSuffix_append [simp]: "HasSuffix (s @ p) p"
  by (simp add: HasSuffix_def)

lemma TrimSuffix_append [simp]: "TrimSuffix (s @ p) p = s"
  by (simp add: TrimSuffix_def)

text \<open>White space at both ends, ASCII: \<open>strings.TrimSpace\<close> on the output of a command.\<close>

definition is_space :: "char \<Rightarrow> bool" where
  "is_space c \<longleftrightarrow> of_char c \<in> {9, 10, 11, 12, 13, 32 :: nat}"

definition TrimSpace :: "string \<Rightarrow> string" where
  "TrimSpace s = rev (dropWhile is_space (rev (dropWhile is_space s)))"

section \<open>Decimal numbers\<close>

definition digit :: "nat \<Rightarrow> char" where
  "digit d = char_of (48 + d)"

fun show_nat :: "nat \<Rightarrow> string" where
  "show_nat n = (if n < 10 then [digit n] else show_nat (n div 10) @ [digit (n mod 10)])"

declare show_nat.simps [simp del]

definition show_int :: "int \<Rightarrow> string" where
  "show_int i = (if i < 0 then ''-'' @ show_nat (nat (- i)) else show_nat (nat i))"

definition is_digit :: "char \<Rightarrow> bool" where
  "is_digit c \<longleftrightarrow> 48 \<le> (of_char c :: nat) \<and> (of_char c :: nat) \<le> 57"

definition digit_val :: "char \<Rightarrow> nat" where
  "digit_val c = of_char c - 48"

definition digits_val :: "string \<Rightarrow> nat" where
  "digits_val s = foldl (\<lambda>n c. 10 * n + digit_val c) 0 s"

lemma digit_numerals:
  "digit 0 = CHR ''0''" "digit (Suc 0) = CHR ''1''" "digit 1 = CHR ''1''" "digit 2 = CHR ''2''"
  "digit 3 = CHR ''3''" "digit 4 = CHR ''4''" "digit 5 = CHR ''5''" "digit 6 = CHR ''6''"
  "digit 7 = CHR ''7''" "digit 8 = CHR ''8''" "digit 9 = CHR ''9''"
  by (simp_all add: digit_def char_of_def bit_0)

lemma of_char_digit: "d < 10 \<Longrightarrow> (of_char (digit d) :: nat) = 48 + d"
  by (simp add: digit_def)

lemma is_digit_digit: "d < 10 \<Longrightarrow> is_digit (digit d)"
  by (simp add: is_digit_def of_char_digit)

lemma digit_val_digit: "d < 10 \<Longrightarrow> digit_val (digit d) = d"
  by (simp add: digit_val_def of_char_digit)

lemma show_nat_digits: "\<forall>c \<in> set (show_nat n). is_digit c"
  by (induction n rule: show_nat.induct)
    (subst show_nat.simps, auto simp: is_digit_digit)

lemma show_nat_not_Nil: "show_nat n \<noteq> []"
  by (subst show_nat.simps) simp

lemma digits_val_snoc: "digits_val (s @ [c]) = 10 * digits_val s + digit_val c"
  by (simp add: digits_val_def)

lemma digits_val_show_nat: "digits_val (show_nat n) = n"
proof (induction n rule: show_nat.induct)
  case (1 n)
  show ?case
  proof (cases "n < 10")
    case True
    then show ?thesis
      by (subst show_nat.simps) (simp add: digits_val_def digit_val_digit)
  next
    case False
    with 1 show ?thesis
      by (subst show_nat.simps) (simp add: digits_val_snoc digit_val_digit)
  qed
qed

section \<open>\<open>strconv.ParseInt\<close>\<close>

definition syntax_error :: "(string \<Rightarrow> string) \<Rightarrow> string \<Rightarrow> go_error" where
  "syntax_error quote s = GoError (''strconv.ParseInt: parsing '' @ quote s @ '': invalid syntax'')"

definition range_error :: "(string \<Rightarrow> string) \<Rightarrow> string \<Rightarrow> go_error" where
  "range_error quote s = GoError (''strconv.ParseInt: parsing '' @ quote s @ '': value out of range'')"

text \<open>An optional sign, then one or more digits, in the range of 64-bit integers.\<close>

definition ParseInt :: "(string \<Rightarrow> string) \<Rightarrow> string \<Rightarrow> int res" where
  "ParseInt quote s =
     (let neg = HasPrefix s ''-'';
          ds = (if neg \<or> HasPrefix s ''+'' then tl s else s)
      in if ds = '''' \<or> \<not> list_all is_digit ds then Inl (syntax_error quote s)
         else (let un = int (digits_val ds) in
               if \<not> neg \<and> un \<ge> 2 ^ 63 \<or> neg \<and> un > 2 ^ 63 then Inl (range_error quote s)
               else Inr (if neg then - un else un)))"

lemma ParseInt_range: "ParseInt quote s = Inr i \<Longrightarrow> - (2 ^ 63) \<le> i \<and> i < 2 ^ 63"
  by (auto simp: ParseInt_def Let_def split: if_splits)

lemma show_nat_no_sign:
  assumes "\<not> is_digit c"
  shows "\<not> HasPrefix (show_nat n @ s) [c]"
proof -
  have "hd (show_nat n) \<in> set (show_nat n)"
    by (simp add: show_nat_not_Nil)
  with show_nat_digits [of n] assms have "hd (show_nat n) \<noteq> c"
    by blast
  then show ?thesis
    using show_nat_not_Nil [of n] by (cases "show_nat n") (auto simp: HasPrefix_def)
qed

lemma not_digit [simp]: "\<not> is_digit (CHR ''-'')" "\<not> is_digit (CHR ''+'')"
  "\<not> is_digit (CHR ''.'')" "\<not> is_digit (CHR '':'')" "\<not> is_digit (CHR ''['')"
  "\<not> is_digit (CHR '']'')" "\<not> is_digit (CHR ''/'')"
  by (simp_all add: is_digit_def)

lemma not_in_show_nat: "\<not> is_digit c \<Longrightarrow> c \<notin> set (show_nat n)"
  using show_nat_digits [of n] by blast

lemma ParseInt_show_nat: "int n < 2 ^ 63 \<Longrightarrow> ParseInt quote (show_nat n) = Inr (int n)"
  using show_nat_no_sign [of "CHR ''-''" n "[]"] show_nat_no_sign [of "CHR ''+''" n "[]"]
    show_nat_digits [of n] show_nat_not_Nil [of n]
  by (simp add: ParseInt_def digits_val_show_nat list_all_iff)

lemma ParseInt_too_big: "2 ^ 63 \<le> int n \<Longrightarrow> ParseInt quote (show_nat n) = Inl (range_error quote (show_nat n))"
  using show_nat_no_sign [of "CHR ''-''" n "[]"] show_nat_no_sign [of "CHR ''+''" n "[]"]
    show_nat_digits [of n] show_nat_not_Nil [of n]
  by (simp add: ParseInt_def digits_val_show_nat list_all_iff)

section \<open>\<open>net.SplitHostPort\<close>\<close>

fun index_of :: "char \<Rightarrow> string \<Rightarrow> nat option" where
  "index_of c [] = None"
| "index_of c (x # s) = (if x = c then Some 0 else map_option Suc (index_of c s))"

definition last_index_of :: "char \<Rightarrow> string \<Rightarrow> nat option" where
  "last_index_of c s = map_option (\<lambda>i. length s - Suc i) (index_of c (rev s))"

definition addr_error :: "string \<Rightarrow> string \<Rightarrow> go_error" where
  "addr_error a why = GoError (''address '' @ a @ '': '' @ why)"

text \<open>The checks for brackets outside their places, from positions \<open>j\<close> and \<open>k\<close> on.\<close>

definition split_host_port_rest :: "string \<Rightarrow> nat \<Rightarrow> nat \<Rightarrow> nat \<Rightarrow> string \<Rightarrow> (string \<times> string) res" where
  "split_host_port_rest hostport i j k host =
     (if index_of (CHR ''['') (drop j hostport) \<noteq> None
        then Inl (addr_error hostport (''unexpected '' @ [CHR 39] @ ''['' @ [CHR 39] @ '' in address''))
      else if index_of (CHR '']'') (drop k hostport) \<noteq> None
        then Inl (addr_error hostport (''unexpected '' @ [CHR 39] @ '']'' @ [CHR 39] @ '' in address''))
      else Inr (host, drop (Suc i) hostport))"

definition SplitHostPort :: "string \<Rightarrow> (string \<times> string) res" where
  "SplitHostPort hostport =
     (case last_index_of (CHR '':'') hostport of
        None \<Rightarrow> Inl (addr_error hostport ''missing port in address'')
      | Some i \<Rightarrow>
          if HasPrefix hostport ''['' then
            (case index_of (CHR '']'') hostport of
               None \<Rightarrow> Inl (addr_error hostport (''missing '' @ [CHR 39] @ '']'' @ [CHR 39] @ '' in address''))
             | Some e \<Rightarrow>
                 if Suc e = length hostport then Inl (addr_error hostport ''missing port in address'')
                 else if Suc e = i then
                   split_host_port_rest hostport i 1 (Suc e) (take (e - 1) (drop 1 hostport))
                 else if hostport ! Suc e = CHR '':''
                   then Inl (addr_error hostport ''too many colons in address'')
                 else Inl (addr_error hostport ''missing port in address''))
          else if index_of (CHR '':'') (take i hostport) \<noteq> None
            then Inl (addr_error hostport ''too many colons in address'')
          else split_host_port_rest hostport i 0 0 (take i hostport))"

lemma index_of_None_iff: "index_of c s = None \<longleftrightarrow> c \<notin> set s"
  by (induction s) auto

lemma index_of_append:
  "c \<notin> set s \<Longrightarrow> index_of c (s @ c # t) = Some (length s)"
  by (induction s) auto

lemma last_index_of_append:
  assumes "c \<notin> set t"
  shows "last_index_of c (s @ c # t) = Some (length s)"
  using index_of_append [of c "rev t" "rev s"] assms by (simp add: last_index_of_def)

text \<open>Splitting undoes joining, for a host and a port without colons and brackets.\<close>

lemma SplitHostPort_join:
  assumes "set host \<inter> {CHR '':'', CHR ''['', CHR '']''} = {}"
    and "set port \<inter> {CHR '':'', CHR ''['', CHR '']''} = {}"
  shows "SplitHostPort (host @ '':'' @ port) = Inr (host, port)"
proof -
  have "\<not> HasPrefix (host @ '':'' @ port) ''[''"
    using assms(1) by (cases host) (auto simp: HasPrefix_def)
  moreover have "last_index_of (CHR '':'') (host @ '':'' @ port) = Some (length host)"
    using assms(2) last_index_of_append [of "CHR '':''" port host] by simp
  ultimately show ?thesis
    using assms by (auto simp: SplitHostPort_def split_host_port_rest_def index_of_None_iff)
qed

end
