(* ===== verification/Sandbox_Docker.thy ===== *)
theory Sandbox_Docker
  imports Go_Text Sandbox_Config Task_Model
begin

text \<open>
  The Docker sandbox service, \<open>internal/adapters/sandbox/docker_sandbox.go\<close>.

  The Docker client is a third-party package: the results of the calls the source makes are the
  fields of \<open>docker_api\<close>, and an operation also returns the calls it made, in order. The value
  drawn by \<open>rand.Intn\<close> and the order in which a map is ranged over are arguments.
\<close>

section \<open>The client\<close>

record host_config =
  hc_PortBindings :: "(string \<times> string \<times> string) list"
  hc_Memory :: int64
  hc_CPUCount :: int64

record create_request =
  cc_Hostname :: string
  cc_Image :: string
  cc_HostConfig :: "host_config option"
  cc_Name :: string

record docker_api =
  ContainerCreate :: "create_request \<Rightarrow> string res"
  ContainerStart :: "string \<Rightarrow> go_error option"
  ContainerRemove :: "string \<Rightarrow> bool \<Rightarrow> go_error option"
  ContainerInspect :: "string \<Rightarrow> string list list res"
  ContainerList :: "nat list list res"

datatype docker_call =
    CallCreate create_request
  | CallStart string
  | CallRemove string bool

section \<open>The service\<close>

record DockerContainerSandboxService =
  usedAddresses :: "bool gomap"
  docker_host :: string
  minPort :: int
  maxPort :: int

text \<open>\<open>cli\<close> is what creating the client gives: an error, or the daemon's address.\<close>

definition NewDockerContainerSandboxService ::
  "string res \<Rightarrow> DockerContainerSandboxService res" where
  "NewDockerContainerSandboxService cli =
     (case cli of
        Inl err \<Rightarrow> Inl (GoError (''failed to create Docker client: '' @ message err))
      | Inr h \<Rightarrow> Inr \<lparr>usedAddresses = [], docker_host = h, minPort = 30000, maxPort = 40000\<rparr>)"

text \<open>\<open>drawn\<close> is the value of \<open>rand.Intn(d.maxPort - d.minPort)\<close>.\<close>

definition getAvailableAddress :: "int \<Rightarrow> DockerContainerSandboxService \<Rightarrow> string res" where
  "getAvailableAddress drawn d =
     (let port = drawn + minPort d; h = docker_host d in
      if HasPrefix h ''unix://'' \<or> h = ''''
      then Inr (''http://localhost:'' @ show_int port)
      else (let h = TrimPrefix h ''tcp://''; h = first_piece (CHR '':'') h
            in Inr (''http://'' @ h @ '':'' @ show_int port)))"

definition releaseAddress ::
  "string \<Rightarrow> DockerContainerSandboxService \<Rightarrow> DockerContainerSandboxService" where
  "releaseAddress address d = d\<lparr>usedAddresses := AList.delete address (usedAddresses d)\<rparr>"

text \<open>\<open>dial_error\<close> is the error of dialling the address.\<close>

definition isAddressAvailable :: "(string \<Rightarrow> go_error option) \<Rightarrow> string \<Rightarrow> bool" where
  "isAddressAvailable dial_error address = (dial_error address \<noteq> None)"

section \<open>Resources\<close>

definition parseMemory :: "(string \<Rightarrow> string) \<Rightarrow> string \<Rightarrow> int64 res" where
  "parseMemory quote memory =
     (if memory = '''' then Inl (GoError ''memory configuration is required'')
      else if HasSuffix memory ''GB'' then
        (case ParseInt quote (TrimSuffix memory ''GB'') of
           Inl err \<Rightarrow> Inl (GoError (''invalid memory format: '' @ message err))
         | Inr gb \<Rightarrow> Inr (word_of_int gb * 1024 * 1024 * 1024))
      else if HasSuffix memory ''MB'' then
        (case ParseInt quote (TrimSuffix memory ''MB'') of
           Inl err \<Rightarrow> Inl (GoError (''invalid memory format: '' @ message err))
         | Inr mb \<Rightarrow> Inr (word_of_int mb * 1024 * 1024))
      else Inl (GoError ''unsupported memory unit, use GB or MB''))"

definition parseDockerCPU :: "(string \<Rightarrow> string) \<Rightarrow> string \<Rightarrow> int64 res" where
  "parseDockerCPU quote cpu =
     (case ParseInt quote cpu of
        Inl err \<Rightarrow> Inl (GoError (''failed to parse CPU: '' @ message err))
      | Inr cpuInt \<Rightarrow> Inr (word_of_int cpuInt))"

text \<open>The memory and CPU of a configuration; an empty field is zero.\<close>

definition container_resources ::
  "(string \<Rightarrow> string) \<Rightarrow> ResourceRequests \<Rightarrow> (int64 \<times> int64) res" where
  "container_resources quote r =
     (case (if Memory r \<noteq> '''' then parseMemory quote (Memory r) else Inr 0) of
        Inl err \<Rightarrow> Inl (GoError (''invalid memory configuration: '' @ message err))
      | Inr memory \<Rightarrow>
          (case (if CPU r \<noteq> '''' then parseDockerCPU quote (CPU r) else Inr 0) of
             Inl err \<Rightarrow> Inl (GoError (''invalid CPU configuration: '' @ message err))
           | Inr cpu \<Rightarrow> Inr (memory, cpu)))"

text \<open>The host configuration the source builds, and only prints.\<close>

definition built_host_config ::
  "(string gomap \<Rightarrow> string gomap) \<Rightarrow> config \<Rightarrow> int64 \<Rightarrow> int64 \<Rightarrow> host_config" where
  "built_host_config iter cfg memory cpu =
     \<lparr>hc_PortBindings =
        map (\<lambda>(containerPort, hostPort). (containerPort, ''0.0.0.0'', hostPort))
          (iter (case PortBindings (Network cfg) of None \<Rightarrow> [] | Some m \<Rightarrow> m)),
      hc_Memory = memory, hc_CPUCount = cpu\<rparr>"

section \<open>Creating a sandbox\<close>

text \<open>The configuration, a pointer argument, gets a new network with the one port drawn.\<close>

definition with_port :: "string \<Rightarrow> config \<Rightarrow> config" where
  "with_port port cfg =
     (let containerPort = port @ ''/tcp'' in
      cfg\<lparr>Network :=
        \<lparr>ExposedPorts = add_entry containerPort () (Some []),
         PortBindings = add_entry containerPort port (Some [])\<rparr>\<rparr>)"

definition fresh_network :: "config \<Rightarrow> config" where
  "fresh_network cfg = cfg\<lparr>Network := \<lparr>ExposedPorts = Some [], PortBindings = Some []\<rparr>\<rparr>"

definition start_container ::
  "docker_api \<Rightarrow> config \<Rightarrow> string res \<times> docker_call list" where
  "start_container api cfg =
     (let req = \<lparr>cc_Hostname = SandboxName cfg, cc_Image = Image cfg, cc_HostConfig = None,
                 cc_Name = SandboxName cfg\<rparr> in
      case ContainerCreate api req of
        Inl err \<Rightarrow> (Inl (GoError (''failed to create container: '' @ message err)), [CallCreate req])
      | Inr cid \<Rightarrow>
          (case ContainerStart api cid of
             Some err \<Rightarrow>
               (Inl (GoError (''failed to start container: '' @ message err)),
                [CallCreate req, CallStart cid, CallRemove cid True])
           | None \<Rightarrow> (Inr '''', [CallCreate req, CallStart cid])))"

definition Docker_CreateContainerSandbox ::
  "(string \<Rightarrow> string) \<Rightarrow> docker_api \<Rightarrow> int \<Rightarrow> DockerContainerSandboxService \<Rightarrow> config \<Rightarrow>
   string res \<times> config \<times> docker_call list" where
  "Docker_CreateContainerSandbox quote api drawn d cfg =
     (case getAvailableAddress drawn d of
        Inl err \<Rightarrow> (Inl (GoError (''failed to get available address: '' @ message err)), cfg, [])
      | Inr address \<Rightarrow>
          (let address = TrimPrefix address ''http://'';
               address = TrimPrefix address ''https://'' in
           case SplitHostPort address of
             Inl err \<Rightarrow>
               (Inl (GoError (''invalid address format: '' @ message err)), fresh_network cfg, [])
           | Inr (_, port) \<Rightarrow>
               (let cfg = with_port port cfg in
                if Image cfg = '''' then (Inl (GoError ''image is required''), cfg, [])
                else case container_resources quote (Resources cfg) of
                    Inl err \<Rightarrow> (Inl err, cfg, [])
                  | Inr _ \<Rightarrow> (let (r, calls) = start_container api cfg in (r, cfg, calls)))))"

definition mapToEnvVars ::
  "(string gomap \<Rightarrow> string gomap) \<Rightarrow> string gomap option \<Rightarrow> string list" where
  "mapToEnvVars iter envVars =
     map (\<lambda>(key, v). key @ ''='' @ v) (iter (case envVars of None \<Rightarrow> [] | Some m \<Rightarrow> m))"

section \<open>Deleting and listing\<close>

definition Docker_DeleteContainerSandbox ::
  "docker_api \<Rightarrow> string \<Rightarrow> DockerContainerSandboxService \<Rightarrow>
   go_error option \<times> DockerContainerSandboxService \<times> docker_call list" where
  "Docker_DeleteContainerSandbox api sandboxID d =
     (case ContainerInspect api sandboxID of
        Inl err \<Rightarrow> (Some (GoError (''failed to inspect container: '' @ message err)), d, [])
      | Inr bindings \<Rightarrow>
          (ContainerRemove api sandboxID True,
           fold (\<lambda>hostPort. releaseAddress (docker_host d @ '':'' @ hostPort)) (concat bindings) d,
           [CallRemove sandboxID True]))"

text \<open>\<open>%s\<close> of an unsigned 16-bit number prints as \<open>%!s(uint16=n)\<close>; \<open>Ports[0]\<close> panics without ports.\<close>

definition bad_verb_uint16 :: "nat \<Rightarrow> string" where
  "bad_verb_uint16 n = ''%!s(uint16='' @ show_nat n @ '')''"

fun sandbox_addresses :: "nat list list \<Rightarrow> string list go" where
  "sandbox_addresses [] = Returns []"
| "sandbox_addresses ([] # cs) = Panics IndexOutOfRange"
| "sandbox_addresses ((p # _) # cs) =
     go_bind (sandbox_addresses cs) (\<lambda>as. Returns ((''localhost:'' @ bad_verb_uint16 p) # as))"

definition Docker_ListContainerSandboxes :: "docker_api \<Rightarrow> string list res go" where
  "Docker_ListContainerSandboxes api =
     (case ContainerList api of
        Inl err \<Rightarrow> Returns (Inl err)
      | Inr containers \<Rightarrow> go_bind (sandbox_addresses containers) (\<lambda>as. Returns (Inr as)))"

section \<open>Addresses and ports\<close>

lemma show_int_pos: "0 \<le> i \<Longrightarrow> show_int i = show_nat (nat i)"
  by (simp add: show_int_def)

lemma show_int_clean:
  "0 \<le> i \<Longrightarrow> set (show_int i) \<inter> {CHR '':'', CHR ''['', CHR '']''} = {}"
  by (simp add: show_int_pos not_in_show_nat)

text \<open>The host name an address is built from.\<close>

definition service_host :: "DockerContainerSandboxService \<Rightarrow> string" where
  "service_host d =
     (if HasPrefix (docker_host d) ''unix://'' \<or> docker_host d = '''' then ''localhost''
      else first_piece (CHR '':'') (TrimPrefix (docker_host d) ''tcp://''))"

lemma getAvailableAddress_form:
  "getAvailableAddress drawn d =
     Inr (''http://'' @ service_host d @ '':'' @ show_int (drawn + minPort d))"
  by (simp add: getAvailableAddress_def service_host_def Let_def)

lemma service_host_no_colon: "CHR '':'' \<notin> set (service_host d)"
  by (auto simp: service_host_def first_piece_def dest: set_takeWhileD)

lemma no_scheme:
  assumes "CHR '':'' \<notin> set h"
  shows "TrimPrefix (h @ '':'' @ show_int i) ''https://'' = h @ '':'' @ show_int i"
proof -
  have "\<not> HasPrefix (h @ '':'' @ show_int i) ''https://''"
  proof
    assume "HasPrefix (h @ '':'' @ show_int i) ''https://''"
    then obtain r where eq: "h @ '':'' @ show_int i = ''https'' @ '':'' @ ''//'' @ r"
      by (auto simp: HasPrefix_iff)
    then have "dropWhile (\<lambda>c. c \<noteq> CHR '':'') (h @ '':'' @ show_int i) = '':'' @ ''//'' @ r"
      by (simp only: eq) simp
    moreover have "dropWhile (\<lambda>c. c \<noteq> CHR '':'') (h @ '':'' @ show_int i) = '':'' @ show_int i"
      using assms by (subst dropWhile_append2) auto
    ultimately have "show_int i = ''//'' @ r"
      by simp
    then have "CHR ''/'' \<in> set (show_int i)"
      by simp
    moreover have "CHR ''/'' \<notin> set (show_int i)"
      by (simp add: show_int_def not_in_show_nat)
    ultimately show False by blast
  qed
  then show ?thesis by (simp add: TrimPrefix_def)
qed

lemma create_split:
  assumes "set (service_host d) \<inter> {CHR ''['', CHR '']''} = {}" and "0 \<le> drawn + minPort d"
  shows "\<exists>address. getAvailableAddress drawn d = Inr address
    \<and> SplitHostPort (TrimPrefix (TrimPrefix address ''http://'') ''https://'')
      = Inr (service_host d, show_int (drawn + minPort d))"
proof -
  have "SplitHostPort (service_host d @ '':'' @ show_int (drawn + minPort d))
      = Inr (service_host d, show_int (drawn + minPort d))"
    using assms service_host_no_colon [of d] show_int_clean [OF assms(2)]
    by (intro SplitHostPort_join) auto
  then show ?thesis
    using no_scheme [OF service_host_no_colon [of d], of "drawn + minPort d"]
    by (simp only: getAvailableAddress_form TrimPrefix_append sum.inject ex_simps simp_thms)
qed

lemma create_with_port:
  assumes "set (service_host d) \<inter> {CHR ''['', CHR '']''} = {}" and "0 \<le> drawn + minPort d"
  shows "Docker_CreateContainerSandbox quote api drawn d cfg =
     (let cfg = with_port (show_int (drawn + minPort d)) cfg in
      if Image cfg = '''' then (Inl (GoError ''image is required''), cfg, [])
      else case container_resources quote (Resources cfg) of
          Inl err \<Rightarrow> (Inl err, cfg, [])
        | Inr _ \<Rightarrow> (let (r, calls) = start_container api cfg in (r, cfg, calls)))"
  using create_split [OF assms] by (auto simp: Docker_CreateContainerSandbox_def Let_def)

text \<open>A daemon for the witnesses, on which everything succeeds.\<close>

definition ok_docker :: docker_api where
  "ok_docker =
     \<lparr>ContainerCreate = (\<lambda>_. Inr ''c0ffee''), ContainerStart = (\<lambda>_. None),
      ContainerRemove = (\<lambda>_ _. None), ContainerInspect = (\<lambda>_. Inr []), ContainerList = Inr []\<rparr>"

text \<open>C27: For a service on a local or TCP daemon, creating a sandbox puts exactly one port into its configuration,
  30000 plus the number drawn (so between 30000 and 39999), written into an address and read back out of it, and leaves
  the rest of the configuration untouched; it does so whatever comes of the creation. A missing image and
  resources that do not parse are errors before the daemon is asked. Then one container is requested, with the
  name and image of the configuration and no host configuration, so that neither the port nor the resources reach
  the daemon; one that does not start is removed, and one that does is reported under the empty identifier.\<close>

theorem created_sandbox_port:
  assumes "NewDockerContainerSandboxService (Inr h) = Inr d"
    and "set (service_host d) \<inter> {CHR ''['', CHR '']''} = {}"
    and "0 \<le> drawn" and "drawn < 10000"
  shows "let p = nat (drawn + 30000);
      cfg' = cfg\<lparr>Network := \<lparr>ExposedPorts = Some [(show_nat p @ ''/tcp'', ())],
                              PortBindings = Some [(show_nat p @ ''/tcp'', show_nat p)]\<rparr>\<rparr>;
      req = \<lparr>cc_Hostname = SandboxName cfg, cc_Image = Image cfg, cc_HostConfig = None,
             cc_Name = SandboxName cfg\<rparr> in
    30000 \<le> p \<and> p < 40000
    \<and> Docker_CreateContainerSandbox quote api drawn d cfg =
       (if Image cfg = '''' then (Inl (GoError ''image is required''), cfg', [])
        else case container_resources quote (Resources cfg) of
            Inl err \<Rightarrow> (Inl err, cfg', [])
          | Inr _ \<Rightarrow>
              (case ContainerCreate api req of
                 Inl err \<Rightarrow> (Inl (GoError (''failed to create container: '' @ message err)), cfg', [CallCreate req])
               | Inr cid \<Rightarrow>
                   (case ContainerStart api cid of
                      Some err \<Rightarrow> (Inl (GoError (''failed to start container: '' @ message err)), cfg',
                        [CallCreate req, CallStart cid, CallRemove cid True])
                    | None \<Rightarrow> (Inr '''', cfg', [CallCreate req, CallStart cid]))))"
proof -
  have d: "minPort d = 30000"
    using assms(1) by (auto simp: NewDockerContainerSandboxService_def)
  let ?p = "nat (drawn + 30000)"
  have port: "show_int (drawn + minPort d) = show_nat ?p"
    using assms(3) by (simp add: d show_int_pos)
  have "0 \<le> drawn + minPort d"
    using assms(3) by (simp add: d)
  from create_with_port [OF assms(2) this, of quote api cfg] have
    "Docker_CreateContainerSandbox quote api drawn d cfg =
       (let cfg = with_port (show_nat ?p) cfg in
        if Image cfg = '''' then (Inl (GoError ''image is required''), cfg, [])
        else case container_resources quote (Resources cfg) of
            Inl err \<Rightarrow> (Inl err, cfg, [])
          | Inr _ \<Rightarrow> (let (r, calls) = start_container api cfg in (r, cfg, calls)))"
    unfolding port .
  moreover have "30000 \<le> ?p" and "?p < 40000"
    using assms(3,4) by linarith+
  ultimately show ?thesis
    by (simp add: with_port_def add_entry_def start_container_def Let_def del: show_nat.simps split: sum.split option.split)
qed

lemma created_sandbox_port_witness:
  "\<exists>d calls. NewDockerContainerSandboxService (Inr ''tcp://10.0.0.7:2375'') = Inr d
     \<and> Docker_CreateContainerSandbox (\<lambda>s. s) ok_docker 123 d (empty_config\<lparr>Image := ''alpine''\<rparr>) = (Inr '''',
        empty_config\<lparr>Image := ''alpine'', Network := \<lparr>ExposedPorts = Some [(show_nat 30123 @ ''/tcp'', ())],
          PortBindings = Some [(show_nat 30123 @ ''/tcp'', show_nat 30123)]\<rparr>\<rparr>, calls)"
proof -
  obtain d where d: "NewDockerContainerSandboxService (Inr ''tcp://10.0.0.7:2375'') = Inr d"
    by (simp add: NewDockerContainerSandboxService_def)
  then have "service_host d = ''10.0.0.7''"
    by (auto simp: NewDockerContainerSandboxService_def service_host_def first_piece_def
        HasPrefix_def TrimPrefix_def)
  then show ?thesis
    using created_sandbox_port [OF d, of 123 "empty_config\<lparr>Image := ''alpine''\<rparr>" "\<lambda>s. s" ok_docker] d
    by (simp add: Let_def empty_config_def ok_docker_def container_resources_def zero_resources_def
        del: show_nat.simps)
qed

lemma Docker_create_facts:
  assumes "Docker_CreateContainerSandbox quote api drawn d cfg = (r, cfg', calls)"
  shows "(\<forall>cid. r = Inr cid \<longrightarrow> cid = '''')
    \<and> (\<forall>req. CallCreate req \<in> set calls \<longrightarrow> cc_HostConfig req = None)"
proof -
  have "(\<forall>cid. r = Inr cid \<longrightarrow> cid = '''')
      \<and> (\<forall>req. CallCreate req \<in> set calls \<longrightarrow> cc_HostConfig req = None)"
    if "start_container api c = (r, calls)" for c
    using that by (auto simp: start_container_def Let_def split: sum.splits option.splits)
  then show ?thesis
    using assms
    by (auto simp: Docker_CreateContainerSandbox_def Let_def
        split: sum.splits prod.splits if_splits)
qed

text \<open>Whatever the Docker daemon answers, a sandbox that is created successfully is
  reported under the empty identifier, and no request carries the host configuration with the
  ports and resources that were asked for.\<close>

theorem created_sandbox_has_no_id:
  assumes "Docker_CreateContainerSandbox quote api drawn d cfg = (r, cfg', calls)"
  shows "(\<forall>cid. r = Inr cid \<longrightarrow> cid = '''')
    \<and> (\<forall>req. CallCreate req \<in> set calls \<longrightarrow> cc_HostConfig req = None)"
  by (rule Docker_create_facts [OF assms])

lemma created_sandbox_has_no_id_witness:
  "let d = \<lparr>usedAddresses = [], docker_host = '''', minPort = 30000, maxPort = 40000\<rparr>;
       cfg = empty_config\<lparr>Image := ''alpine''\<rparr>;
       (r, cfg', calls) = Docker_CreateContainerSandbox (\<lambda>s. s) ok_docker 5 d cfg in
   r = Inr '''' \<and> calls \<noteq> []"
proof -
  let ?d = "\<lparr>usedAddresses = [], docker_host = '''', minPort = 30000, maxPort = 40000\<rparr>"
  let ?cfg = "empty_config\<lparr>Image := ''alpine''\<rparr>"
  obtain r cfg' calls where
    run: "Docker_CreateContainerSandbox (\<lambda>s. s) ok_docker 5 ?d ?cfg = (r, cfg', calls)"
    by (metis prod_cases3)
  have "\<exists>cid. r = Inr cid" and "calls \<noteq> []"
    using run
    by (auto simp: create_with_port service_host_def Let_def container_resources_def
        with_port_def start_container_def ok_docker_def empty_config_def zero_resources_def)
  with created_sandbox_has_no_id [OF run] show ?thesis
    by (auto simp: run)
qed

section \<open>Memory and CPU\<close>

lemma suffix_GB: "\<not> HasSuffix (s @ ''MB'') ''GB''"
  by (simp add: HasSuffix_def)

lemma parseMemory_GB:
  "int n < 2 ^ 63 \<Longrightarrow> parseMemory quote (show_nat n @ ''GB'') = Inr (word_of_int (int n * 2 ^ 30))"
  by (simp add: parseMemory_def ParseInt_show_nat)

lemma parseMemory_MB:
  "int n < 2 ^ 63 \<Longrightarrow> parseMemory quote (show_nat n @ ''MB'') = Inr (word_of_int (int n * 2 ^ 20))"
  by (simp add: parseMemory_def ParseInt_show_nat suffix_GB)

lemma sint_scaled:
  "int n * 2 ^ k < 2 ^ 63 \<Longrightarrow> sint (word_of_int (int n * 2 ^ k) :: int64) = int n * 2 ^ k"
  by (rule sint_in_range) (simp_all add: order_trans [of _ 0])

text \<open>A memory size written in decimal as a number of GB or MB is read as that many bytes
  as long as they fit a signed 64-bit integer; the first number of GB that does not fit,
  8589934592, is accepted all the same and read as a negative size.\<close>

theorem parseMemory_bytes:
  "(n < 2 ^ 33 \<longrightarrow> (\<exists>w. parseMemory quote (show_nat n @ ''GB'') = Inr w \<and> sint w = int n * 2 ^ 30))
   \<and> (n < 2 ^ 43 \<longrightarrow> (\<exists>w. parseMemory quote (show_nat n @ ''MB'') = Inr w \<and> sint w = int n * 2 ^ 20))
   \<and> (\<exists>w. parseMemory quote (show_nat 8589934592 @ ''GB'') = Inr w \<and> sint w = - (2 ^ 63))"
proof (intro conjI impI)
  assume n: "n < 2 ^ 33"
  then have "int n < 2 ^ 33" by simp
  then have "int n < 2 ^ 63" and "int n * 2 ^ 30 < 2 ^ 63" by simp_all
  then show "\<exists>w. parseMemory quote (show_nat n @ ''GB'') = Inr w \<and> sint w = int n * 2 ^ 30"
    by (simp only: parseMemory_GB sint_scaled sum.inject ex_simps simp_thms)
next
  assume n: "n < 2 ^ 43"
  then have "int n < 2 ^ 43" by simp
  then have "int n < 2 ^ 63" and "int n * 2 ^ 20 < 2 ^ 63" by simp_all
  then show "\<exists>w. parseMemory quote (show_nat n @ ''MB'') = Inr w \<and> sint w = int n * 2 ^ 20"
    by (simp only: parseMemory_MB sint_scaled sum.inject ex_simps simp_thms)
next
  have "parseMemory quote (show_nat 8589934592 @ ''GB'')
      = Inr (word_of_int (int 8589934592 * 2 ^ 30))"
    by (rule parseMemory_GB) simp
  moreover have "sint (word_of_int (int 8589934592 * 2 ^ 30) :: int64) = - (2 ^ 63)"
    by simp
  ultimately show "\<exists>w. parseMemory quote (show_nat 8589934592 @ ''GB'') = Inr w \<and> sint w = - (2 ^ 63)"
    by blast
qed

lemma parseMemory_bytes_witness:
  "\<exists>w. parseMemory quote (show_nat 4 @ ''GB'') = Inr w \<and> sint w = 4294967296"
  using parseMemory_bytes [of 4 quote] by simp

lemma parse_default_cpu: "\<exists>e. parseDockerCPU quote ''0.1'' = Inl e"
  by (simp add: parseDockerCPU_def ParseInt_def HasPrefix_def Let_def)

text \<open>The resources a new task asks for by default cannot be read: for a task made by
  NewTask, with any image, no container is created and the error is about the CPU.\<close>

theorem default_task_has_no_sandbox:
  assumes "img \<noteq> ''''" and "set (service_host d) \<inter> {CHR ''['', CHR '']''} = {}"
    and "0 \<le> drawn + minPort d"
  shows "\<exists>e cfg'. Docker_CreateContainerSandbox quote api drawn d
      (SpecConfig (Spec (NewTask now new_id name img)))
    = (Inl (GoError (''invalid CPU configuration: failed to parse CPU: '' @ e)), cfg', [])"
proof -
  let ?cfg = "SpecConfig (Spec (NewTask now new_id name img))"
  have "parseMemory quote ''256MB'' = Inr (word_of_int (int 256 * 2 ^ 20))"
    using parseMemory_MB [of 256 quote] by (simp add: show_nat.simps digit_numerals)
  then have "\<exists>e. container_resources quote (Resources ?cfg)
      = Inl (GoError (''invalid CPU configuration: failed to parse CPU: '' @ e))"
    by (simp add: NewTask_def container_resources_def parseDockerCPU_def ParseInt_def
        HasPrefix_def Let_def)
  with assms(1) show ?thesis
    unfolding create_with_port [OF assms(2,3)]
    by (auto simp: with_port_def NewTask_def Let_def)
qed

lemma default_task_has_no_sandbox_witness:
  "\<exists>e cfg'. Docker_CreateContainerSandbox (\<lambda>s. s) ok_docker 5
      \<lparr>usedAddresses = [], docker_host = ''unix:///var/run/docker.sock'',
       minPort = 30000, maxPort = 40000\<rparr>
      (SpecConfig (Spec (NewTask 0 1 ''job'' ''alpine'')))
    = (Inl (GoError (''invalid CPU configuration: failed to parse CPU: '' @ e)), cfg', [])"
  by (rule default_task_has_no_sandbox) (simp_all add: service_host_def HasPrefix_def)

section \<open>Addresses in use, listing\<close>

text \<open>The record of addresses in use of a Docker service stays empty whatever sandboxes
  are deleted, since creating one never enters its address: two sandboxes for which the same
  number is drawn are given the same port.\<close>

theorem addresses_are_never_reserved:
  assumes "NewDockerContainerSandboxService (Inr h) = Inr d"
    and "(e, d', calls) = Docker_DeleteContainerSandbox api sandboxID d"
  shows "usedAddresses d' = [] \<and> getAvailableAddress drawn d' = getAvailableAddress drawn d"
proof -
  have "usedAddresses (fold f hs d) = [] \<and> docker_host (fold f hs d) = docker_host d
      \<and> minPort (fold f hs d) = minPort d"
    if "usedAddresses d = []" and "f = (\<lambda>hp. releaseAddress (a hp))"
    for f :: "string \<Rightarrow> DockerContainerSandboxService \<Rightarrow> DockerContainerSandboxService" and hs a d
    using that by (induction hs arbitrary: d) (auto simp: releaseAddress_def)
  moreover have "usedAddresses d = []"
    using assms(1) by (auto simp: NewDockerContainerSandboxService_def)
  ultimately show ?thesis
    using assms(2)
    by (auto simp: Docker_DeleteContainerSandbox_def getAvailableAddress_def
        split: sum.splits)
qed

lemma addresses_are_never_reserved_witness:
  "\<exists>d d'. NewDockerContainerSandboxService (Inr '''') = Inr d
     \<and> d' = fst (snd (Docker_DeleteContainerSandbox
                 (ok_docker\<lparr>ContainerInspect := \<lambda>_. Inr [[''30007'']]\<rparr>) ''c0ffee'' d))
     \<and> usedAddresses d' = []"
proof -
  obtain d where d: "NewDockerContainerSandboxService (Inr '''') = Inr d"
    by (simp add: NewDockerContainerSandboxService_def)
  obtain e d' calls where del: "(e, d', calls) = Docker_DeleteContainerSandbox
      (ok_docker\<lparr>ContainerInspect := \<lambda>_. Inr [[''30007'']]\<rparr>) ''c0ffee'' d"
    by (metis prod_cases3)
  show ?thesis
    using addresses_are_never_reserved [OF d del] d del by (metis fst_conv snd_conv)
qed

text \<open>Listing the Docker sandboxes panics exactly when some container publishes no port;
  otherwise it gives one text per container, none of which is an address, because the port
  is printed with a verb for strings.\<close>

theorem listed_addresses_are_malformed:
  assumes "ContainerList api = Inr cs"
  shows "(Docker_ListContainerSandboxes api = Panics IndexOutOfRange \<longleftrightarrow> [] \<in> set cs)
    \<and> ([] \<notin> set cs \<longrightarrow> Docker_ListContainerSandboxes api
         = Returns (Inr (map (\<lambda>ps. ''localhost:%!s(uint16='' @ show_nat (hd ps) @ '')'') cs)))"
proof -
  have "(sandbox_addresses cs = Panics IndexOutOfRange \<longleftrightarrow> [] \<in> set cs)
      \<and> ([] \<notin> set cs \<longrightarrow> sandbox_addresses cs
           = Returns (map (\<lambda>ps. ''localhost:%!s(uint16='' @ show_nat (hd ps) @ '')'') cs))"
  proof (induction cs rule: sandbox_addresses.induct)
    case (3 p ps cs)
    then show ?case
      by (cases "sandbox_addresses cs") (auto simp: bad_verb_uint16_def)
  qed simp_all
  then show ?thesis
    using assms by (cases "sandbox_addresses cs") (auto simp: Docker_ListContainerSandboxes_def)
qed

lemma listed_addresses_are_malformed_witness:
  "Docker_ListContainerSandboxes (ok_docker\<lparr>ContainerList := Inr [[30001]]\<rparr>)
     = Returns (Inr [''localhost:%!s(uint16=30001)''])"
  using listed_addresses_are_malformed [of "ok_docker\<lparr>ContainerList := Inr [[30001]]\<rparr>" "[[30001]]"]
  by (simp add: show_nat.simps digit_numerals)

end
