(* ===== verification/Sandbox_Factory.thy ===== *)
theory Sandbox_Factory
  imports Sandbox_Docker
begin

text \<open>
  The Kubernetes and Hyper-V sandbox services (\<open>kubernetes_sandbox.go\<close>, \<open>hyperv.go\<close>) and the
  factory that chooses a service (\<open>factory.go\<close>), all of \<open>internal/adapters/sandbox\<close>.

  The Kubernetes client library, its quantities and the PowerShell processes are outside the
  repository: their results are parameters, and the requests and command lines the code issues
  are values the operations return.
\<close>

section \<open>Kubernetes\<close>

record KubernetesConfig =
  K8sNamespace :: string
  Proxy :: string
  SkipSSL :: bool

record KubernetesContainerSandboxService =
  namespace :: string
  client_proxy :: "string option"
  client_insecure :: bool

record kube_env =
  in_cluster_error :: "go_error option"
  url_error :: "string \<Rightarrow> go_error option"
  clientset_error :: "go_error option"

definition NewKubernetesContainerSandboxService ::
  "kube_env \<Rightarrow> KubernetesConfig \<Rightarrow> KubernetesContainerSandboxService res" where
  "NewKubernetesContainerSandboxService env cfg =
     (case in_cluster_error env of
        Some err \<Rightarrow> Inl (GoError (''failed to create in-cluster config: '' @ message err))
      | None \<Rightarrow>
          (case (if Proxy cfg \<noteq> '''' then url_error env (Proxy cfg) else None) of
             Some err \<Rightarrow> Inl (GoError (''invalid proxy URL: '' @ message err))
           | None \<Rightarrow>
               (case clientset_error env of
                  Some err \<Rightarrow> Inl (GoError (''failed to create Kubernetes client: '' @ message err))
                | None \<Rightarrow>
                    Inr \<lparr>namespace = K8sNamespace cfg,
                         client_proxy = (if Proxy cfg \<noteq> '''' then Some (Proxy cfg) else None),
                         client_insecure = SkipSSL cfg\<rparr>)))"

text \<open>The pod the code asks for; \<open>'q\<close> is the type of resource quantities.\<close>

record 'q pod =
  GenerateName :: string
  PodLabels :: "string gomap"
  ContainerName :: string
  PodImage :: string
  PodEnv :: "(string \<times> string) list"
  PodWorkingDir :: string
  ContainerPort :: nat
  MemoryLimit :: 'q
  CPULimit :: 'q
  RestartPolicy :: string

record 'q kube_api =
  MustParse :: "string \<Rightarrow> 'q go"
  NewQuantity :: "int \<Rightarrow> 'q"
  CreatePod :: "string \<Rightarrow> 'q pod \<Rightarrow> string res"
  DeletePod :: "string \<Rightarrow> string \<Rightarrow> go_error option"
  ListPods :: "string \<Rightarrow> string \<Rightarrow> string list res"

definition mapToEnvVarsK8s ::
  "(string gomap \<Rightarrow> string gomap) \<Rightarrow> string gomap option \<Rightarrow> (string \<times> string) list" where
  "mapToEnvVarsK8s iter envVars =
     map (\<lambda>(key, v). (key, v)) (iter (case envVars of None \<Rightarrow> [] | Some m \<Rightarrow> m))"

definition parseMemoryK8s :: "'q kube_api \<Rightarrow> string \<Rightarrow> 'q go" where
  "parseMemoryK8s api memory = MustParse api memory"

definition parseCPU :: "(string \<Rightarrow> string) \<Rightarrow> 'q kube_api \<Rightarrow> string \<Rightarrow> 'q res" where
  "parseCPU quote api cpu =
     (case ParseInt quote cpu of
        Inl err \<Rightarrow> Inl (GoError (''failed to parse CPU: '' @ message err))
      | Inr cpuInt \<Rightarrow> Inr (NewQuantity api cpuInt))"

definition domain_pod ::
  "(string gomap \<Rightarrow> string gomap) \<Rightarrow> config \<Rightarrow> 'q \<Rightarrow> 'q \<Rightarrow> 'q pod" where
  "domain_pod iter cfg memory cpu =
     \<lparr>GenerateName = ''domain-'', PodLabels = [(''app'', ''containerdomain'')],
      ContainerName = ''domain'', PodImage = Image cfg, PodEnv = mapToEnvVarsK8s iter (EnvVars cfg),
      PodWorkingDir = WorkingDir cfg, ContainerPort = 50051, MemoryLimit = memory, CPULimit = cpu,
      RestartPolicy = ''Never''\<rparr>"

text \<open>The result and the pod requested, if the code gets that far.\<close>

definition Kubernetes_CreateContainerSandbox ::
  "(string \<Rightarrow> string) \<Rightarrow> (string gomap \<Rightarrow> string gomap) \<Rightarrow> 'q kube_api \<Rightarrow>
   KubernetesContainerSandboxService \<Rightarrow> config \<Rightarrow> (string res \<times> 'q pod option) go" where
  "Kubernetes_CreateContainerSandbox quote iter api k cfg =
     (case parseCPU quote api (CPU (Resources cfg)) of
        Inl err \<Rightarrow> Returns (Inl (GoError (''failed to parse CPU: '' @ message err)), None)
      | Inr cpuQuantity \<Rightarrow>
          go_bind (parseMemoryK8s api (Memory (Resources cfg))) (\<lambda>memory.
            let pod = domain_pod iter cfg memory cpuQuantity in
            Returns
              (case CreatePod api (namespace k) pod of
                 Inl err \<Rightarrow> (Inl (GoError (''failed to create pod: '' @ message err)), Some pod)
               | Inr podIP \<Rightarrow> (Inr (podIP @ '':50051''), Some pod))))"

definition Kubernetes_DeleteContainerSandbox ::
  "'q kube_api \<Rightarrow> KubernetesContainerSandboxService \<Rightarrow> string \<Rightarrow> go_error option" where
  "Kubernetes_DeleteContainerSandbox api k sandboxID = DeletePod api (namespace k) sandboxID"

definition list_selector :: string where
  "list_selector = ''app=containersandbox''"

definition Kubernetes_ListContainerSandboxes ::
  "'q kube_api \<Rightarrow> KubernetesContainerSandboxService \<Rightarrow> string list res" where
  "Kubernetes_ListContainerSandboxes api k =
     (case ListPods api (namespace k) list_selector of
        Inl err \<Rightarrow> Inl err
      | Inr podIPs \<Rightarrow> Inr (map (\<lambda>ip. ip @ '':50051'') podIPs))"

section \<open>Hyper-V\<close>

record HyperVConfig =
  VMImagePath :: string

record HyperVContainerSandboxService =
  vmImagePath :: string

definition NewHyperVContainerSandboxService :: "HyperVConfig \<Rightarrow> HyperVContainerSandboxService res" where
  "NewHyperVContainerSandboxService cfg = Inr \<lparr>vmImagePath = VMImagePath cfg\<rparr>"

text \<open>PowerShell command lines, with their quotation marks.\<close>

definition quoted :: "string \<Rightarrow> string" where
  "quoted s = [CHR 34] @ s @ [CHR 34]"

definition new_vm :: "string \<Rightarrow> string \<Rightarrow> string \<Rightarrow> string" where
  "new_vm vmName memory path =
     ''New-VM -Name '' @ quoted vmName @ '' -MemoryStartupBytes '' @ memory @
     '' -VHDPath '' @ quoted path @ '' -SwitchName '' @ quoted ''Default Switch''"

definition start_vm :: "string \<Rightarrow> string" where
  "start_vm vmName = ''Start-VM -Name '' @ quoted vmName"

definition vm_address :: "string \<Rightarrow> string" where
  "vm_address vmName =
     ''(Get-VMNetworkAdapter -VMName '' @ quoted vmName @
     '').IpAddresses | Where-Object { $_ -match '' @
     quoted ([CHR 92] @ ''d+'' @ [CHR 92] @ ''.'' @ [CHR 92] @ ''d+'' @ [CHR 92] @ ''.'' @
             [CHR 92] @ ''d+'' @ [CHR 92] @ ''.'' @ [CHR 92] @ ''d+'') @ '' }''"

definition remove_vm :: "string \<Rightarrow> string" where
  "remove_vm vmName =
     ''Stop-VM -Name '' @ quoted vmName @ '' -Force; Remove-VM -Name '' @ quoted vmName @ '' -Force''"

record powershell =
  run_error :: "string \<Rightarrow> go_error option"
  run_output :: "string \<Rightarrow> string res"

text \<open>The result and the command lines run, in order. \<open>now\<close> is the time in seconds.\<close>

definition HyperV_CreateContainerSandbox ::
  "powershell \<Rightarrow> int \<Rightarrow> HyperVContainerSandboxService \<Rightarrow> config \<Rightarrow> string res \<times> string list" where
  "HyperV_CreateContainerSandbox ps now h cfg =
     (case (case SandboxMetadata cfg of None \<Rightarrow> None | Some m \<Rightarrow> map_of m ''vm_image_path'') of
        None \<Rightarrow> (Inl (GoError (''missing '' @ [CHR 39] @ ''vm_image_path'' @ [CHR 39] @ '' in metadata'')), [])
      | Some path \<Rightarrow>
          (let vmName = ''sandbox-'' @ show_int now;
               create = new_vm vmName (Memory (Resources cfg)) path in
           case run_error ps create of
             Some err \<Rightarrow> (Inl (GoError (''failed to create VM: '' @ message err)), [create])
           | None \<Rightarrow>
               (case run_error ps (start_vm vmName) of
                  Some err \<Rightarrow>
                    (Inl (GoError (''failed to start VM: '' @ message err)), [create, start_vm vmName])
                | None \<Rightarrow>
                    (case run_output ps (vm_address vmName) of
                       Inl err \<Rightarrow>
                         (Inl (GoError (''failed to get VM IP address: '' @ message err)),
                          [create, start_vm vmName, vm_address vmName])
                     | Inr out \<Rightarrow>
                         (Inr (TrimSpace out @ '':50051''),
                          [create, start_vm vmName, vm_address vmName])))))"

definition HyperV_DeleteContainerSandbox :: "powershell \<Rightarrow> string \<Rightarrow> go_error option" where
  "HyperV_DeleteContainerSandbox ps sandboxID =
     (case run_error ps (remove_vm sandboxID) of
        Some err \<Rightarrow> Some (GoError (''failed to delete VM: '' @ message err))
      | None \<Rightarrow> None)"

fun vm_addresses :: "powershell \<Rightarrow> string list \<Rightarrow> string list" where
  "vm_addresses ps [] = []"
| "vm_addresses ps (vmName # vmNames) =
     (case run_output ps (vm_address vmName) of
        Inl _ \<Rightarrow> vm_addresses ps vmNames
      | Inr ipOutput \<Rightarrow> (TrimSpace ipOutput @ '':50051'') # vm_addresses ps vmNames)"

definition HyperV_ListContainerSandboxes :: "powershell \<Rightarrow> string list res" where
  "HyperV_ListContainerSandboxes ps =
     (case run_output ps ''Get-VM | Select-Object -ExpandProperty Name'' of
        Inl err \<Rightarrow> Inl (GoError (''failed to list VMs: '' @ message err))
      | Inr out \<Rightarrow> Inr (vm_addresses ps (split_at (CHR 10) (TrimSpace out))))"

section \<open>The factory\<close>

text \<open>The dynamic type of the configuration passed to the factory, and the service returned.\<close>

datatype any_config =
    OfSandbox config
  | OfKubernetes KubernetesConfig
  | OfHyperV HyperVConfig

datatype sandbox_service =
    DockerService DockerContainerSandboxService
  | KubernetesService KubernetesContainerSandboxService
  | HyperVService HyperVContainerSandboxService

definition NewContainerSandboxService ::
  "string res \<Rightarrow> kube_env \<Rightarrow> SandboxType \<Rightarrow> any_config \<Rightarrow> sandbox_service res" where
  "NewContainerSandboxService cli env sandboxType cfg =
     (if sandboxType = SandboxTypeDocker then
        map_sum id DockerService (NewDockerContainerSandboxService cli)
      else if sandboxType = SandboxTypeKubernetes then
        (case cfg of
           OfKubernetes kubeConfig \<Rightarrow>
             map_sum id KubernetesService (NewKubernetesContainerSandboxService env kubeConfig)
         | _ \<Rightarrow> Inl (GoError ''invalid Kubernetes config''))
      else if sandboxType = SandboxTypeHyperV then
        (case cfg of
           OfHyperV hyperVConfig \<Rightarrow>
             map_sum id HyperVService (NewHyperVContainerSandboxService hyperVConfig)
         | _ \<Rightarrow> Inl (GoError ''invalid Hyper-V config''))
      else Inl (GoError (''unsupported sandbox type: '' @ sandboxType)))"

section \<open>Properties\<close>

lemmas sandbox_type_defs = SandboxTypeDocker_def SandboxTypeKubernetes_def SandboxTypeHyperV_def

lemma factory_of_sandbox_config:
  "NewContainerSandboxService cli env ty (OfSandbox cfg) =
     (if ty = ''docker'' then map_sum id DockerService (NewDockerContainerSandboxService cli)
      else Inl (GoError
        (if ty = ''kubernetes'' then ''invalid Kubernetes config''
         else if ty = ''hyperv'' then ''invalid Hyper-V config''
         else ''unsupported sandbox type: '' @ ty)))"
  by (simp add: NewContainerSandboxService_def sandbox_type_defs)

text \<open>Given a sandbox configuration, the factory makes a Docker service or none: the
  Kubernetes and Hyper-V kinds are refused for every such configuration, since only their own
  configuration types are accepted.\<close>

theorem factory_makes_only_docker:
  "(\<forall>s. NewContainerSandboxService cli env ty (OfSandbox cfg) = Inr s \<longrightarrow>
       ty = SandboxTypeDocker \<and> (\<exists>d. s = DockerService d))
   \<and> NewContainerSandboxService cli env SandboxTypeKubernetes (OfSandbox cfg)
       = Inl (GoError ''invalid Kubernetes config'')
   \<and> NewContainerSandboxService cli env SandboxTypeHyperV (OfSandbox cfg)
       = Inl (GoError ''invalid Hyper-V config'')
   \<and> (\<exists>d. NewContainerSandboxService (Inr h) env SandboxTypeDocker (OfSandbox cfg)
            = Inr (DockerService d) \<and> docker_host d = h)"
  by (auto simp: factory_of_sandbox_config sandbox_type_defs NewDockerContainerSandboxService_def
      split: sum.splits)

lemma factory_makes_only_docker_witness:
  "\<exists>d. NewContainerSandboxService (Inr ''unix:///var/run/docker.sock'')
      \<lparr>in_cluster_error = None, url_error = (\<lambda>_. None), clientset_error = None\<rparr>
      SandboxTypeDocker (OfSandbox empty_config) = Inr (DockerService d)"
  using factory_makes_only_docker
    [of "Inr ''''" "\<lparr>in_cluster_error = None, url_error = (\<lambda>_. None), clientset_error = None\<rparr>"
        "''docker''" empty_config "''unix:///var/run/docker.sock''"]
  by blast

text \<open>An equality selector \<open>key=value\<close> matches the labels that map the key to the value.\<close>

definition selector_matches :: "string \<Rightarrow> string gomap \<Rightarrow> bool" where
  "selector_matches sel labels =
     (case split_at (CHR ''='') sel of
        [k, v] \<Rightarrow> map_of labels k = Some v
      | _ \<Rightarrow> False)"

lemma kubernetes_pod:
  assumes "Kubernetes_CreateContainerSandbox quote iter api k cfg = Returns (r, Some pod)"
  shows "\<exists>memory cpu. pod = domain_pod iter cfg memory cpu"
proof -
  from assms obtain cpu where "parseCPU quote api (CPU (Resources cfg)) = Inr cpu"
    by (auto simp: Kubernetes_CreateContainerSandbox_def split: sum.splits)
  with assms obtain memory where "parseMemoryK8s api (Memory (Resources cfg)) = Returns memory"
    by (auto simp: Kubernetes_CreateContainerSandbox_def go_bind_Returns_iff)
  with \<open>parseCPU quote api (CPU (Resources cfg)) = Inr cpu\<close> assms
  have "pod = domain_pod iter cfg memory cpu"
    by (simp add: Kubernetes_CreateContainerSandbox_def Let_def split: sum.splits)
  then show ?thesis by blast
qed

text \<open>Every pod a Kubernetes service asks for carries labels that the selector of its own
  listing does not match, so a listing that honours the selector never shows a sandbox the
  service created.\<close>

theorem created_pods_are_not_listed:
  assumes "Kubernetes_CreateContainerSandbox quote iter api k cfg = Returns (r, Some pod)"
  shows "\<not> selector_matches list_selector (PodLabels pod)
    \<and> RestartPolicy pod = ''Never'' \<and> PodImage pod = Image cfg"
  using kubernetes_pod [OF assms]
  by (auto simp: domain_pod_def selector_matches_def list_selector_def)

lemma created_pods_are_not_listed_witness:
  "let api = \<lparr>MustParse = Returns, NewQuantity = show_int, CreatePod = (\<lambda>_ _. Inr ''10.1.2.3''),
              DeletePod = (\<lambda>_ _. None), ListPods = (\<lambda>_ _. Inr [])\<rparr>;
       k = \<lparr>namespace = ''ci'', client_proxy = None, client_insecure = False\<rparr>;
       cfg = empty_config\<lparr>Resources := \<lparr>CPU = ''2'', Memory = ''512Mi'', Disk = ''''\<rparr>\<rparr> in
   \<exists>pod. Kubernetes_CreateContainerSandbox (\<lambda>s. s) (\<lambda>m. m) api k cfg
       = Returns (Inr ''10.1.2.3:50051'', Some pod)
     \<and> \<not> selector_matches list_selector (PodLabels pod)"
proof -
  let ?api = "\<lparr>MustParse = Returns, NewQuantity = show_int, CreatePod = (\<lambda>_ _. Inr ''10.1.2.3''),
              DeletePod = (\<lambda>_ _. None), ListPods = (\<lambda>_ _. Inr [])\<rparr>"
  let ?k = "\<lparr>namespace = ''ci'', client_proxy = None, client_insecure = False\<rparr>"
  let ?cfg = "empty_config\<lparr>Resources := \<lparr>CPU = ''2'', Memory = ''512Mi'', Disk = ''''\<rparr>\<rparr>"
  have "\<exists>pod. Kubernetes_CreateContainerSandbox (\<lambda>s. s) (\<lambda>m. m) ?api ?k ?cfg
       = Returns (Inr ''10.1.2.3:50051'', Some pod)"
    by (simp add: Kubernetes_CreateContainerSandbox_def parseCPU_def ParseInt_def HasPrefix_def
        is_digit_def digits_val_def digit_val_def parseMemoryK8s_def Let_def)
  then show ?thesis
    by (auto simp: Let_def dest: created_pods_are_not_listed)
qed

text \<open>When a sandbox cannot be started after it was created, the Docker service removes the
  container it created; the Hyper-V service runs no command after the failed start, so the
  virtual machine stays.\<close>

theorem failed_start_cleanup:
  "(ContainerCreate api \<lparr>cc_Hostname = SandboxName cfg, cc_Image = Image cfg,
       cc_HostConfig = None, cc_Name = SandboxName cfg\<rparr> = Inr cid
      \<and> ContainerStart api cid = Some e1
    \<longrightarrow> fst (start_container api cfg) = Inl (GoError (''failed to start container: '' @ message e1))
      \<and> last (snd (start_container api cfg)) = CallRemove cid True)
   \<and> (SandboxMetadata cfg = Some m \<and> map_of m ''vm_image_path'' = Some path
      \<and> run_error ps (new_vm (''sandbox-'' @ show_int now) (Memory (Resources cfg)) path) = None
      \<and> run_error ps (start_vm (''sandbox-'' @ show_int now)) = Some e2
    \<longrightarrow> HyperV_CreateContainerSandbox ps now h cfg =
         (Inl (GoError (''failed to start VM: '' @ message e2)),
          [new_vm (''sandbox-'' @ show_int now) (Memory (Resources cfg)) path,
           start_vm (''sandbox-'' @ show_int now)]))"
  by (auto simp: start_container_def HyperV_CreateContainerSandbox_def Let_def)

lemma failed_start_cleanup_witness:
  "let api = ok_docker\<lparr>ContainerStart := \<lambda>_. Some (GoError ''no such image'')\<rparr>;
       ps = \<lparr>run_error = (\<lambda>c. if HasPrefix c ''Start-VM'' then Some (GoError ''exit status 1'') else None),
             run_output = (\<lambda>_. Inr '''')\<rparr>;
       cfg = empty_config\<lparr>Image := ''alpine'', SandboxMetadata := Some [(''vm_image_path'', ''d.vhdx'')]\<rparr> in
   last (snd (start_container api cfg)) = CallRemove ''c0ffee'' True
   \<and> length (snd (HyperV_CreateContainerSandbox ps 17 \<lparr>vmImagePath = ''''\<rparr> cfg)) = 2"
  using failed_start_cleanup
    [of "ok_docker\<lparr>ContainerStart := \<lambda>_. Some (GoError ''no such image'')\<rparr>"
        "empty_config\<lparr>Image := ''alpine'', SandboxMetadata := Some [(''vm_image_path'', ''d.vhdx'')]\<rparr>"
        "''c0ffee''" "GoError ''no such image''" "[(''vm_image_path'', ''d.vhdx'')]" "''d.vhdx''"
        "\<lparr>run_error = (\<lambda>c. if HasPrefix c ''Start-VM'' then Some (GoError ''exit status 1'') else None),
          run_output = (\<lambda>_. Inr '''')\<rparr>" 17 "GoError ''exit status 1''" "\<lparr>vmImagePath = ''''\<rparr>"]
  by (simp add: ok_docker_def new_vm_def start_vm_def HasPrefix_def Let_def)

end
