(* ===== verification/Go_Chan.thy ===== *)
theory Go_Chan
  imports Prelude
begin

text \<open>
  Go channels as first-in first-out queues. A channel has a capacity, a buffer and the senders
  blocked on it with their values; a receive takes the oldest value and lets the oldest blocked
  sender put its own into the buffer. The abstraction of a channel is the list of values sent
  and not yet received; the capacity does not show in it, only in which senders are blocked.
\<close>

section \<open>The interface\<close>

locale fifo =
  fixes send :: "'a \<Rightarrow> 'q \<Rightarrow> 'q"
    and recv :: "'q \<Rightarrow> ('a \<times> 'q) option"
    and contents :: "'q \<Rightarrow> 'a list"
    and invar :: "'q \<Rightarrow> bool"
  assumes contents_send: "invar q \<Longrightarrow> contents (send x q) = contents q @ [x]"
    and invar_send: "invar q \<Longrightarrow> invar (send x q)"
    and recv_None: "invar q \<Longrightarrow> recv q = None \<longleftrightarrow> contents q = []"
    and recv_Some: "invar q \<Longrightarrow> recv q = Some (x, q') \<Longrightarrow> contents q = x # contents q' \<and> invar q'"
begin

lemma contents_sends:
  "invar q \<Longrightarrow> contents (fold send xs q) = contents q @ xs \<and> invar (fold send xs q)"
  by (induction xs arbitrary: q) (simp_all add: contents_send invar_send)

lemma recv_cases:
  assumes "invar q"
  obtains (empty) "recv q = None" "contents q = []"
  | (got) x q' where "recv q = Some (x, q')" "contents q = x # contents q'" "invar q'"
proof (cases "recv q")
  case None
  with assms show ?thesis by (auto simp: recv_None intro: empty)
next
  case (Some p)
  with assms show ?thesis
    by (cases p) (metis recv_Some got)
qed

lemma recv_head:
  assumes "invar q" and "contents q = x # xs"
  shows "\<exists>q'. recv q = Some (x, q') \<and> contents q' = xs \<and> invar q'"
  using assms(1)
proof (cases rule: recv_cases)
  case empty
  with assms(2) show ?thesis by simp
next
  case (got y q')
  with assms(2) show ?thesis by auto
qed

end

section \<open>Channels\<close>

record 'a chan =
  chan_cap :: nat
  chan_buf :: "'a list"
  chan_senders :: "'a list"

definition make_chan :: "nat \<Rightarrow> 'a chan" where
  "make_chan n = \<lparr>chan_cap = n, chan_buf = [], chan_senders = []\<rparr>"

definition chan_send :: "'a \<Rightarrow> 'a chan \<Rightarrow> 'a chan" where
  "chan_send x c =
     (if length (chan_buf c) < chan_cap c then c\<lparr>chan_buf := chan_buf c @ [x]\<rparr>
      else c\<lparr>chan_senders := chan_senders c @ [x]\<rparr>)"

definition chan_recv :: "'a chan \<Rightarrow> ('a \<times> 'a chan) option" where
  "chan_recv c =
     (case chan_buf c of
        x # xs \<Rightarrow>
          Some (x, c\<lparr>chan_buf := xs @ take 1 (chan_senders c), chan_senders := drop 1 (chan_senders c)\<rparr>)
      | [] \<Rightarrow>
          (case chan_senders c of
             x # xs \<Rightarrow> Some (x, c\<lparr>chan_senders := xs\<rparr>)
           | [] \<Rightarrow> None))"

definition chan_contents :: "'a chan \<Rightarrow> 'a list" where
  "chan_contents c = chan_buf c @ chan_senders c"

definition chan_ok :: "'a chan \<Rightarrow> bool" where
  "chan_ok c \<longleftrightarrow> length (chan_buf c) \<le> chan_cap c
     \<and> (chan_senders c \<noteq> [] \<longrightarrow> length (chan_buf c) = chan_cap c)"

lemma chan_ok_make [simp]: "chan_ok (make_chan n)"
  by (simp add: chan_ok_def make_chan_def)

lemma contents_make [simp]: "chan_contents (make_chan n) = []"
  by (simp add: chan_contents_def make_chan_def)

interpretation chan: fifo chan_send chan_recv chan_contents chan_ok
proof unfold_locales
  fix q :: "'a chan" and x q'
  assume ok: "chan_ok q"
  show "chan_contents (chan_send x q) = chan_contents q @ [x]"
    using ok by (auto simp: chan_send_def chan_contents_def chan_ok_def)
  show "chan_ok (chan_send x q)"
    using ok by (auto simp: chan_send_def chan_ok_def)
  show "chan_recv q = None \<longleftrightarrow> chan_contents q = []"
    by (auto simp: chan_recv_def chan_contents_def split: list.splits)
  show "chan_recv q = Some (x, q') \<Longrightarrow> chan_contents q = x # chan_contents q' \<and> chan_ok q'"
    using ok
    by (cases "chan_senders q") (auto simp: chan_recv_def chan_contents_def chan_ok_def split: list.splits)
qed

text \<open>The buffer never holds more than the capacity, whatever is sent and received.\<close>

lemma chan_send_cap [simp]: "chan_cap (chan_send x c) = chan_cap c"
  by (simp add: chan_send_def)

lemma chan_recv_cap: "chan_recv c = Some (x, c') \<Longrightarrow> chan_cap c' = chan_cap c"
  by (auto simp: chan_recv_def split: list.splits)

end
