(* ===== verification/Dispatch.thy ===== *)
theory Dispatch
  imports Go_Chan Task_Model
begin

text \<open>
  How the worker service admits and runs tasks: \<open>NewWorkerService\<close>, \<open>AddTask\<close>, \<open>dispatchLoop\<close>,
  \<open>runTask\<close> and \<open>Shutdown\<close> of \<open>internal/adapters/worker/worker_service.go\<close>, as goroutines that
  interleave.

  The state holds the channel of pending tasks, the count of running tasks the mutex protects,
  and the goroutines in flight: those that run a task and those that put a task back into the
  queue after a wait. A step is one critical section or channel operation of one goroutine. Two
  ghost fields record every task ever accepted and every task whose run has ended.

  The effect of a run (creating the container) is the subject of \<open>Worker_Service\<close>.
\<close>

section \<open>State and operations\<close>

record dispatcher =
  pendingTasks :: "Task chan"
  maxConcurrent :: int
  currentRunning :: int
  ctx_done :: bool
  loop_ended :: bool
  requeuing :: "Task list"
  runners :: "Task list"
  accepted :: "Task list"
  ended :: "Task list"

definition new_dispatcher :: "nat \<Rightarrow> int \<Rightarrow> dispatcher" where
  "new_dispatcher queueSize max_concurrent =
     \<lparr>pendingTasks = make_chan queueSize, maxConcurrent = max_concurrent, currentRunning = 0,
      ctx_done = False, loop_ended = False, requeuing = [], runners = [], accepted = [],
      ended = []\<rparr>"

text \<open>
  \<open>AddTask\<close>, with the identifier \<open>uuid.New\<close> would give. A call that finds room in the channel returns at once;
  one that does not stays blocked in its send, its value among the senders of the channel, until
  the dispatch loop lets it in.
\<close>

datatype add_result = AddReturns "go_error option" | AddBlocks

definition with_id :: "uuid \<Rightarrow> Task \<Rightarrow> Task" where
  "with_id new_id t =
     (if MetaID (Metadata t) = uuid_Nil
      then t\<lparr>Metadata := (Metadata t)\<lparr>MetaID := new_id\<rparr>\<rparr> else t)"

definition AddTask :: "uuid \<Rightarrow> Task \<Rightarrow> dispatcher \<Rightarrow> add_result \<times> dispatcher" where
  "AddTask new_id t w =
     (let t = with_id new_id t in
      if State (Status t) = Completed \<or> State (Status t) = Failed then
        (AddReturns (Some (GoError (''AddTask: the task is already in a final state ('' @
            State_String (State (Status t)) @ '')''))), w)
      else
        (if length (chan_buf (pendingTasks w)) < chan_cap (pendingTasks w) then AddReturns None else AddBlocks,
         w\<lparr>pendingTasks := chan_send t (pendingTasks w), accepted := accepted w @ [t]\<rparr>))"

text \<open>One round of the loop that takes the receiving branch of its \<open>select\<close>.\<close>

definition dispatch_receive :: "dispatcher \<Rightarrow> dispatcher option" where
  "dispatch_receive w =
     (case chan_recv (pendingTasks w) of
        None \<Rightarrow> None
      | Some (t, q) \<Rightarrow>
          let w = w\<lparr>pendingTasks := q\<rparr> in
          if currentRunning w \<ge> maxConcurrent w
          then Some (w\<lparr>requeuing := requeuing w @ [t]\<rparr>)
          else Some (w\<lparr>currentRunning := currentRunning w + 1, runners := runners w @ [t]\<rparr>))"

text \<open>The goroutine that puts a task back; a run that ends.\<close>

definition requeue :: "Task \<Rightarrow> dispatcher \<Rightarrow> dispatcher" where
  "requeue t w = w\<lparr>requeuing := remove1 t (requeuing w), pendingTasks := chan_send t (pendingTasks w)\<rparr>"

definition run_ends :: "Task \<Rightarrow> dispatcher \<Rightarrow> dispatcher" where
  "run_ends t w =
     w\<lparr>runners := remove1 t (runners w), currentRunning := currentRunning w - 1,
       ended := ended w @ [t]\<rparr>"

definition Shutdown :: "dispatcher \<Rightarrow> dispatcher" where
  "Shutdown w = w\<lparr>ctx_done := True\<rparr>"

inductive dispatch_step :: "dispatcher \<Rightarrow> dispatcher \<Rightarrow> bool" where
  add: "AddTask new_id t w = (res, w') \<Longrightarrow> dispatch_step w w'"
| receive: "\<not> loop_ended w \<Longrightarrow> dispatch_receive w = Some w' \<Longrightarrow> dispatch_step w w'"
| put_back: "t \<in> set (requeuing w) \<Longrightarrow> dispatch_step w (requeue t w)"
| run_end: "t \<in> set (runners w) \<Longrightarrow> dispatch_step w (run_ends t w)"
| shutdown: "dispatch_step w (Shutdown w)"
| leave: "ctx_done w \<Longrightarrow> \<not> loop_ended w \<Longrightarrow> dispatch_step w (w\<lparr>loop_ended := True\<rparr>)"

inductive_cases dispatch_stepE: "dispatch_step w w'"

inductive reachable :: "nat \<Rightarrow> int \<Rightarrow> dispatcher \<Rightarrow> bool" for n m where
  start: "reachable n m (new_dispatcher n m)"
| step: "reachable n m w \<Longrightarrow> dispatch_step w w' \<Longrightarrow> reachable n m w'"

section \<open>The invariant\<close>

definition in_flight :: "dispatcher \<Rightarrow> Task multiset" where
  "in_flight w = mset (chan_contents (pendingTasks w)) + mset (requeuing w) + mset (runners w)"

definition dispatcher_ok :: "dispatcher \<Rightarrow> bool" where
  "dispatcher_ok w \<longleftrightarrow>
     chan_ok (pendingTasks w)
     \<and> currentRunning w = int (length (runners w))
     \<and> currentRunning w \<le> max 0 (maxConcurrent w)
     \<and> mset (accepted w) = in_flight w + mset (ended w)"

lemma AddTask_ok: "AddTask i t w = (res, w') \<Longrightarrow> dispatcher_ok w \<Longrightarrow> dispatcher_ok w'"
  by (auto simp: AddTask_def dispatcher_ok_def in_flight_def chan.contents_send chan.invar_send
      Let_def split: if_splits)

lemma receive_ok:
  assumes "dispatch_receive w = Some w'" and ok: "dispatcher_ok w"
  shows "dispatcher_ok w'"
proof -
  from ok have "chan_ok (pendingTasks w)"
    by (simp add: dispatcher_ok_def)
  then show ?thesis
  proof (cases rule: chan.recv_cases)
    case empty
    with assms(1) show ?thesis by (simp add: dispatch_receive_def)
  next
    case (got t q)
    with assms show ?thesis
      by (auto simp: dispatch_receive_def dispatcher_ok_def in_flight_def Let_def split: if_splits)
  qed
qed

lemma requeue_ok: "t \<in> set (requeuing w) \<Longrightarrow> dispatcher_ok w \<Longrightarrow> dispatcher_ok (requeue t w)"
  by (auto simp: requeue_def dispatcher_ok_def in_flight_def chan.contents_send chan.invar_send)

lemma run_ends_ok: "t \<in> set (runners w) \<Longrightarrow> dispatcher_ok w \<Longrightarrow> dispatcher_ok (run_ends t w)"
  by (auto simp: run_ends_def dispatcher_ok_def in_flight_def length_remove1)
    (metis One_nat_def Suc_pred length_pos_if_in_set of_nat_Suc add_diff_cancel_left')+

lemma step_ok: "dispatch_step w w' \<Longrightarrow> dispatcher_ok w \<Longrightarrow> dispatcher_ok w'"
proof (induction rule: dispatch_step.induct)
  case (add i t w res w')
  then show ?case by (rule AddTask_ok)
next
  case (receive w w')
  then show ?case by (blast intro: receive_ok)
next
  case (put_back t w)
  then show ?case by (rule requeue_ok)
next
  case (run_end t w)
  then show ?case by (rule run_ends_ok)
qed (simp_all add: dispatcher_ok_def Shutdown_def in_flight_def)

lemma reachable_ok: "reachable n m w \<Longrightarrow> dispatcher_ok w"
proof (induction rule: reachable.induct)
  case start
  show ?case by (simp add: new_dispatcher_def dispatcher_ok_def in_flight_def)
next
  case (step w w')
  then show ?case by (blast intro: step_ok)
qed

lemma step_max: "dispatch_step w w' \<Longrightarrow> maxConcurrent w' = maxConcurrent w"
  by (induction rule: dispatch_step.induct)
    (auto simp: AddTask_def dispatch_receive_def requeue_def run_ends_def Shutdown_def Let_def
      split: option.splits if_splits)

lemma reachable_max: "reachable n m w \<Longrightarrow> maxConcurrent w = m"
  by (induction rule: reachable.induct) (simp_all add: new_dispatcher_def step_max)

text \<open>C2: In every interleaving the count of running tasks is the number of task runs in
  flight and never exceeds the limit the service was made with.\<close>

theorem concurrency_limit:
  assumes "reachable n m w"
  shows "currentRunning w = int (length (runners w)) \<and> currentRunning w \<le> max 0 m"
  using reachable_ok [OF assms] reachable_max [OF assms] by (simp add: dispatcher_ok_def)

text \<open>C1: No task is lost or run twice: at every moment the tasks accepted are, with
  multiplicity, those in the queue (buffered or with a blocked sender), those waiting to be
  put back, those running and those whose run has ended.\<close>

theorem no_task_lost_or_duplicated:
  assumes "reachable n m w"
  shows "mset (accepted w) = mset (chan_contents (pendingTasks w)) + mset (requeuing w)
     + mset (runners w) + mset (ended w)"
  using reachable_ok [OF assms] by (simp add: dispatcher_ok_def in_flight_def)

text \<open>A run for the witnesses: with a queue of one and a limit of one, the second task is taken
  out of the queue while the first runs and has to wait.\<close>

definition sample_task :: "uuid \<Rightarrow> Task" where
  "sample_task i = NewTask 0 i ''job'' ''alpine''"

definition sample_state :: dispatcher where
  "sample_state =
     \<lparr>pendingTasks = make_chan 1, maxConcurrent = 1, currentRunning = 1, ctx_done = False,
      loop_ended = False, requeuing = [sample_task 2], runners = [sample_task 1],
      accepted = [sample_task 1, sample_task 2], ended = []\<rparr>"

lemma AddTask_sample:
  "i \<noteq> 0 \<Longrightarrow> AddTask n (sample_task i) w =
     (if length (chan_buf (pendingTasks w)) < chan_cap (pendingTasks w) then AddReturns None else AddBlocks,
      w\<lparr>pendingTasks := chan_send (sample_task i) (pendingTasks w),
        accepted := accepted w @ [sample_task i]\<rparr>)"
proof -
  assume "i \<noteq> 0"
  then have "with_id n (sample_task i) = sample_task i"
    by (simp add: with_id_def sample_task_def NewTask_def uuid_Nil_def)
  moreover have "State (Status (sample_task i)) = Pending"
    by (simp add: sample_task_def NewTask_def)
  ultimately show ?thesis
    by (simp add: AddTask_def Let_def)
qed

lemma reachable_AddTask:
  "reachable n m w \<Longrightarrow> i \<noteq> 0 \<Longrightarrow> reachable n m (snd (AddTask j (sample_task i) w))"
  by (rule reachable.step, assumption, rule dispatch_step.add [of j "sample_task i"])
    (simp add: AddTask_sample)

lemma reachable_receive:
  "reachable n m w \<Longrightarrow> \<not> loop_ended w \<Longrightarrow> dispatch_receive w = Some w' \<Longrightarrow> reachable n m w'"
  by (blast intro: reachable.step dispatch_step.receive)

lemma sample_reachable: "reachable 1 1 sample_state"
proof -
  let ?one = "\<lparr>pendingTasks = make_chan 1, maxConcurrent = 1, currentRunning = 1, ctx_done = False,
       loop_ended = False, requeuing = [], runners = [sample_task 1],
       accepted = [sample_task 1], ended = []\<rparr>"
  note defs = new_dispatcher_def dispatch_receive_def make_chan_def chan_send_def chan_recv_def
    AddTask_sample
  have "dispatch_receive (snd (AddTask 9 (sample_task 1) (new_dispatcher 1 1))) = Some ?one"
    and "\<not> loop_ended (snd (AddTask 9 (sample_task 1) (new_dispatcher 1 1)))"
    by (simp_all add: defs)
  then have "reachable 1 1 ?one"
    by (intro reachable_receive [OF reachable_AddTask [OF reachable.start]]) simp_all
  then have "reachable 1 1 (snd (AddTask 9 (sample_task 2) ?one))"
    by (rule reachable_AddTask) simp
  moreover have "dispatch_receive (snd (AddTask 9 (sample_task 2) ?one)) = Some sample_state"
    and "\<not> loop_ended (snd (AddTask 9 (sample_task 2) ?one))"
    by (simp_all add: defs sample_state_def)
  ultimately show ?thesis
    by (metis reachable_receive)
qed

lemma concurrency_limit_witness:
  "currentRunning sample_state = int (length (runners sample_state))
   \<and> currentRunning sample_state \<le> max 0 1"
  by (rule concurrency_limit [OF sample_reachable])

lemma no_task_lost_or_duplicated_witness:
  "mset (accepted sample_state) = mset (chan_contents (pendingTasks sample_state))
     + mset (requeuing sample_state) + mset (runners sample_state) + mset (ended sample_state)"
  by (rule no_task_lost_or_duplicated [OF sample_reachable])

section \<open>Progress\<close>

definition work_left :: "dispatcher \<Rightarrow> nat" where
  "work_left w = 3 * length (requeuing w) + 2 * length (chan_contents (pendingTasks w))
     + length (runners w)"

text \<open>While a task is in flight, some goroutine can take a step that brings it nearer its end.\<close>

lemma progress_step:
  assumes "dispatcher_ok w" and "0 < maxConcurrent w" and "\<not> loop_ended w" and "work_left w \<noteq> 0"
  shows "\<exists>w'. dispatch_step w w' \<and> work_left w' < work_left w \<and> accepted w' = accepted w
     \<and> maxConcurrent w' = maxConcurrent w \<and> \<not> loop_ended w'"
proof -
  consider (run) t where "t \<in> set (runners w)" | (wait) t where "t \<in> set (requeuing w)"
    | (queue) "runners w = []" "chan_contents (pendingTasks w) \<noteq> []"
    using assms(4) by (cases "runners w"; cases "requeuing w") (auto simp: work_left_def)
  then show ?thesis
  proof cases
    case run
    then have "work_left (run_ends t w) < work_left w"
      by (auto simp: work_left_def run_ends_def length_remove1 dest: length_pos_if_in_set)
    then show ?thesis
      using dispatch_step.run_end [OF run] assms(3)
      by (intro exI [of _ "run_ends t w"]) (simp add: run_ends_def)
  next
    case wait
    then have "work_left (requeue t w) < work_left w"
      using assms(1) wait Suc_pred [OF length_pos_if_in_set [OF wait]]
      by (simp add: work_left_def requeue_def length_remove1 chan.contents_send dispatcher_ok_def)
    then show ?thesis
      using dispatch_step.put_back [OF wait] assms(3)
      by (intro exI [of _ "requeue t w"]) (simp add: requeue_def)
  next
    case queue
    then obtain t q where q: "chan_recv (pendingTasks w) = Some (t, q)"
      "chan_contents (pendingTasks w) = t # chan_contents q"
      using assms(1) chan.recv_head
      by (metis dispatcher_ok_def neq_Nil_conv)
    let ?w = "w\<lparr>pendingTasks := q, currentRunning := currentRunning w + 1, runners := [t]\<rparr>"
    have "dispatch_receive w = Some ?w"
      using q(1) queue(1) assms(1,2) by (simp add: dispatch_receive_def dispatcher_ok_def)
    then have "dispatch_step w ?w"
      using assms(3) by (rule dispatch_step.receive [rotated])
    moreover have "work_left ?w < work_left w"
      using q(2) queue(1) by (simp add: work_left_def)
    ultimately show ?thesis
      using assms(3) by (intro exI [of _ ?w]) simp
  qed
qed

lemma drains:
  "dispatcher_ok w \<Longrightarrow> 0 < maxConcurrent w \<Longrightarrow> \<not> loop_ended w \<Longrightarrow>
   \<exists>w'. dispatch_step\<^sup>*\<^sup>* w w' \<and> accepted w' = accepted w \<and> dispatcher_ok w' \<and> work_left w' = 0"
proof (induction "work_left w" arbitrary: w rule: less_induct)
  case less
  show ?case
  proof (cases "work_left w = 0")
    case True
    with less.prems show ?thesis by blast
  next
    case False
    then obtain u where u: "dispatch_step w u" "work_left u < work_left w" "accepted u = accepted w"
      "maxConcurrent u = maxConcurrent w" "\<not> loop_ended u"
      using progress_step less.prems by blast
    then obtain w' where "dispatch_step\<^sup>*\<^sup>* u w'" "accepted w' = accepted u" "dispatcher_ok w'"
      "work_left w' = 0"
      using less.hyps [of u] less.prems step_ok by force
    with u show ?thesis by (metis converse_rtranclp_into_rtranclp)
  qed
qed

text \<open>C14: With a positive limit no accepted task can be stuck: from every reachable state whose
  loop has not left there is a run after which every accepted task has ended its run and
  nothing is in flight.\<close>

theorem every_task_can_end:
  assumes "reachable n m w" and "0 < m" and "\<not> loop_ended w"
  shows "\<exists>w'. dispatch_step\<^sup>*\<^sup>* w w' \<and> accepted w' = accepted w \<and> mset (ended w') = mset (accepted w)
     \<and> runners w' = [] \<and> currentRunning w' = 0"
proof -
  obtain w' where w': "dispatch_step\<^sup>*\<^sup>* w w'" "accepted w' = accepted w" "dispatcher_ok w'"
    "work_left w' = 0"
    using drains reachable_ok [OF assms(1)] reachable_max [OF assms(1)] assms(2,3) by metis
  then have "mset (ended w') = mset (accepted w)" and "runners w' = []" and "currentRunning w' = 0"
    by (simp_all add: work_left_def dispatcher_ok_def in_flight_def)
  with w' show ?thesis by blast
qed

lemma every_task_can_end_witness:
  "\<exists>w'. dispatch_step\<^sup>*\<^sup>* sample_state w' \<and> mset (ended w') = {#sample_task 1, sample_task 2#}"
  using every_task_can_end [OF sample_reachable] by (auto simp: sample_state_def)

section \<open>Services that run nothing\<close>

lemma ended_grows_by_runs: "dispatch_step w w' \<Longrightarrow> runners w = [] \<Longrightarrow> ended w' = ended w"
  by (induction rule: dispatch_step.induct)
    (auto simp: AddTask_def dispatch_receive_def requeue_def Shutdown_def Let_def
      split: option.splits if_splits)

lemma no_runs: "reachable n m w \<Longrightarrow> m \<le> 0 \<Longrightarrow> runners w = [] \<and> ended w = []"
proof (induction rule: reachable.induct)
  case start
  show ?case by (simp add: new_dispatcher_def)
next
  case (step w w')
  then have "dispatcher_ok w'" and "maxConcurrent w' = m"
    by (auto intro: reachable_ok reachable_max reachable.step)
  with step show ?case
    by (auto simp: dispatcher_ok_def ended_grows_by_runs)
qed

text \<open>What the channel holds in its buffer and who is blocked on it, once nobody receives.\<close>

definition extends_chan :: "'a chan \<Rightarrow> 'a chan \<Rightarrow> bool" where
  "extends_chan q q' \<longleftrightarrow> (\<exists>xs ys. chan_buf q' = chan_buf q @ xs \<and> chan_senders q' = chan_senders q @ ys)"

lemma extends_chan_refl [simp]: "extends_chan q q"
  by (simp add: extends_chan_def)

lemma extends_chan_trans: "extends_chan p q \<Longrightarrow> extends_chan q r \<Longrightarrow> extends_chan p r"
  by (auto simp: extends_chan_def)

lemma extends_chan_send [simp]: "extends_chan q (chan_send x q)"
  by (simp add: extends_chan_def chan_send_def)

lemma after_loop_step:
  "dispatch_step w w' \<Longrightarrow> loop_ended w \<Longrightarrow>
     loop_ended w' \<and> mset (runners w') + mset (ended w') = mset (runners w) + mset (ended w)
     \<and> extends_chan (pendingTasks w) (pendingTasks w')"
  by (induction rule: dispatch_step.induct)
    (auto simp: AddTask_def requeue_def run_ends_def Shutdown_def Let_def split: if_splits)

lemma after_loop:
  "dispatch_step\<^sup>*\<^sup>* w w' \<Longrightarrow> loop_ended w \<Longrightarrow>
     loop_ended w' \<and> mset (runners w') + mset (ended w') = mset (runners w) + mset (ended w)
     \<and> extends_chan (pendingTasks w) (pendingTasks w')"
  by (induction rule: rtranclp_induct) (auto dest: after_loop_step intro: extends_chan_trans)

lemma step_cap: "dispatch_step w w' \<Longrightarrow> chan_cap (pendingTasks w') = chan_cap (pendingTasks w)"
  by (induction rule: dispatch_step.induct)
    (auto simp: AddTask_def dispatch_receive_def requeue_def run_ends_def Shutdown_def Let_def
      dest!: chan_recv_cap split: option.splits if_splits)

lemma reachable_cap: "reachable n m w \<Longrightarrow> chan_cap (pendingTasks w) = n"
  by (induction rule: reachable.induct) (simp_all add: new_dispatcher_def make_chan_def step_cap)

text \<open>C28: Tasks can be accepted that will never run. A service made with a limit of zero or less never starts a
  run. Once the loop has left after Shutdown no further run starts, the tasks buffered stay in the queue
  and a caller blocked in AddTask stays blocked. Meanwhile AddTask does not look at either: for a task
  that is not in a final state it returns success if the queue (of the size the service was made with) has room,
  and blocks if it has none.\<close>

theorem accepted_without_running:
  assumes "reachable n m w"
  shows "(m \<le> 0 \<longrightarrow> runners w = [] \<and> ended w = [])
    \<and> (loop_ended w \<and> dispatch_step\<^sup>*\<^sup>* w w' \<longrightarrow>
         mset (runners w') + mset (ended w') = mset (runners w) + mset (ended w)
         \<and> (\<exists>xs ys. chan_buf (pendingTasks w') = chan_buf (pendingTasks w) @ xs
              \<and> chan_senders (pendingTasks w') = chan_senders (pendingTasks w) @ ys))
    \<and> (State (Status t) \<notin> {Completed, Failed} \<longrightarrow>
         AddTask i t w =
           (if length (chan_buf (pendingTasks w)) < n
            then (AddReturns None, w\<lparr>pendingTasks := (pendingTasks w)
                    \<lparr>chan_buf := chan_buf (pendingTasks w) @ [with_id i t]\<rparr>,
                  accepted := accepted w @ [with_id i t]\<rparr>)
            else (AddBlocks, w\<lparr>pendingTasks := (pendingTasks w)
                    \<lparr>chan_senders := chan_senders (pendingTasks w) @ [with_id i t]\<rparr>,
                  accepted := accepted w @ [with_id i t]\<rparr>)))"
  using no_runs [OF assms] after_loop [of w w'] reachable_cap [OF assms]
  by (auto simp: AddTask_def with_id_def Let_def extends_chan_def chan_send_def)

lemma accepted_without_running_witness:
  "runners (snd (AddTask 9 (sample_task 1) (new_dispatcher 1 0))) = []
   \<and> fst (AddTask 9 (sample_task 2) (snd (AddTask 9 (sample_task 1) (new_dispatcher 1 0)))) = AddBlocks"
proof -
  have "reachable 1 0 (snd (AddTask 9 (sample_task 1) (new_dispatcher 1 0)))"
    by (rule reachable_AddTask [OF reachable.start]) simp
  moreover have "State (Status (sample_task 2)) \<notin> {Completed, Failed}"
    by (simp add: sample_task_def NewTask_def)
  ultimately show ?thesis
    using accepted_without_running [of 1 0 _ _ "sample_task 2" 9]
    by (simp add: AddTask_sample new_dispatcher_def make_chan_def chan_send_def)
qed

end
