(* ===== verification/Task_Db.thy ===== *)
theory Task_Db
  imports Persistent_Store "HOL-Library.Countable"
begin

text \<open>
  The interface \<open>ports.Store\<close> as the worker service uses it on tasks, its two implementations,
  and what a client may rely on.

  A store is described to its clients by the task each key reads as (\<open>val\<close>), by the cell a key
  shares with the client, if it does (\<open>refs\<close>), and by what a task that is put reads back as, or the
  error of putting it (\<open>keeps\<close>). The in-memory store shares every cell it is given and keeps every
  task as it is: a write through a pointer that was put changes what it reads back. The persistent one
  shares nothing and keeps the decoding of the encoding, which may refuse a task and is not the
  identity: the tags \<open>omitempty\<close> turn empty maps into nil ones.
\<close>

section \<open>The interface\<close>

record 'd store_ops =
  op_Put :: "string \<Rightarrow> addr \<Rightarrow> Task list \<Rightarrow> 'd \<Rightarrow> 'd res go"
  op_Get :: "string \<Rightarrow> Task list \<Rightarrow> 'd \<Rightarrow> (addr \<times> Task list) res go"
  op_List :: "Task list \<Rightarrow> 'd \<Rightarrow> (addr list \<times> Task list) res go"

text \<open>A memory that keeps the cells of another and may have more.\<close>

definition extends :: "Task list \<Rightarrow> Task list \<Rightarrow> bool" where
  "extends m m' \<longleftrightarrow> (\<exists>ts. m' = m @ ts)"

lemma extends_refl [simp]: "extends m m"
  by (simp add: extends_def)

lemma extends_append [simp]: "extends m (m @ ts)"
  by (auto simp: extends_def)

lemma extends_trans: "extends a b \<Longrightarrow> extends b c \<Longrightarrow> extends a c"
  by (auto simp: extends_def)

lemma extends_length: "extends m m' \<Longrightarrow> length m \<le> length m'"
  by (auto simp: extends_def)

lemma extends_nth: "extends m m' \<Longrightarrow> a < length m \<Longrightarrow> m' ! a = m ! a"
  by (auto simp: extends_def nth_append)

text \<open>The fields of a task that neither text coercion nor the omission of empty maps can touch.\<close>

definition decoded_as :: "Task \<Rightarrow> Task \<Rightarrow> bool" where
  "decoded_as t u \<longleftrightarrow>
     MetaID (Metadata u) = MetaID (Metadata t) \<and> CreatedAt (Metadata u) = CreatedAt (Metadata t)
     \<and> Timeout (Spec u) = Timeout (Spec t)
     \<and> State (Status u) = State (Status t) \<and> StartTime (Status u) = StartTime (Status t)
     \<and> FinishTime (Status u) = FinishTime (Status t) \<and> ExitCode (Status u) = ExitCode (Status t)
     \<and> RestartCount (Status u) = RestartCount (Status t)
     \<and> LastRestartTime (Status u) = LastRestartTime (Status t)"

lemma decoded_as_refl [simp]: "decoded_as t t"
  by (simp add: decoded_as_def)

text \<open>What a put leaves under its key: nothing new if it is refused.\<close>

definition kept ::
  "(Task \<Rightarrow> Task res) \<Rightarrow> string \<Rightarrow> Task \<Rightarrow> (string \<Rightarrow> Task option) \<Rightarrow> string \<Rightarrow> Task option" where
  "kept f k t v = (case f t of Inl err \<Rightarrow> v | Inr u \<Rightarrow> v(k \<mapsto> u))"

lemma kept_simps [simp]:
  "f t = Inl err \<Longrightarrow> kept f k t v = v"
  "f t = Inr u \<Longrightarrow> kept f k t v = v(k \<mapsto> u)"
  by (simp_all add: kept_def)

locale task_db =
  fixes ops :: "'d store_ops"
    and inv :: "Task list \<Rightarrow> 'd \<Rightarrow> bool"
    and val :: "Task list \<Rightarrow> 'd \<Rightarrow> string \<Rightarrow> Task option"
    and refs :: "'d \<Rightarrow> string \<Rightarrow> addr option"
    and keeps :: "'d \<Rightarrow> Task \<Rightarrow> Task res"
  assumes refs_bound: "inv m d \<Longrightarrow> refs d k = Some a \<Longrightarrow> a < length m"
    and refs_inj: "inv m d \<Longrightarrow> refs d k = Some a \<Longrightarrow> refs d k' = Some a \<Longrightarrow> k' = k"
    and inv_mem: "inv m d \<Longrightarrow> length m \<le> length m' \<Longrightarrow> inv m' d"
    and val_mem: "inv m d \<Longrightarrow> length m \<le> length m' \<Longrightarrow>
      val m' d k = (case refs d k of Some a \<Rightarrow> Some (m' ! a) | None \<Rightarrow> val m d k)"
    and keeps_shared: "inv m d \<Longrightarrow> refs d k = Some a \<Longrightarrow> keeps d t = Inr t"
    and keeps_fields: "inv m d \<Longrightarrow> keeps d t = Inr u \<Longrightarrow> decoded_as t u"
    and put: "inv m d \<Longrightarrow> a < length m \<Longrightarrow> k \<noteq> '''' \<Longrightarrow> (\<And>k'. refs d k' = Some a \<Longrightarrow> k' = k) \<Longrightarrow>
      keeps d (m ! a) = Inr u \<Longrightarrow>
      \<exists>d'. op_Put ops k a m d = Returns (Inr d') \<and> inv m d' \<and> val m d' = (val m d)(k \<mapsto> u)
         \<and> keeps d' = keeps d
         \<and> (\<forall>k' b. refs d' k' = Some b \<longrightarrow> (if k' = k then b = a else refs d k' = Some b))"
    and put_refused: "inv m d \<Longrightarrow> keeps d (m ! a) = Inl err \<Longrightarrow> op_Put ops k a m d = Returns (Inl err)"
    and get_Some: "inv m d \<Longrightarrow> val m d k = Some t \<Longrightarrow>
      \<exists>a m'. op_Get ops k m d = Returns (Inr (a, m')) \<and> extends m m' \<and> a < length m' \<and> m' ! a = t
         \<and> (\<forall>k'. refs d k' = Some a \<longrightarrow> k' = k)"
    and get_None: "inv m d \<Longrightarrow> val m d k = None \<Longrightarrow> \<exists>e. op_Get ops k m d = Returns (Inl e)"
    and list_ok: "inv m d \<Longrightarrow>
      \<exists>as m'. op_List ops m d = Returns (Inr (as, m')) \<and> extends m m'
         \<and> (\<forall>a\<in>set as. a < length m' \<and> (\<exists>k. val m d k = Some (m' ! a) \<and> (\<forall>k'. refs d k' = Some a \<longrightarrow> k' = k)))
         \<and> (\<forall>k t. val m d k = Some t \<longrightarrow> t \<in> (\<lambda>a. m' ! a) ` set as)"
begin

lemma val_extends: "inv m d \<Longrightarrow> extends m m' \<Longrightarrow> val m' d = val m d"
proof
  fix k
  assume inv: "inv m d" and ext: "extends m m'"
  show "val m' d k = val m d k"
    using val_mem [OF inv order_refl, of k] val_mem [OF inv extends_length [OF ext], of k]
      refs_bound [OF inv, of k] extends_nth [OF ext]
    by (cases "refs d k") auto
qed

lemma inv_extends: "inv m d \<Longrightarrow> extends m m' \<Longrightarrow> inv m' d"
  by (blast intro: inv_mem extends_length)

lemma val_write:
  assumes "inv m d" and "\<forall>k'. refs d k' = Some a \<longrightarrow> k' = k"
  shows "inv (m[a := t]) d" and "k' \<noteq> k \<Longrightarrow> val (m[a := t]) d k' = val m d k'"
proof -
  show "inv (m[a := t]) d"
    using assms(1) by (rule inv_mem) simp
  have len: "length m \<le> length (m[a := t])"
    by simp
  show "val (m[a := t]) d k' = val m d k'" if "k' \<noteq> k"
  proof (cases "refs d k'")
    case None
    then show ?thesis
      using val_mem [OF assms(1) len, of k'] by simp
  next
    case (Some b)
    moreover from this have "b \<noteq> a"
      using assms(2) that by metis
    ultimately show ?thesis
      using val_mem [OF assms(1) order_refl, of k'] val_mem [OF assms(1) len, of k'] by simp
  qed
qed

text \<open>A store that refuses a task shares no cell, so a write to a cell does not show in it.\<close>

lemma refused_unshared:
  assumes "inv m d" and "keeps d t = Inl err"
  shows "refs d k = None"
  using assms keeps_shared [OF assms(1), of k] by (cases "refs d k") simp_all

lemma refused_write:
  assumes "inv m d" and "keeps d t = Inl err" and "length m \<le> length m'"
  shows "inv m' d" and "val m' d = val m d"
proof -
  show "inv m' d"
    using assms(1,3) by (rule inv_mem)
  show "val m' d = val m d"
  proof
    fix k
    show "val m' d k = val m d k"
      using val_mem [OF assms(1,3), of k] refused_unshared [OF assms(1,2), of k] by simp
  qed
qed

text \<open>Writing a cell and putting it: the key reads as what is kept of it, the others as before.\<close>

lemma write_put:
  assumes "inv m d" and "a < length m" and "k \<noteq> ''''"
    and "\<forall>k'. refs d k' = Some a \<longrightarrow> k' = k" and "keeps d t = Inr u"
  shows "\<exists>d'. op_Put ops k a (m[a := t]) d = Returns (Inr d') \<and> inv (m[a := t]) d'
     \<and> val (m[a := t]) d' = (val m d)(k \<mapsto> u) \<and> keeps d' = keeps d
     \<and> (\<forall>k'. refs d' k' = Some a \<longrightarrow> k' = k)"
proof -
  have "\<exists>d'. op_Put ops k a (m[a := t]) d = Returns (Inr d') \<and> inv (m[a := t]) d'
     \<and> val (m[a := t]) d' = (val (m[a := t]) d)(k \<mapsto> u) \<and> keeps d' = keeps d
     \<and> (\<forall>k' b. refs d' k' = Some b \<longrightarrow> (if k' = k then b = a else refs d k' = Some b))"
    by (rule put [OF val_write(1) [OF assms(1,4)] _ assms(3)]) (use assms(2,4,5) in auto)
  then obtain d' where d': "op_Put ops k a (m[a := t]) d = Returns (Inr d')" "inv (m[a := t]) d'"
    "val (m[a := t]) d' = (val (m[a := t]) d)(k \<mapsto> u)" "keeps d' = keeps d"
    "\<forall>k' b. refs d' k' = Some b \<longrightarrow> (if k' = k then b = a else refs d k' = Some b)"
    by blast
  have other: "(val (m[a := t]) d)(k \<mapsto> u) = (val m d)(k \<mapsto> u)"
    using val_write(2) [OF assms(1,4)] by (simp add: fun_eq_iff)
  have "k' = k" if "refs d' k' = Some a" for k'
    using d'(5) [rule_format, OF that] assms(4) [rule_format, of k'] by (cases "k' = k") simp_all
  with d'(1,2,4) d'(3) [unfolded other] show ?thesis
    by (intro exI [of _ d'] conjI allI impI)
qed

lemma write_refused:
  assumes "inv m d" and "a < length m" and "keeps d t = Inl err"
  shows "op_Put ops k a (m[a := t]) d = Returns (Inl err)"
    and "inv (m[a := t]) d" and "val (m[a := t]) d = val m d"
  using put_refused [OF refused_write(1) [OF assms(1,3), of "m[a := t]"], of a err k]
    refused_write [OF assms(1,3), of "m[a := t]"] assms(2,3)
  by simp_all

lemma fresh_unshared: "inv m d \<Longrightarrow> refs d k' = Some (length m) \<Longrightarrow> k' = k"
  using refs_bound by blast

text \<open>Putting a new object.\<close>

lemma alloc_put:
  assumes "inv m d" and "k \<noteq> ''''" and "keeps d t = Inr u"
  shows "\<exists>d'. op_Put ops k (length m) (m @ [t]) d = Returns (Inr d') \<and> inv (m @ [t]) d'
     \<and> val (m @ [t]) d' = (val m d)(k \<mapsto> u) \<and> keeps d' = keeps d
     \<and> (\<forall>k'. refs d' k' = Some (length m) \<longrightarrow> k' = k)"
proof -
  have ext: "extends m (m @ [t])" by simp
  have inv: "inv (m @ [t]) d" and val: "val (m @ [t]) d = val m d"
    by (rule inv_extends [OF assms(1) ext], rule val_extends [OF assms(1) ext])
  have "\<exists>d'. op_Put ops k (length m) ((m @ [t])[length m := t]) d = Returns (Inr d')
     \<and> inv ((m @ [t])[length m := t]) d'
     \<and> val ((m @ [t])[length m := t]) d' = (val (m @ [t]) d)(k \<mapsto> u) \<and> keeps d' = keeps d
     \<and> (\<forall>k'. refs d' k' = Some (length m) \<longrightarrow> k' = k)"
    by (rule write_put [OF inv _ assms(2)]) (auto simp: assms(3) dest: refs_bound [OF assms(1)])
  then show ?thesis by (simp add: val)
qed

lemma alloc_refused:
  assumes "inv m d" and "keeps d t = Inl err"
  shows "op_Put ops k (length m) (m @ [t]) d = Returns (Inl err)"
    and "inv (m @ [t]) d" and "val (m @ [t]) d = val m d"
  using put_refused [OF inv_extends [OF assms(1), of "m @ [t]"], of "length m" err k]
    inv_extends [OF assms(1), of "m @ [t]"] val_extends [OF assms(1), of "m @ [t]"] assms(2)
  by simp_all

end

text \<open>A store that keeps every task as it is.\<close>

locale exact_db = task_db +
  assumes exact: "keeps d t = Inr t"

section \<open>The in-memory store\<close>

definition mem_ops ::
  "(value \<Rightarrow> string) \<Rightarrow> (addr gomap \<Rightarrow> addr gomap) \<Rightarrow> InMemoryTaskStore store_ops" where
  "mem_ops fmt_v iter =
     \<lparr>op_Put = (\<lambda>k a m d. Returns (InMemoryTaskStore_Put fmt_v k (VTask a) d)),
      op_Get = (\<lambda>k m d. Returns (map_sum id (\<lambda>a. (a, m)) (InMemoryTaskStore_Get k d))),
      op_List = (\<lambda>m d. Returns (Inr (InMemoryTaskStore_List iter d, m)))\<rparr>"

definition mem_refs :: "InMemoryTaskStore \<Rightarrow> string \<Rightarrow> addr option" where
  "mem_refs d = map_of (Db d)"

definition mem_keeps :: "InMemoryTaskStore \<Rightarrow> Task \<Rightarrow> Task res" where
  "mem_keeps d t = Inr t"

definition mem_val :: "Task list \<Rightarrow> InMemoryTaskStore \<Rightarrow> string \<Rightarrow> Task option" where
  "mem_val m d k = map_option (\<lambda>a. m ! a) (mem_refs d k)"

definition mem_inv ::
  "(addr gomap \<Rightarrow> addr gomap) \<Rightarrow> Task list \<Rightarrow> InMemoryTaskStore \<Rightarrow> bool" where
  "mem_inv iter m d \<longleftrightarrow>
     iteration_order iter \<and> mem_ok d
     \<and> (\<forall>k a. mem_refs d k = Some a \<longrightarrow> a < length m \<and> (\<forall>k'. mem_refs d k' = Some a \<longrightarrow> k' = k))"

lemma mem_inv_new: "iteration_order iter \<Longrightarrow> mem_inv iter m NewInMemoryTaskStore"
  by (simp add: mem_inv_def NewInMemoryTaskStore_def mem_ok_def mem_refs_def)

lemma mem_list_entries:
  assumes "mem_inv iter m d"
  shows "a \<in> set (InMemoryTaskStore_List iter d) \<longleftrightarrow> (\<exists>k. mem_refs d k = Some a)"
proof -
  have "set (InMemoryTaskStore_List iter d) = ran (map_of (Db d))"
    using assms
    by (simp add: mem_inv_def InMemoryTaskStore_List_def set_iteration mem_ok_def ran_map_of)
  then show ?thesis
    by (simp add: ran_def mem_refs_def)
qed

interpretation mem_db: exact_db "mem_ops fmt_v iter" "mem_inv iter" mem_val mem_refs mem_keeps
  for fmt_v iter
proof unfold_locales
  fix m m' :: "Task list" and d :: InMemoryTaskStore and k k' a t u err
  assume inv: "mem_inv iter m d"
  show "mem_refs d k = Some a \<Longrightarrow> a < length m"
    using inv by (simp add: mem_inv_def)
  show "mem_refs d k = Some a \<Longrightarrow> mem_refs d k' = Some a \<Longrightarrow> k' = k"
    using inv by (simp add: mem_inv_def)
  show "length m \<le> length m' \<Longrightarrow> mem_inv iter m' d"
    using inv by (fastforce simp: mem_inv_def)
  show "mem_val m' d k = (case mem_refs d k of Some a \<Rightarrow> Some (m' ! a) | None \<Rightarrow> mem_val m d k)"
    by (simp add: mem_val_def split: option.split)
  show "\<exists>d'. op_Put (mem_ops fmt_v iter) k a m d = Returns (Inr d') \<and> mem_inv iter m d'
      \<and> mem_val m d' = (mem_val m d)(k \<mapsto> u) \<and> mem_keeps d' = mem_keeps d
      \<and> (\<forall>k' b. mem_refs d' k' = Some b \<longrightarrow> (if k' = k then b = a else mem_refs d k' = Some b))"
    if "a < length m" and "\<And>k'. mem_refs d k' = Some a \<Longrightarrow> k' = k" and "mem_keeps d (m ! a) = Inr u"
    using inv that
    by (auto simp: mem_ops_def InMemoryTaskStore_Put_def mem_inv_def mem_ok_def mem_refs_def
        mem_val_def mem_keeps_def fun_eq_iff)
  show "mem_keeps d (m ! a) = Inl err \<Longrightarrow> op_Put (mem_ops fmt_v iter) k a m d = Returns (Inl err)"
    by (simp add: mem_keeps_def)
  show "mem_keeps d t = Inr u \<Longrightarrow> decoded_as t u"
    by (simp add: mem_keeps_def)
  show "\<exists>a m'. op_Get (mem_ops fmt_v iter) k m d = Returns (Inr (a, m')) \<and> extends m m'
      \<and> a < length m' \<and> m' ! a = t \<and> (\<forall>k'. mem_refs d k' = Some a \<longrightarrow> k' = k)"
    if "mem_val m d k = Some t"
    using inv that
    by (auto simp: mem_ops_def InMemoryTaskStore_Get_def mem_inv_def mem_val_def mem_refs_def)
  show "\<exists>e. op_Get (mem_ops fmt_v iter) k m d = Returns (Inl e)" if "mem_val m d k = None"
    using that by (simp add: mem_ops_def InMemoryTaskStore_Get_def mem_val_def mem_refs_def)
  have list_facts: "op_List (mem_ops fmt_v iter) m d
        = Returns (Inr (InMemoryTaskStore_List iter d, m)) \<and> extends m m
      \<and> (\<forall>a\<in>set (InMemoryTaskStore_List iter d). a < length m
           \<and> (\<exists>k. mem_val m d k = Some (m ! a) \<and> (\<forall>k'. mem_refs d k' = Some a \<longrightarrow> k' = k)))
      \<and> (\<forall>k t. mem_val m d k = Some t \<longrightarrow> t \<in> (\<lambda>a. m ! a) ` set (InMemoryTaskStore_List iter d))"
  proof (intro conjI ballI allI impI)
    fix b
    assume "b \<in> set (InMemoryTaskStore_List iter d)"
    then obtain k where k: "mem_refs d k = Some b"
      using mem_list_entries [OF inv] by blast
    with inv show "b < length m"
      by (simp add: mem_inv_def)
    from k inv have "mem_val m d k = Some (m ! b) \<and> (\<forall>k'. mem_refs d k' = Some b \<longrightarrow> k' = k)"
      by (simp add: mem_inv_def mem_val_def)
    then show "\<exists>k. mem_val m d k = Some (m ! b) \<and> (\<forall>k'. mem_refs d k' = Some b \<longrightarrow> k' = k)"
      by blast
  next
    fix k t
    assume "mem_val m d k = Some t"
    then obtain b where "mem_refs d k = Some b" and "t = m ! b"
      by (auto simp: mem_val_def)
    then show "t \<in> (\<lambda>a. m ! a) ` set (InMemoryTaskStore_List iter d)"
      using mem_list_entries [OF inv] by blast
  qed (simp_all add: mem_ops_def)
  show "\<exists>as m'. op_List (mem_ops fmt_v iter) m d = Returns (Inr (as, m')) \<and> extends m m'
      \<and> (\<forall>a\<in>set as. a < length m'
           \<and> (\<exists>k. mem_val m d k = Some (m' ! a) \<and> (\<forall>k'. mem_refs d k' = Some a \<longrightarrow> k' = k)))
      \<and> (\<forall>k t. mem_val m d k = Some t \<longrightarrow> t \<in> (\<lambda>a. m' ! a) ` set as)"
    by (intro exI [of _ "InMemoryTaskStore_List iter d"] exI [of _ m]) (rule list_facts)
qed (simp_all add: mem_keeps_def)

section \<open>The persistent store\<close>

definition bolt_ops :: "'db bolt \<Rightarrow> Task json \<Rightarrow> string \<Rightarrow> 'db store_ops" where
  "bolt_ops b j bucket =
     \<lparr>op_Put = (\<lambda>k a m d. TaskStore_Put b j bucket m k (VTask a) d),
      op_Get = (\<lambda>k m d. TaskStore_Get b j bucket m k d),
      op_List = (\<lambda>m d. TaskStore_List b j bucket m d)\<rparr>"

text \<open>
  What is relied on: a bucket's entries are its keys with their values, and what \<open>Marshal\<close> encodes
  \<open>Unmarshal\<close> decodes, to a task with the same numbers, times and identifier. \<open>Marshal\<close> may refuse a
  task (a year out of range); of the text and the maps nothing is assumed, since invalid UTF-8 is
  replaced and empty maps are omitted.
\<close>

definition bolt_entries_documented :: "'db bolt \<Rightarrow> bool" where
  "bolt_entries_documented b \<longleftrightarrow>
     (\<forall>n db k v. has_bucket b n db \<longrightarrow>
        ((k, v) \<in> set (bucket_entries b n db) \<longleftrightarrow> bucket_get b n k db = Some v))"

definition json_documented :: "Task json \<Rightarrow> bool" where
  "json_documented j \<longleftrightarrow>
     (\<forall>t buf. Marshal j t = Inr buf \<longrightarrow> (\<exists>u. Unmarshal j buf = Inr u \<and> decoded_as t u))"

definition bolt_keeps :: "Task json \<Rightarrow> Task \<Rightarrow> Task res" where
  "bolt_keeps j t = (case Marshal j t of Inl err \<Rightarrow> Inl err | Inr buf \<Rightarrow> Unmarshal j buf)"

definition bolt_val :: "'db bolt \<Rightarrow> Task json \<Rightarrow> string \<Rightarrow> Task list \<Rightarrow> 'db \<Rightarrow> string \<Rightarrow> Task option" where
  "bolt_val b j bucket m d k =
     (case bucket_get b bucket k d of
        None \<Rightarrow> None
      | Some buf \<Rightarrow> (case Unmarshal j buf of Inl _ \<Rightarrow> None | Inr t \<Rightarrow> Some t))"

definition bolt_inv :: "'db bolt \<Rightarrow> Task json \<Rightarrow> string \<Rightarrow> Task list \<Rightarrow> 'db \<Rightarrow> bool" where
  "bolt_inv b j bucket m d \<longleftrightarrow>
     bolt_documented b \<and> bolt_entries_documented b \<and> json_documented j \<and> has_bucket b bucket d
     \<and> (\<forall>k buf. bucket_get b bucket k d = Some buf \<longrightarrow> (\<exists>t. Unmarshal j buf = Inr t))"

lemma bolt_keepsE:
  assumes "json_documented j"
  obtains (refused) err where "Marshal j t = Inl err" and "bolt_keeps j t = Inl err"
  | (encoded) buf u where "Marshal j t = Inr buf" and "Unmarshal j buf = Inr u"
      and "bolt_keeps j t = Inr u" and "decoded_as t u"
proof (cases "Marshal j t")
  case (Inl err)
  then show thesis
    by (intro refused) (simp_all add: bolt_keeps_def)
next
  case (Inr buf)
  then obtain u where "Unmarshal j buf = Inr u" and "decoded_as t u"
    using assms unfolding json_documented_def by blast
  with Inr show thesis
    by (intro encoded) (simp_all add: bolt_keeps_def)
qed

lemma bolt_put_val:
  assumes inv: "bolt_inv b j bucket m d" and k: "k \<noteq> ''''" and keeps: "bolt_keeps j (m ! a) = Inr u"
  shows "\<exists>d'. TaskStore_Put b j bucket m k (VTask a) d = Returns (Inr d') \<and> bolt_inv b j bucket m d'
     \<and> bolt_val b j bucket m d' = (bolt_val b j bucket m d)(k \<mapsto> u)"
proof -
  have doc: "bolt_documented b" "has_bucket b bucket d" and j: "json_documented j"
    using inv by (simp_all add: bolt_inv_def)
  obtain buf where buf: "Marshal j (m ! a) = Inr buf" "Unmarshal j buf = Inr u"
    using keeps by (cases rule: bolt_keepsE [OF j, of "m ! a"]) auto
  obtain d' where d': "bucket_put b bucket k buf d = Inr d'"
    "\<forall>n'. has_bucket b n' d' = has_bucket b n' d"
    "\<forall>n' k'. bucket_get b n' k' d' =
       (if n' = bucket \<and> k' = k then Some buf else bucket_get b n' k' d)"
    by (rule bucket_put_ok [OF doc k])
  have "TaskStore_Put b j bucket m k (VTask a) d = Returns (Inr d')"
    using doc buf(1) d'(1) by (simp add: TaskStore_Put_def bolt_Update_def)
  moreover have "bolt_inv b j bucket m d'"
    using inv d' buf(2) by (simp add: bolt_inv_def)
  moreover have "bolt_val b j bucket m d' = (bolt_val b j bucket m d)(k \<mapsto> u)"
    using d'(3) buf(2) by (simp add: bolt_val_def fun_eq_iff)
  ultimately show ?thesis by blast
qed

lemma bolt_put_refused:
  assumes inv: "bolt_inv b j bucket m d" and keeps: "bolt_keeps j (m ! a) = Inl err"
  shows "TaskStore_Put b j bucket m k (VTask a) d = Returns (Inl err)"
proof -
  have doc: "bolt_documented b" and j: "json_documented j"
    using inv by (simp_all add: bolt_inv_def)
  have "Marshal j (m ! a) = Inl err"
    using keeps by (cases rule: bolt_keepsE [OF j, of "m ! a"]) auto
  with doc show ?thesis
    by (simp add: TaskStore_Put_def bolt_Update_def)
qed

lemma decode_prefix_all:
  "\<forall>kv\<in>set kvs. \<exists>t. Unmarshal j (snd kv) = Inr t \<Longrightarrow>
     map Inr (decode_prefix j kvs) = map (\<lambda>kv. Unmarshal j (snd kv)) kvs"
  by (induction j kvs rule: decode_prefix.induct) (auto split: sum.splits)

lemma bolt_val_Some_iff:
  "bolt_val b j bucket m d k = Some t
     \<longleftrightarrow> (\<exists>buf. bucket_get b bucket k d = Some buf \<and> Unmarshal j buf = Inr t)"
  by (cases "bucket_get b bucket k d"; cases "Unmarshal j (the (bucket_get b bucket k d))")
    (auto simp: bolt_val_def)

lemma bolt_list_val:
  assumes inv: "bolt_inv b j bucket m d"
  obtains ts where "TaskStore_List b j bucket m d
      = Returns (Inr ([length m..<length m + length ts], m @ ts))"
    and "\<And>t. t \<in> set ts \<longleftrightarrow> (\<exists>k. bolt_val b j bucket m d k = Some t)"
proof
  let ?ts = "decode_prefix j (bucket_entries b bucket d)"
  have doc: "bolt_documented b" "has_bucket b bucket d"
    using inv by (simp_all add: bolt_inv_def)
  then show "TaskStore_List b j bucket m d
      = Returns (Inr ([length m..<length m + length ?ts], m @ ?ts))"
    by (simp add: TaskStore_List_def bolt_View_def Let_def)
  have entries: "(k, v) \<in> set (bucket_entries b bucket d) \<longleftrightarrow> bucket_get b bucket k d = Some v" for k v
    using inv by (simp add: bolt_inv_def bolt_entries_documented_def)
  have "map Inr ?ts = map (\<lambda>kv. Unmarshal j (snd kv)) (bucket_entries b bucket d)"
    by (rule decode_prefix_all) (use inv entries in \<open>auto simp: bolt_inv_def\<close>)
  then have "(Inr :: Task \<Rightarrow> Task res) ` set ?ts
      = (\<lambda>kv. Unmarshal j (snd kv)) ` set (bucket_entries b bucket d)"
    by (metis list.set_map)
  then have mem: "t \<in> set ?ts \<longleftrightarrow> (\<exists>kv\<in>set (bucket_entries b bucket d). Unmarshal j (snd kv) = Inr t)" for t
    by (metis (no_types, lifting) Inr_inject image_iff)
  have "(\<exists>kv\<in>set (bucket_entries b bucket d). Unmarshal j (snd kv) = Inr t)
      \<longleftrightarrow> (\<exists>k v. bucket_get b bucket k d = Some v \<and> Unmarshal j v = Inr t)" for t
    by (simp add: Bex_def flip: entries)
  then show "t \<in> set ?ts \<longleftrightarrow> (\<exists>k. bolt_val b j bucket m d k = Some t)" for t
    unfolding mem bolt_val_Some_iff by simp
qed

lemma image_appended: "(\<lambda>a. (m @ ts) ! a) ` set [length m..<length m + length ts] = set ts"
proof -
  have "map (\<lambda>a. (m @ ts) ! a) [length m..<length m + length ts] = ts"
    by (rule nth_equalityI) simp_all
  then show ?thesis by (metis list.set_map)
qed

interpretation bolt_db: task_db "bolt_ops b j bucket" "bolt_inv b j bucket" "bolt_val b j bucket"
  "\<lambda>_ _. None" "\<lambda>_. bolt_keeps j"
  for b :: "'db bolt" and j bucket
proof unfold_locales
  fix m m' :: "Task list" and d :: 'db and k k' a t u err
  assume inv: "bolt_inv b j bucket m d"
  show "bolt_inv b j bucket m' d"
    using inv by (simp add: bolt_inv_def)
  show "bolt_val b j bucket m' d k
      = (case None of Some a \<Rightarrow> Some (m' ! a) | None \<Rightarrow> bolt_val b j bucket m d k)"
    by (simp add: bolt_val_def)
  show "\<exists>d'. op_Put (bolt_ops b j bucket) k a m d = Returns (Inr d') \<and> bolt_inv b j bucket m d'
      \<and> bolt_val b j bucket m d' = (bolt_val b j bucket m d)(k \<mapsto> u) \<and> bolt_keeps j = bolt_keeps j
      \<and> (\<forall>k' c. None = Some c \<longrightarrow> (if k' = k then c = a else None = Some c))"
    if "k \<noteq> ''''" and "bolt_keeps j (m ! a) = Inr u"
    using bolt_put_val [OF inv that] by (simp add: bolt_ops_def)
  show "bolt_keeps j (m ! a) = Inl err \<Longrightarrow> op_Put (bolt_ops b j bucket) k a m d = Returns (Inl err)"
    using bolt_put_refused [OF inv] by (simp add: bolt_ops_def)
  show "bolt_keeps j t = Inr u \<Longrightarrow> decoded_as t u"
    using inv by (auto simp: bolt_inv_def elim: bolt_keepsE [where t = t])
  show "\<exists>a m'. op_Get (bolt_ops b j bucket) k m d = Returns (Inr (a, m')) \<and> extends m m'
      \<and> a < length m' \<and> m' ! a = t \<and> (\<forall>k'. None = Some a \<longrightarrow> k' = k)"
    if "bolt_val b j bucket m d k = Some t"
  proof (intro exI conjI)
    show "op_Get (bolt_ops b j bucket) k m d = Returns (Inr (length m, m @ [t]))"
      using inv that
      by (auto simp: bolt_ops_def TaskStore_Get_def bolt_View_def bolt_inv_def bolt_val_def
          alloc_def split: option.splits sum.splits)
  qed simp_all
  show "\<exists>e. op_Get (bolt_ops b j bucket) k m d = Returns (Inl e)"
    if "bolt_val b j bucket m d k = None"
    using inv that
    by (auto simp: bolt_ops_def TaskStore_Get_def bolt_View_def bolt_inv_def bolt_val_def
        split: option.splits sum.splits)
  obtain ts where ts: "TaskStore_List b j bucket m d
      = Returns (Inr ([length m..<length m + length ts], m @ ts))"
    "\<And>t. t \<in> set ts \<longleftrightarrow> (\<exists>k. bolt_val b j bucket m d k = Some t)"
    by (rule bolt_list_val [OF inv]) blast
  show "\<exists>as m'. op_List (bolt_ops b j bucket) m d = Returns (Inr (as, m')) \<and> extends m m'
      \<and> (\<forall>a\<in>set as. a < length m'
           \<and> (\<exists>k. bolt_val b j bucket m d k = Some (m' ! a) \<and> (\<forall>k'. None = Some a \<longrightarrow> k' = k)))
      \<and> (\<forall>k t. bolt_val b j bucket m d k = Some t \<longrightarrow> t \<in> (\<lambda>a. m' ! a) ` set as)"
  proof (intro exI [of _ "[length m..<length m + length ts]"] exI [of _ "m @ ts"] conjI ballI allI impI)
    show "op_List (bolt_ops b j bucket) m d
        = Returns (Inr ([length m..<length m + length ts], m @ ts))"
      using ts(1) by (simp add: bolt_ops_def)
    show "extends m (m @ ts)" by simp
    show "t \<in> (\<lambda>a. (m @ ts) ! a) ` set [length m..<length m + length ts]"
      if "bolt_val b j bucket m d k = Some t" for k t
      using that ts(2) unfolding image_appended by blast
    fix a
    assume a: "a \<in> set [length m..<length m + length ts]"
    then show "a < length (m @ ts)" by simp
    from a have "(m @ ts) ! a \<in> set ts"
      using image_appended [of m ts] by blast
    then show "\<exists>k. bolt_val b j bucket m d k = Some ((m @ ts) ! a) \<and> (\<forall>k'. None = Some a \<longrightarrow> k' = k)"
      using ts(2) by simp
  qed
qed simp_all

section \<open>An encoding, for the witnesses\<close>

text \<open>Tasks are countable, so there is an encoding as strings; it omits empty maps as the tags say.\<close>

instance State :: countable
  by countable_datatype

instance ResourceRequests_ext :: (countable) countable
  by (rule countable_classI [of "\<lambda>r. to_nat (CPU r, Memory r, Disk r, ResourceRequests.more r)"]) simp

instance NetworkConfig_ext :: (countable, countable, countable) countable
  by (rule countable_classI [of "\<lambda>r. to_nat (ExposedPorts r, PortBindings r, NetworkConfig.more r)"]) simp

instance StorageConfig_ext :: (countable, countable) countable
  by (rule countable_classI [of "\<lambda>r. to_nat (Volumes r, StorageConfig.more r)"]) simp

instance SandboxConfig_ext :: (countable, countable, countable) countable
  by (rule countable_classI [of "\<lambda>r. to_nat (SanboxID r, SandboxName r, Image r, EnvVars r,
      SandboxMetadata r, SandboxTypeField r, Resources r, Network r, Storage r, WorkingDir r,
      SandboxConfig.more r)"]) simp

instance TaskSpec_ext :: (countable) countable
  by (rule countable_classI [of "\<lambda>r. to_nat (SpecConfig r, Command r, Timeout r, TaskSpec.more r)"]) simp

instance TaskStatus_ext :: (countable) countable
  by (rule countable_classI [of "\<lambda>r. to_nat (State r, ContainerID r, StartTime r, FinishTime r,
      Message r, Reason r, ExitCode r, RestartCount r, LastRestartTime r, TaskStatus.more r)"]) simp

instance TaskMetadata_ext :: (countable) countable
  by (rule countable_classI [of "\<lambda>r. to_nat (MetaID r, MetaName r, Namespace r, Labels r, CreatedAt r,
      TaskMetadata.more r)"]) simp

instance Task_ext :: (countable) countable
  by (rule countable_classI [of "\<lambda>r. to_nat (Metadata r, Spec r, Status r, Task.more r)"]) simp

definition omit_map :: "'v gomap option \<Rightarrow> 'v gomap option" where
  "omit_map m = (if m = Some [] then None else m)"

definition omit_empty :: "Task \<Rightarrow> Task" where
  "omit_empty t =
     (let cfg = SpecConfig (Spec t);
          cfg = cfg\<lparr>Network := \<lparr>ExposedPorts = omit_map (ExposedPorts (Network cfg)),
                     PortBindings = omit_map (PortBindings (Network cfg))\<rparr>,
                   Storage := \<lparr>Volumes = omit_map (Volumes (Storage cfg))\<rparr>\<rparr>
      in t\<lparr>Metadata := (Metadata t)\<lparr>Labels := omit_map (Labels (Metadata t))\<rparr>,
           Spec := (Spec t)\<lparr>SpecConfig := cfg\<rparr>\<rparr>)"

definition any_json :: "Task json" where
  "any_json =
     \<lparr>Marshal = (\<lambda>t. Inr (replicate (to_nat (omit_empty t)) (CHR ''x''))),
      Unmarshal = (\<lambda>s. Inr (from_nat (length s)))\<rparr>"

lemma any_json_documented: "json_documented any_json"
  by (simp add: json_documented_def any_json_def decoded_as_def omit_empty_def Let_def)

lemma map_bolt_entries: "bolt_entries_documented map_bolt"
  unfolding bolt_entries_documented_def
proof (intro allI impI)
  fix n k v and db :: map_db
  assume "has_bucket map_bolt n db"
  then obtain m where m: "map_of db n = Some m"
    by (auto simp: map_bolt_def)
  have "(k, v) \<in> set (AList.clearjunk m) \<longleftrightarrow> map_of m k = Some v"
    using distinct_clearjunk [of m] map_of_clearjunk [of m] by (metis map_of_eq_Some_iff)
  then show "(k, v) \<in> set (bucket_entries map_bolt n db) \<longleftrightarrow> bucket_get map_bolt n k db = Some v"
    using m by (simp add: map_bolt_def)
qed

lemma bolt_inv_empty: "bolt_inv map_bolt any_json n m [(n, [])]"
  by (simp add: bolt_inv_def map_bolt_documented map_bolt_entries any_json_documented)
    (simp add: map_bolt_def)

end
