(* ===== verification/Any_Store.thy ===== *)
theory Any_Store
  imports Task_Db
begin

text \<open>
  The store behind a value of the interface \<open>ports.Store\<close>, whichever implementation it is: what the factory
  of \<open>adapters/store/factory.go\<close> and the manager's constructor return. It keeps the contract of \<open>Task_Db\<close>.
\<close>

section \<open>The operations\<close>

text \<open>The methods of the dynamic type of a \<open>ports.Store\<close>: a nil interface and a nil pointer have none
  that can run.\<close>

definition any_task_ops ::
  "(value \<Rightarrow> string) \<Rightarrow> (addr gomap \<Rightarrow> addr gomap) \<Rightarrow> 'db bolt \<Rightarrow> Task json \<Rightarrow> 'db any_store store_ops"
where
  "any_task_ops fmt_v iter b j =
     \<lparr>op_Put = (\<lambda>k a m s. case s of
          MemoryTaskStore i \<Rightarrow> go_bind (op_Put (mem_ops fmt_v iter) k a m i)
            (\<lambda>r. Returns (map_sum (\<lambda>e. e) MemoryTaskStore r))
        | BoltTaskStore db \<Rightarrow> go_bind (op_Put (bolt_ops b j ''tasks'') k a m db)
            (\<lambda>r. Returns (map_sum (\<lambda>e. e) BoltTaskStore r))
        | _ \<Rightarrow> Panics NilDereference),
      op_Get = (\<lambda>k m s. case s of
          MemoryTaskStore i \<Rightarrow> op_Get (mem_ops fmt_v iter) k m i
        | BoltTaskStore db \<Rightarrow> op_Get (bolt_ops b j ''tasks'') k m db
        | _ \<Rightarrow> Panics NilDereference),
      op_List = (\<lambda>m s. case s of
          MemoryTaskStore i \<Rightarrow> op_List (mem_ops fmt_v iter) m i
        | BoltTaskStore db \<Rightarrow> op_List (bolt_ops b j ''tasks'') m db
        | _ \<Rightarrow> Panics NilDereference)\<rparr>"

section \<open>The contract\<close>

definition any_inv ::
  "(addr gomap \<Rightarrow> addr gomap) \<Rightarrow> 'db bolt \<Rightarrow> Task json \<Rightarrow> Task list \<Rightarrow> 'db any_store \<Rightarrow> bool" where
  "any_inv iter b j m s =
     (case s of
        MemoryTaskStore i \<Rightarrow> mem_inv iter m i
      | BoltTaskStore db \<Rightarrow> bolt_inv b j ''tasks'' m db
      | _ \<Rightarrow> False)"

definition any_val ::
  "'db bolt \<Rightarrow> Task json \<Rightarrow> Task list \<Rightarrow> 'db any_store \<Rightarrow> string \<Rightarrow> Task option" where
  "any_val b j m s k =
     (case s of
        MemoryTaskStore i \<Rightarrow> mem_val m i k
      | BoltTaskStore db \<Rightarrow> bolt_val b j ''tasks'' m db k
      | _ \<Rightarrow> None)"

definition any_refs :: "'db any_store \<Rightarrow> string \<Rightarrow> addr option" where
  "any_refs s k = (case s of MemoryTaskStore i \<Rightarrow> mem_refs i k | _ \<Rightarrow> None)"

definition any_keeps :: "Task json \<Rightarrow> 'db any_store \<Rightarrow> Task \<Rightarrow> Task res" where
  "any_keeps j s = (case s of MemoryTaskStore i \<Rightarrow> mem_keeps i | _ \<Rightarrow> bolt_keeps j)"

lemma any_store_simps [simp]:
  "any_inv iter b j m (MemoryTaskStore i) = mem_inv iter m i"
  "any_inv iter b j m (BoltTaskStore db) = bolt_inv b j ''tasks'' m db"
  "any_val b j m (MemoryTaskStore i) = mem_val m i"
  "any_val b j m (BoltTaskStore db) = bolt_val b j ''tasks'' m db"
  "any_refs (MemoryTaskStore i) = mem_refs i"
  "any_refs (BoltTaskStore db) = (\<lambda>_. None)"
  "any_refs NilStore = (\<lambda>_. None)"
  "any_refs NilBoltTaskStore = (\<lambda>_. None)"
  "any_keeps j (MemoryTaskStore i) = mem_keeps i"
  "any_keeps j (BoltTaskStore db) = bolt_keeps j"
  by (simp_all add: any_inv_def any_val_def any_refs_def any_keeps_def fun_eq_iff)

lemma any_inv_cases:
  assumes "any_inv iter b j m s"
  obtains i where "s = MemoryTaskStore i" and "mem_inv iter m i"
  | db where "s = BoltTaskStore db" and "bolt_inv b j ''tasks'' m db"
  using assms by (cases s) (auto simp: any_inv_def)

lemma any_ops_simps [simp]:
  "op_Put (any_task_ops fmt_v iter b j) k a m (MemoryTaskStore i)
     = go_bind (op_Put (mem_ops fmt_v iter) k a m i) (\<lambda>r. Returns (map_sum (\<lambda>e. e) MemoryTaskStore r))"
  "op_Put (any_task_ops fmt_v iter b j) k a m (BoltTaskStore db)
     = go_bind (op_Put (bolt_ops b j ''tasks'') k a m db) (\<lambda>r. Returns (map_sum (\<lambda>e. e) BoltTaskStore r))"
  "op_Get (any_task_ops fmt_v iter b j) k m (MemoryTaskStore i) = op_Get (mem_ops fmt_v iter) k m i"
  "op_Get (any_task_ops fmt_v iter b j) k m (BoltTaskStore db) = op_Get (bolt_ops b j ''tasks'') k m db"
  "op_List (any_task_ops fmt_v iter b j) m (MemoryTaskStore i) = op_List (mem_ops fmt_v iter) m i"
  "op_List (any_task_ops fmt_v iter b j) m (BoltTaskStore db) = op_List (bolt_ops b j ''tasks'') m db"
  by (simp_all add: any_task_ops_def)

interpretation any_db: task_db "any_task_ops fmt_v iter b j" "any_inv iter b j" "any_val b j" any_refs
  "any_keeps j"
  for fmt_v iter and b :: "'db bolt" and j
proof unfold_locales
  fix m m' :: "Task list" and d :: "'db any_store" and k k' a t u err
  assume inv: "any_inv iter b j m d"
  show "any_refs d k = Some a \<Longrightarrow> a < length m"
    using inv mem_db.refs_bound by (auto elim!: any_inv_cases)
  show "any_refs d k = Some a \<Longrightarrow> any_refs d k' = Some a \<Longrightarrow> k' = k"
    using inv mem_db.refs_inj by (auto elim!: any_inv_cases)
  show "length m \<le> length m' \<Longrightarrow> any_inv iter b j m' d"
    using inv mem_db.inv_mem bolt_db.inv_mem by (fastforce elim!: any_inv_cases)
  show "length m \<le> length m' \<Longrightarrow>
      any_val b j m' d k = (case any_refs d k of Some a \<Rightarrow> Some (m' ! a) | None \<Rightarrow> any_val b j m d k)"
    using inv
  proof (cases rule: any_inv_cases)
    case (1 i)
    then show "length m \<le> length m' \<Longrightarrow> ?thesis"
      using mem_db.val_mem [OF 1(2), of m' k] unfolding 1(1) any_store_simps by simp
  next
    case (2 db)
    then show "length m \<le> length m' \<Longrightarrow> ?thesis"
      using bolt_db.val_mem [OF 2(2), of m' k] unfolding 2(1) any_store_simps by simp
  qed
  show "\<exists>d'. op_Put (any_task_ops fmt_v iter b j) k a m d = Returns (Inr d') \<and> any_inv iter b j m d'
      \<and> any_val b j m d' = (any_val b j m d)(k \<mapsto> u) \<and> any_keeps j d' = any_keeps j d
      \<and> (\<forall>k' b. any_refs d' k' = Some b \<longrightarrow> (if k' = k then b = a else any_refs d k' = Some b))"
    if "a < length m" and "k \<noteq> ''''" and "\<And>k'. any_refs d k' = Some a \<Longrightarrow> k' = k"
      and "any_keeps j d (m ! a) = Inr u"
    using inv
  proof (cases rule: any_inv_cases)
    case (1 i)
    with mem_db.put [OF 1(2) that(1,2), of u fmt_v] that(3,4) obtain i' where
      "op_Put (mem_ops fmt_v iter) k a m i = Returns (Inr i')" "mem_inv iter m i'"
      "mem_val m i' = (mem_val m i)(k \<mapsto> u)" "mem_keeps i' = mem_keeps i"
      "\<forall>k' b. mem_refs i' k' = Some b \<longrightarrow> (if k' = k then b = a else mem_refs i k' = Some b)"
      by auto
    with 1 show ?thesis by (intro exI [of _ "MemoryTaskStore i'"]) simp
  next
    case (2 db)
    with bolt_db.put [OF 2(2) that(1,2)] that(4) obtain db' where
      "op_Put (bolt_ops b j ''tasks'') k a m db = Returns (Inr db')" "bolt_inv b j ''tasks'' m db'"
      "bolt_val b j ''tasks'' m db' = (bolt_val b j ''tasks'' m db)(k \<mapsto> u)"
      by auto
    with 2 show ?thesis by (intro exI [of _ "BoltTaskStore db'"]) simp
  qed
  show "any_keeps j d (m ! a) = Inl err \<Longrightarrow> op_Put (any_task_ops fmt_v iter b j) k a m d = Returns (Inl err)"
    using inv by (cases rule: any_inv_cases) (simp_all add: mem_db.put_refused bolt_db.put_refused mem_keeps_def)
  show "any_refs d k = Some a \<Longrightarrow> any_keeps j d t = Inr t"
    using inv mem_db.keeps_shared by (cases rule: any_inv_cases) simp_all
  show "any_keeps j d t = Inr u \<Longrightarrow> decoded_as t u"
    using inv mem_db.keeps_fields bolt_db.keeps_fields by (cases rule: any_inv_cases) simp_all
  show "\<exists>a m'. op_Get (any_task_ops fmt_v iter b j) k m d = Returns (Inr (a, m')) \<and> extends m m'
      \<and> a < length m' \<and> m' ! a = t \<and> (\<forall>k'. any_refs d k' = Some a \<longrightarrow> k' = k)"
    if "any_val b j m d k = Some t"
    using inv that mem_db.get_Some bolt_db.get_Some by (cases rule: any_inv_cases) simp_all
  show "\<exists>e. op_Get (any_task_ops fmt_v iter b j) k m d = Returns (Inl e)" if "any_val b j m d k = None"
    using inv that mem_db.get_None bolt_db.get_None by (cases rule: any_inv_cases) simp_all
  show "\<exists>as m'. op_List (any_task_ops fmt_v iter b j) m d = Returns (Inr (as, m')) \<and> extends m m'
      \<and> (\<forall>a\<in>set as. a < length m'
           \<and> (\<exists>k. any_val b j m d k = Some (m' ! a) \<and> (\<forall>k'. any_refs d k' = Some a \<longrightarrow> k' = k)))
      \<and> (\<forall>k t. any_val b j m d k = Some t \<longrightarrow> t \<in> (\<lambda>a. m' ! a) ` set as)"
    using inv mem_db.list_ok bolt_db.list_ok by (cases rule: any_inv_cases) simp_all
qed

end
