(* ===== verification/Worker_Service.thy ===== *)
theory Worker_Service
  imports Any_Store Sandbox_Factory Process_Store "HOL-Library.Multiset"
begin

text \<open>
  The handlers of the worker service, \<open>internal/adapters/worker/worker_service.go\<close>: what creating,
  registering, starting, stopping and failing a task and the output and health of its worker do
  to the store and the observers. The admission of tasks is in \<open>Dispatch\<close>,
  the two background loops in \<open>Worker_Loops\<close>.

  The store, its memory of task cells, the registered workers and the observers are the state; a
  Go variable whose address is taken is a cell, so that what a handler put in the in-memory store
  and what it keeps using are the same object. Two fields are ghosts: the notifications started
  (each in a goroutine of its own, so that nothing orders their delivery: a multiset), and the
  command executions started by \<open>StartTask\<close>. A handler is one step; the reads of the clock are
  arguments. Logging is left out.
\<close>

section \<open>Sandboxes\<close>

text \<open>What the sandbox services are made from and talk to.\<close>

record 'q sandbox_env =
  docker_cli :: "string res"
  kube_config :: kube_env
  docker :: docker_api
  drawn_port :: int
  quote_text :: "string \<Rightarrow> string"
  env_order :: "string gomap \<Rightarrow> string gomap"
  kube :: "'q kube_api"
  shell :: powershell
  unix_now :: int

text \<open>The calls through the interface \<open>ports.ContainerSandboxService\<close>.\<close>

definition CreateContainerSandbox ::
  "'q sandbox_env \<Rightarrow> sandbox_service \<Rightarrow> config \<Rightarrow> (string res \<times> config) go" where
  "CreateContainerSandbox sb svc cfg =
     (case svc of
        DockerService d \<Rightarrow>
          (case Docker_CreateContainerSandbox (quote_text sb) (docker sb) (drawn_port sb) d cfg of
             (r, cfg', calls) \<Rightarrow> Returns (r, cfg'))
      | KubernetesService k \<Rightarrow>
          go_bind (Kubernetes_CreateContainerSandbox (quote_text sb) (env_order sb) (kube sb) k cfg)
            (\<lambda>(r, pod). Returns (r, cfg))
      | HyperVService h \<Rightarrow>
          Returns (fst (HyperV_CreateContainerSandbox (shell sb) (unix_now sb) h cfg), cfg))"

definition DeleteContainerSandbox ::
  "'q sandbox_env \<Rightarrow> sandbox_service \<Rightarrow> string \<Rightarrow> go_error option" where
  "DeleteContainerSandbox sb svc sandboxID =
     (case svc of
        DockerService d \<Rightarrow> fst (Docker_DeleteContainerSandbox (docker sb) sandboxID d)
      | KubernetesService k \<Rightarrow> Kubernetes_DeleteContainerSandbox (kube sb) k sandboxID
      | HyperVService h \<Rightarrow> HyperV_DeleteContainerSandbox (shell sb) sandboxID)"

definition sandbox_for :: "'q sandbox_env \<Rightarrow> Task \<Rightarrow> sandbox_service res" where
  "sandbox_for sb t =
     NewContainerSandboxService (docker_cli sb) (kube_config sb)
       (SandboxTypeField (SpecConfig (Spec t))) (OfSandbox (SpecConfig (Spec t)))"

section \<open>State\<close>

record CommandOutput =
  OutProcessID :: string
  IsStderr :: bool
  Content :: string
  OutState :: string
  OutExitCode :: int32
  OutErrorMsg :: string

text \<open>A command execution that \<open>StartTask\<close> started: its goroutine keeps the address of the task.\<close>

record execution =
  exec_cell :: addr
  exec_id :: string
  exec_command :: "string list"
  exec_dir :: string
  exec_env :: "string gomap option"
  exec_timeout :: duration

record 'd worker_service =
  TaskDb :: 'd
  cells :: "Task list"
  Observers :: "nat list gomap"
  workers :: "WorkerInstance gomap"
  notified :: "(nat \<times> CommandOutput) multiset"
  executing :: "execution list"

record ('d, 'q) service_env =
  Store_ops :: "'d store_ops"
  id_String :: "uuid \<Rightarrow> string"
  sandboxes :: "'q sandbox_env"

definition NewWorkerService :: "'d \<Rightarrow> Task list \<Rightarrow> 'd worker_service" where
  "NewWorkerService db heap =
     \<lparr>TaskDb = db, cells = heap, Observers = [], workers = [], notified = {#}, executing = []\<rparr>"

definition DEFAULT_TIMEOUT :: duration where
  "DEFAULT_TIMEOUT = 30 * 60 * 1000000000"

definition state_output :: "string \<Rightarrow> string \<Rightarrow> string \<Rightarrow> CommandOutput" where
  "state_output process state msg =
     \<lparr>OutProcessID = process, IsStderr = False, Content = '''', OutState = state, OutExitCode = 0,
      OutErrorMsg = msg\<rparr>"

section \<open>Memory and store\<close>

definition new_cell :: "Task \<Rightarrow> 'd worker_service \<Rightarrow> addr \<times> 'd worker_service" where
  "new_cell t w = (length (cells w), w\<lparr>cells := cells w @ [t]\<rparr>)"

definition set_cell :: "addr \<Rightarrow> Task \<Rightarrow> 'd worker_service \<Rightarrow> 'd worker_service" where
  "set_cell a t w = w\<lparr>cells := (cells w)[a := t]\<rparr>"

definition Db_Put ::
  "('d, 'q) service_env \<Rightarrow> string \<Rightarrow> addr \<Rightarrow> 'd worker_service \<Rightarrow>
   (go_error option \<times> 'd worker_service) go" where
  "Db_Put e key a w =
     go_bind (op_Put (Store_ops e) key a (cells w) (TaskDb w))
       (\<lambda>r. Returns (case r of Inl err \<Rightarrow> (Some err, w) | Inr d \<Rightarrow> (None, w\<lparr>TaskDb := d\<rparr>)))"

definition Db_Get ::
  "('d, 'q) service_env \<Rightarrow> string \<Rightarrow> 'd worker_service \<Rightarrow> (addr \<times> 'd worker_service) res go" where
  "Db_Get e key w =
     go_bind (op_Get (Store_ops e) key (cells w) (TaskDb w))
       (\<lambda>r. Returns (case r of Inl err \<Rightarrow> Inl err | Inr (a, m) \<Rightarrow> Inr (a, w\<lparr>cells := m\<rparr>)))"

definition Db_List ::
  "('d, 'q) service_env \<Rightarrow> 'd worker_service \<Rightarrow> (addr list \<times> 'd worker_service) res go" where
  "Db_List e w =
     go_bind (op_List (Store_ops e) (cells w) (TaskDb w))
       (\<lambda>r. Returns (case r of Inl err \<Rightarrow> Inl err | Inr (as, m) \<Rightarrow> Inr (as, w\<lparr>cells := m\<rparr>)))"

text \<open>Changes of a task's state and message, as the handlers write them.\<close>

definition with_state :: "State \<Rightarrow> Task \<Rightarrow> Task" where
  "with_state s t = t\<lparr>Status := (Status t)\<lparr>State := s\<rparr>\<rparr>"

definition with_message :: "string \<Rightarrow> Task \<Rightarrow> Task" where
  "with_message msg t = t\<lparr>Status := (Status t)\<lparr>Message := msg\<rparr>\<rparr>"

definition with_finish :: "instant \<Rightarrow> Task \<Rightarrow> Task" where
  "with_finish now t = t\<lparr>Status := (Status t)\<lparr>FinishTime := Some now\<rparr>\<rparr>"

definition task_key :: "('d, 'q) service_env \<Rightarrow> Task \<Rightarrow> string" where
  "task_key e t = id_String e (MetaID (Metadata t))"

section \<open>Observers\<close>

definition RegisterObserver :: "string \<Rightarrow> nat \<Rightarrow> 'd worker_service \<Rightarrow> 'd worker_service" where
  "RegisterObserver taskID obs w =
     w\<lparr>Observers := AList.update taskID
        ((case map_of (Observers w) taskID of None \<Rightarrow> [] | Some os \<Rightarrow> os) @ [obs]) (Observers w)\<rparr>"

definition NotifyObservers ::
  "string \<Rightarrow> CommandOutput \<Rightarrow> 'd worker_service \<Rightarrow> 'd worker_service" where
  "NotifyObservers taskID out w =
     (case map_of (Observers w) taskID of
        None \<Rightarrow> w
      | Some obsList \<Rightarrow> w\<lparr>notified := notified w + mset (map (\<lambda>obs. (obs, out)) obsList)\<rparr>)"

section \<open>failTask\<close>

definition failTask ::
  "('d, 'q) service_env \<Rightarrow> Task \<Rightarrow> string \<Rightarrow> 'd worker_service \<Rightarrow> 'd worker_service go" where
  "failTask e t msg w =
     (if \<not> ValidStateTransition (State (Status t)) Failed then Returns w
      else
        (let t = with_message msg (with_state Failed t);
             (a, w) = new_cell t w
         in go_bind (Db_Put e (task_key e t) a w)
              (\<lambda>(err, w). Returns (NotifyObservers (task_key e t)
                 (state_output (task_key e t) ''failed'' msg) w))))"

section \<open>createContainer\<close>

text \<open>The error of a step, with the task marked as failed.\<close>

definition fail_with ::
  "('d, 'q) service_env \<Rightarrow> Task \<Rightarrow> string \<Rightarrow> go_error \<Rightarrow> 'd worker_service \<Rightarrow>
   (go_error option \<times> 'd worker_service) go" where
  "fail_with e t msg err w = go_bind (failTask e t msg w) (\<lambda>w. Returns (Some err, w))"

text \<open>The task once its container exists.\<close>

definition scheduled :: "string \<Rightarrow> Task \<Rightarrow> Task" where
  "scheduled containerID t =
     (let t = with_state Scheduled t;
          t = t\<lparr>Status := (Status t)\<lparr>ContainerID := containerID\<rparr>\<rparr>
      in with_message ''Container created, waiting for worker registration'' t)"

definition createContainer ::
  "('d, 'q) service_env \<Rightarrow> Task \<Rightarrow> 'd worker_service \<Rightarrow> (go_error option \<times> 'd worker_service) go"
where
  "createContainer e t w =
     (if \<not> ValidStateTransition (State (Status t)) Creating then
        Returns (Some (GoError (''createContainer: cannot transition from '' @
          State_String (State (Status t)) @ '' to Creating'')), w)
      else
        (let t = with_state Creating t;
             (a, w) = new_cell t w
         in go_bind (Db_Put e (task_key e t) a w) (\<lambda>(err, w).
              case err of
                Some err \<Rightarrow>
                  Returns (Some (GoError (''createContainer: error storing task: '' @ message err)), w)
              | None \<Rightarrow>
                  (case sandbox_for (sandboxes e) t of
                     Inl err \<Rightarrow> fail_with e t (''error creating sandbox service: '' @ message err) err w
                   | Inr svc \<Rightarrow>
                       go_bind (CreateContainerSandbox (sandboxes e) svc (SpecConfig (Spec t)))
                         (\<lambda>(r, cfg).
                           let t = t\<lparr>Spec := (Spec t)\<lparr>SpecConfig := cfg\<rparr>\<rparr>;
                               w = set_cell a t w
                           in case r of
                                Inl err \<Rightarrow>
                                  fail_with e t (''error creating container: '' @ message err) err w
                              | Inr containerID \<Rightarrow>
                                  if \<not> ValidStateTransition (State (Status t)) Scheduled then
                                    fail_with e t ''invalid transition Creating->Scheduled''
                                      (GoError ''invalid transition Creating->Scheduled'') w
                                  else
                                    (let t = scheduled containerID t;
                                         w = set_cell a t w
                                     in go_bind (Db_Put e (task_key e t) a w) (\<lambda>(err, w).
                                          case err of
                                            Some err \<Rightarrow>
                                              Returns (Some (GoError
                                                (''createContainer: error updating to scheduled: '' @
                                                 message err)), w)
                                          | None \<Rightarrow>
                                              Returns (None, NotifyObservers (task_key e t)
                                                (state_output (task_key e t)
                                                  (State_String (State (Status t))) '''') w))))))))"

section \<open>StartTask\<close>

definition StartTask ::
  "('d, 'q) service_env \<Rightarrow> Task \<Rightarrow> 'd worker_service \<Rightarrow> (go_error option \<times> 'd worker_service) go"
where
  "StartTask e t w =
     (if \<not> ValidStateTransition (State (Status t)) Running then
        fail_with e t (''invalid transition from '' @ State_String (State (Status t)) @ '' to Running'')
          (GoError ''StartTask: invalid transition to Running'') w
      else
        (let t = with_message ''Executing command...'' (with_state Running t);
             (a, w) = new_cell t w
         in go_bind (Db_Put e (task_key e t) a w) (\<lambda>(err, w).
              case err of
                Some err \<Rightarrow>
                  Returns (Some (GoError (''StartTask: error updating DB: '' @ message err)), w)
              | None \<Rightarrow>
                  (let timeout = (if Timeout (Spec t) = 0 then DEFAULT_TIMEOUT else Timeout (Spec t));
                       w = w\<lparr>executing := executing w @
                              [\<lparr>exec_cell = a, exec_id = task_key e t, exec_command = Command (Spec t),
                                exec_dir = WorkingDir (SpecConfig (Spec t)),
                                exec_env = EnvVars (SpecConfig (Spec t)),
                                exec_timeout = timeout\<rparr>]\<rparr>
                   in Returns (None, NotifyObservers (task_key e t)
                        (state_output (task_key e t) (State_String (State (Status t))) '''') w)))))"

text \<open>The end of the goroutine \<open>StartTask\<close> starts when \<open>ExecuteCommand\<close> returns an error.\<close>

definition command_failed ::
  "('d, 'q) service_env \<Rightarrow> execution \<Rightarrow> go_error \<Rightarrow> 'd worker_service \<Rightarrow> 'd worker_service go" where
  "command_failed e x err w =
     (let w = NotifyObservers (exec_id x) (state_output (exec_id x) ''failed'' (message err)) w
      in failTask e (cells w ! exec_cell x) (''command execution error: '' @ message err) w)"

section \<open>RegisterWorker\<close>

definition RegisterWorker ::
  "('d, 'q) service_env \<Rightarrow> WorkerInstance \<Rightarrow> 'd worker_service \<Rightarrow>
   (go_error option \<times> 'd worker_service) go" where
  "RegisterWorker e wi w =
     (let w = w\<lparr>workers := AList.update (WorkerID wi) wi (workers w)\<rparr>
      in go_bind (Db_List e w) (\<lambda>r.
        case r of
          Inl err \<Rightarrow> Returns (Some (GoError (''RegisterWorker: error listing tasks: '' @ message err)), w)
        | Inr (as, w) \<Rightarrow>
            (case List.find (\<lambda>a. ContainerID (Status (cells w ! a)) = WorkerID wi) as of
               None \<Rightarrow> Returns (None, w)
             | Some a \<Rightarrow>
                 (let t = cells w ! a in
                  if State (Status t) \<noteq> Scheduled then Returns (None, w)
                  else if \<not> IsHealthy wi then
                    fail_with e t ''Worker not healthy''
                      (GoError ''RegisterWorker: worker not healthy'') w
                  else if \<not> ValidStateTransition (State (Status t)) Starting then
                    fail_with e t ''cannot transition to Starting''
                      (GoError ''RegisterWorker: invalid transition to Starting'') w
                  else
                    (let t = with_message ''Worker is healthy, starting task'' (with_state Starting t);
                         w = set_cell a t w
                     in go_bind (Db_Put e (task_key e t) a w) (\<lambda>(_, w).
                          go_bind (StartTask e (cells w ! a) w) (\<lambda>(err, w).
                            Returns (case err of
                                Some err \<Rightarrow>
                                  (Some (GoError (''RegisterWorker: StartTask failed: '' @ message err)), w)
                              | None \<Rightarrow> (None, w)))))))))"

section \<open>Output\<close>

definition set_exit_code :: "CommandOutput \<Rightarrow> Task \<Rightarrow> Task" where
  "set_exit_code out t =
     (if OutExitCode out \<noteq> 0 then t\<lparr>Status := (Status t)\<lparr>ExitCode := Some (OutExitCode out)\<rparr>\<rparr> else t)"

text \<open>The new task after an output, \<open>None\<close> for a state the switch does not know.\<close>

definition output_update :: "instant \<Rightarrow> CommandOutput \<Rightarrow> Task \<Rightarrow> Task option" where
  "output_update now out t =
     (let oldState = State (Status t) in
      map_option (\<lambda>t. set_exit_code out (with_message (OutErrorMsg out) t))
        (if OutState out = ''running'' then
           Some (if ValidStateTransition oldState Running then with_state Running t else t)
         else if OutState out = ''completed'' then
           Some (if ValidStateTransition oldState Completed
                 then with_finish now (with_state Completed t) else t)
         else if OutState out = ''failed'' then
           Some (if ValidStateTransition oldState Failed then with_state Failed t else t)
         else None))"

definition updateTaskStatus ::
  "('d, 'q) service_env \<Rightarrow> instant \<Rightarrow> string \<Rightarrow> CommandOutput \<Rightarrow> 'd worker_service \<Rightarrow>
   'd worker_service go" where
  "updateTaskStatus e now taskID out w =
     go_bind (Db_Get e taskID w) (\<lambda>r.
       case r of
         Inl err \<Rightarrow> Returns w
       | Inr (a, w) \<Rightarrow>
           (case output_update now out (cells w ! a) of
              None \<Rightarrow> Returns w
            | Some t \<Rightarrow>
                go_bind (Db_Put e taskID a (set_cell a t w)) (\<lambda>(err, w). Returns w)))"

text \<open>\<open>processTaskOutput\<close> on the outputs it receives before the channel is closed or the context ends.\<close>

fun processTaskOutput ::
  "('d, 'q) service_env \<Rightarrow> string \<Rightarrow> (instant \<times> CommandOutput) list \<Rightarrow> 'd worker_service \<Rightarrow>
   'd worker_service go" where
  "processTaskOutput e taskID [] w = Returns w"
| "processTaskOutput e taskID ((now, out) # outs) w =
     go_bind (updateTaskStatus e now taskID out (NotifyObservers taskID out w))
       (processTaskOutput e taskID outs)"

section \<open>StopTask\<close>

definition StopTask ::
  "('d, 'q) service_env \<Rightarrow> instant \<Rightarrow> Task \<Rightarrow> 'd worker_service \<Rightarrow>
   (go_error option \<times> 'd worker_service) go" where
  "StopTask e now t w =
     (if \<not> ValidStateTransition (State (Status t)) Stopping then
        Returns (Some (GoError (''StopTask: invalid transition from '' @
          State_String (State (Status t)) @ '' to Stopping'')), w)
      else
        (let t = with_message ''Stopping container...'' (with_state Stopping t);
             (a, w) = new_cell t w
         in go_bind (Db_Put e (task_key e t) a w) (\<lambda>(err, w).
              case err of
                Some err \<Rightarrow>
                  Returns (Some (GoError (''StopTask: error updating to stopping: '' @ message err)), w)
              | None \<Rightarrow>
                  (case sandbox_for (sandboxes e) t of
                     Inl err \<Rightarrow>
                       fail_with e t (''StopTask: error creating sandbox service: '' @ message err) err w
                   | Inr svc \<Rightarrow>
                       (case DeleteContainerSandbox (sandboxes e) svc (ContainerID (Status t)) of
                          Some err \<Rightarrow>
                            fail_with e t (''StopTask: error deleting sandbox: '' @ message err) err w
                        | None \<Rightarrow>
                            if \<not> ValidStateTransition (State (Status t)) Completed then
                              fail_with e t ''invalid transition from Stopping->Completed''
                                (GoError ''StopTask: invalid transition to Completed'') w
                            else
                              (let t = with_message ''Container stopped''
                                         (with_finish now (with_state Completed t));
                                   w = set_cell a t w
                               in go_bind (Db_Put e (task_key e t) a w) (\<lambda>(err, w).
                                    case err of
                                      Some err \<Rightarrow>
                                        Returns (Some (GoError
                                          (''StopTask: error updating to completed: '' @ message err)), w)
                                    | None \<Rightarrow>
                                        (let w = NotifyObservers (task_key e t)
                                                   (state_output (task_key e t) ''completed'' '''') w
                                         in Returns (None, w\<lparr>workers :=
                                              AList.delete (ContainerID (Status t)) (workers w)\<rparr>)))))))))"

section \<open>Health and listing\<close>

text \<open>What the loop of \<open>CheckTaskHealth\<close> can receive.\<close>

datatype health_event =
    HealthReport bool string
  | HealthClosed
  | HealthDone

fun health_loop ::
  "('d, 'q) service_env \<Rightarrow> Task \<Rightarrow> health_event list \<Rightarrow> 'd worker_service \<Rightarrow> 'd worker_service go"
where
  "health_loop e t [] w = Returns w"
| "health_loop e t (HealthReport healthy status # evs) w =
     (if \<not> healthy then failTask e t (''health check failed: '' @ status) w
      else health_loop e t evs w)"
| "health_loop e t (HealthClosed # evs) w = Returns w"
| "health_loop e t (HealthDone # evs) w = failTask e t ''health check timeout'' w"

definition CheckTaskHealth ::
  "('d, 'q) service_env \<Rightarrow> Task \<Rightarrow> health_event list \<Rightarrow> 'd worker_service \<Rightarrow> 'd worker_service go"
where
  "CheckTaskHealth e t evs w =
     (if State (Status t) \<noteq> Running then Returns w else health_loop e t evs w)"

text \<open>One tick of \<open>UpdateTasks\<close>: the copies of tasks whose health it starts to check.\<close>

definition UpdateTasks_tick ::
  "('d, 'q) service_env \<Rightarrow> 'd worker_service \<Rightarrow> (Task list \<times> 'd worker_service) go" where
  "UpdateTasks_tick e w =
     go_bind (Db_List e w) (\<lambda>r.
       Returns (case r of
           Inl err \<Rightarrow> ([], w)
         | Inr (as, w) \<Rightarrow>
             (filter (\<lambda>t. State (Status t) = Running) (map (\<lambda>a. cells w ! a) as), w)))"

definition GetTasks ::
  "('d, 'q) service_env \<Rightarrow> 'd worker_service \<Rightarrow> (addr list option \<times> 'd worker_service) go" where
  "GetTasks e w =
     go_bind (Db_List e w) (\<lambda>r.
       Returns (case r of Inl err \<Rightarrow> (None, w) | Inr (as, w) \<Rightarrow> (Some as, w)))"

end
