(* ===== verification/Worker_Effects.thy ===== *)
theory Worker_Effects
  imports Worker_Service
begin

text \<open>
  What each handler of the worker service does to the tasks stored, to the observers and to the
  executions started, for every store that keeps the contract \<open>task_db\<close>. The lemmas are proved once
  in that locale, or in \<open>exact_db\<close> where no put is refused, and reach the properties through the
  interpretations \<open>any_db\<close> and \<open>mem_db\<close>.
  A sequence of handler calls is run by \<open>serve_all\<close>; \<open>changes\<close> lists what one call may do.
\<close>

section \<open>What a client of the store sees\<close>

definition ready ::
  "'d store_ops \<Rightarrow> (Task list \<Rightarrow> 'd \<Rightarrow> bool) \<Rightarrow> ('d, 'q) service_env \<Rightarrow> 'd worker_service \<Rightarrow> bool"
where
  "ready ops iv e w \<longleftrightarrow>
     Store_ops e = ops \<and> (\<forall>i. id_String e i \<noteq> '''') \<and> iv (cells w) (TaskDb w)"

definition stored ::
  "(Task list \<Rightarrow> 'd \<Rightarrow> string \<Rightarrow> Task option) \<Rightarrow> 'd worker_service \<Rightarrow> string \<Rightarrow> Task option"
where
  "stored vl w = vl (cells w) (TaskDb w)"

definition outgoing :: "'d worker_service \<Rightarrow> string \<Rightarrow> CommandOutput \<Rightarrow> (nat \<times> CommandOutput) list" where
  "outgoing w taskID out =
     (case map_of (Observers w) taskID of None \<Rightarrow> [] | Some os \<Rightarrow> map (\<lambda>obs. (obs, out)) os)"

lemma NotifyObservers_outgoing:
  "NotifyObservers taskID out w = w\<lparr>notified := notified w + mset (outgoing w taskID out)\<rparr>"
  by (simp add: NotifyObservers_def outgoing_def split: option.split)

lemma TaskDb_Notify [simp]: "TaskDb (NotifyObservers k out w) = TaskDb w"
  by (simp add: NotifyObservers_outgoing)

text \<open>The effect of a handler: the tasks stored, the notifications and the executions it adds.\<close>

definition effect ::
  "(Task list \<Rightarrow> 'd \<Rightarrow> string \<Rightarrow> Task option) \<Rightarrow> 'd worker_service \<Rightarrow> (string \<Rightarrow> Task option) \<Rightarrow>
   (nat \<times> CommandOutput) list \<Rightarrow> execution list \<Rightarrow> 'd worker_service \<Rightarrow> bool" where
  "effect vl w v ns xs w' \<longleftrightarrow>
     stored vl w' = v \<and> Observers w' = Observers w \<and> workers w' = workers w
     \<and> notified w' = notified w + mset ns \<and> executing w' = executing w @ xs"

lemma effect_Notify:
  "effect vl w v ns xs w' \<Longrightarrow>
     effect vl w v (ns @ outgoing w k out) xs (NotifyObservers k out w')"
  by (simp add: effect_def NotifyObservers_outgoing stored_def outgoing_def)

lemma ready_Notify [simp]: "ready ops iv e (NotifyObservers k out w) \<longleftrightarrow> ready ops iv e w"
  by (simp add: ready_def NotifyObservers_outgoing)

lemma effect_trans:
  "effect vl w v ns xs u \<Longrightarrow> effect vl u v' ns' xs' w' \<Longrightarrow>
     effect vl w v' (ns @ ns') (xs @ xs') w'"
  by (simp add: effect_def)

lemma outgoing_effect: "effect vl w v ns xs w' \<Longrightarrow> outgoing w' = outgoing w"
  by (simp add: effect_def outgoing_def fun_eq_iff)

lemma stored_effect: "effect vl w v ns xs w' \<Longrightarrow> stored vl w' = v"
  by (simp add: effect_def)

definition failed_task :: "string \<Rightarrow> Task \<Rightarrow> Task" where
  "failed_task msg t = with_message msg (with_state Failed t)"

lemma status_fields [simp]:
  "State (Status (with_state s t)) = s"
  "State (Status (with_message msg t)) = State (Status t)"
  "State (Status (with_finish now t)) = State (Status t)"
  "Metadata (with_state s t) = Metadata t"
  "Metadata (with_message msg t) = Metadata t"
  "Metadata (with_finish now t) = Metadata t"
  "Spec (with_state s t) = Spec t"
  "Spec (with_message msg t) = Spec t"
  "Spec (with_finish now t) = Spec t"
  "ContainerID (Status (with_state s t)) = ContainerID (Status t)"
  "ContainerID (Status (with_message msg t)) = ContainerID (Status t)"
  "ContainerID (Status (with_finish now t)) = ContainerID (Status t)"
  "Message (Status (with_message msg t)) = msg"
  "FinishTime (Status (with_finish now t)) = Some now"
  "FinishTime (Status (with_state s t)) = FinishTime (Status t)"
  "FinishTime (Status (with_message msg t)) = FinishTime (Status t)"
  by (simp_all add: with_state_def with_message_def with_finish_def)

lemma failed_fields [simp]:
  "State (Status (failed_task msg t)) = Failed"
  "Metadata (failed_task msg t) = Metadata t"
  "Spec (failed_task msg t) = Spec t"
  "ContainerID (Status (failed_task msg t)) = ContainerID (Status t)"
  "Message (Status (failed_task msg t)) = msg"
  "FinishTime (Status (failed_task msg t)) = FinishTime (Status t)"
  by (simp_all add: failed_task_def)

lemma task_key_cong [simp]:
  "task_key e (with_state s t) = task_key e t"
  "task_key e (with_message msg t) = task_key e t"
  "task_key e (with_finish now t) = task_key e t"
  "task_key e (failed_task msg t) = task_key e t"
  "task_key e (t\<lparr>Spec := sp\<rparr>) = task_key e t"
  "task_key e (t\<lparr>Status := st\<rparr>) = task_key e t"
  by (simp_all add: task_key_def)

lemma set_cell_fields [simp]:
  "TaskDb (set_cell a t w) = TaskDb w" "Observers (set_cell a t w) = Observers w"
  "workers (set_cell a t w) = workers w" "notified (set_cell a t w) = notified w"
  "executing (set_cell a t w) = executing w" "cells (set_cell a t w) = (cells w)[a := t]"
  by (simp_all add: set_cell_def)

lemma set_cell_twice [simp]: "set_cell a t (set_cell a u w) = set_cell a t w"
  by (simp add: set_cell_def)

context task_db
begin

lemma ready_key: "ready ops inv e w \<Longrightarrow> task_key e t \<noteq> ''''"
  by (simp add: ready_def task_key_def)

lemma Db_Put_new_any:
  assumes "ready ops inv e w" and "k \<noteq> ''''"
  obtains (stored) u w' where "keeps (TaskDb w) t = Inr u"
      and "Db_Put e k (length (cells w)) (w\<lparr>cells := cells w @ [t]\<rparr>) = Returns (None, w')"
      and "ready ops inv e w'" and "effect val w ((stored val w)(k \<mapsto> u)) [] [] w'"
      and "keeps (TaskDb w') = keeps (TaskDb w)" and "length (cells w) < length (cells w')"
      and "\<forall>k'. refs (TaskDb w') k' = Some (length (cells w)) \<longrightarrow> k' = k"
  | (refused) err w' where "keeps (TaskDb w) t = Inl err"
      and "Db_Put e k (length (cells w)) (w\<lparr>cells := cells w @ [t]\<rparr>) = Returns (Some err, w')"
      and "ready ops inv e w'" and "effect val w (stored val w) [] [] w'"
      and "keeps (TaskDb w') = keeps (TaskDb w)"
proof -
  have inv: "inv (cells w) (TaskDb w)" and ops: "Store_ops e = ops"
    using assms(1) by (simp_all add: ready_def)
  show thesis
  proof (cases "keeps (TaskDb w) t")
    case (Inl err)
    note no = alloc_refused [OF inv Inl]
    have "ready ops inv e (w\<lparr>cells := cells w @ [t]\<rparr>)"
      using no(2) assms(1) by (simp add: ready_def)
    then show thesis
      using no(1,3) Inl
      by (intro refused [of err "w\<lparr>cells := cells w @ [t]\<rparr>"])
        (simp_all add: Db_Put_def ops effect_def stored_def)
  next
    case (Inr u)
    then obtain d' where d': "op_Put ops k (length (cells w)) (cells w @ [t]) (TaskDb w) = Returns (Inr d')"
      "inv (cells w @ [t]) d'" "val (cells w @ [t]) d' = (val (cells w) (TaskDb w))(k \<mapsto> u)"
      "keeps d' = keeps (TaskDb w)" "\<forall>k'. refs d' k' = Some (length (cells w)) \<longrightarrow> k' = k"
      using alloc_put [OF inv assms(2)] by blast
    let ?w = "w\<lparr>cells := cells w @ [t], TaskDb := d'\<rparr>"
    have "Db_Put e k (length (cells w)) (w\<lparr>cells := cells w @ [t]\<rparr>) = Returns (None, ?w)"
      using d'(1) by (simp add: Db_Put_def ops)
    moreover have "ready ops inv e ?w" and "effect val w ((stored val w)(k \<mapsto> u)) [] [] ?w"
      using d'(2,3) assms(1) by (simp_all add: ready_def effect_def stored_def fun_eq_iff)
    ultimately show thesis
      using d'(4,5) Inr by (intro stored [of u ?w]) simp_all
  qed
qed

lemma Db_Put_set_any:
  assumes "ready ops inv e w" and "k \<noteq> ''''" and "a < length (cells w)"
    and "\<forall>k'. refs (TaskDb w) k' = Some a \<longrightarrow> k' = k"
  obtains (stored) u w' where "keeps (TaskDb w) t = Inr u"
      and "Db_Put e k a (set_cell a t w) = Returns (None, w')"
      and "ready ops inv e w'" and "effect val w ((stored val w)(k \<mapsto> u)) [] [] w'"
      and "keeps (TaskDb w') = keeps (TaskDb w)" and "cells w' = (cells w)[a := t]"
      and "\<forall>k'. refs (TaskDb w') k' = Some a \<longrightarrow> k' = k"
  | (refused) err w' where "keeps (TaskDb w) t = Inl err"
      and "Db_Put e k a (set_cell a t w) = Returns (Some err, w')"
      and "ready ops inv e w'" and "effect val w (stored val w) [] [] w'"
      and "keeps (TaskDb w') = keeps (TaskDb w)"
proof -
  have inv: "inv (cells w) (TaskDb w)" and ops: "Store_ops e = ops"
    using assms(1) by (simp_all add: ready_def)
  show thesis
  proof (cases "keeps (TaskDb w) t")
    case (Inl err)
    note no = write_refused [OF inv assms(3) Inl]
    have "ready ops inv e (set_cell a t w)"
      using no(2) assms(1) by (simp add: ready_def)
    then show thesis
      using no(1,3) Inl
      by (intro refused [of err "set_cell a t w"]) (simp_all add: Db_Put_def ops effect_def stored_def)
  next
    case (Inr u)
    then obtain d' where d': "op_Put ops k a ((cells w)[a := t]) (TaskDb w) = Returns (Inr d')"
      "inv ((cells w)[a := t]) d'" "val ((cells w)[a := t]) d' = (val (cells w) (TaskDb w))(k \<mapsto> u)"
      "keeps d' = keeps (TaskDb w)" "\<forall>k'. refs d' k' = Some a \<longrightarrow> k' = k"
      using write_put [OF inv assms(3,2,4)] by blast
    let ?w = "(set_cell a t w)\<lparr>TaskDb := d'\<rparr>"
    have "Db_Put e k a (set_cell a t w) = Returns (None, ?w)"
      using d'(1) by (simp add: Db_Put_def ops)
    moreover have "ready ops inv e ?w" and "effect val w ((stored val w)(k \<mapsto> u)) [] [] ?w"
      using d'(2,3) assms(1) by (simp_all add: ready_def effect_def stored_def fun_eq_iff)
    ultimately show thesis
      using d'(4,5) Inr by (intro stored [of u ?w]) simp_all
  qed
qed

text \<open>A write to the cell of a key that is not yet put: only that key may read differently.\<close>

lemma set_cell_ready:
  assumes "ready ops inv e w" and "\<forall>k'. refs (TaskDb w) k' = Some a \<longrightarrow> k' = k"
  shows "ready ops inv e (set_cell a t w)"
    and "(stored val (set_cell a t w))(k \<mapsto> x) = (stored val w)(k \<mapsto> x)"
    and "kept (keeps (TaskDb w)) k y (stored val (set_cell a t w)) = kept (keeps (TaskDb w)) k y (stored val w)"
proof -
  have inv: "inv (cells w) (TaskDb w)"
    using assms(1) by (simp add: ready_def)
  show "ready ops inv e (set_cell a t w)"
    using assms(1) val_write(1) [OF inv assms(2)] by (simp add: ready_def)
  show over: "(stored val (set_cell a t w))(k \<mapsto> x) = (stored val w)(k \<mapsto> x)" for x
    using val_write(2) [OF inv assms(2)] by (simp add: stored_def fun_eq_iff)
  show "kept (keeps (TaskDb w)) k y (stored val (set_cell a t w)) = kept (keeps (TaskDb w)) k y (stored val w)"
  proof (cases "keeps (TaskDb w) y")
    case (Inl err)
    then show ?thesis
      using refused_write(2) [OF inv Inl, of "(cells w)[a := t]"] by (simp add: stored_def)
  qed (simp add: over)
qed

lemma failTask_any:
  assumes "ready ops inv e w"
  obtains w' where "failTask e t msg w = Returns w'" and "ready ops inv e w'"
    and "effect val w
      (if ValidStateTransition (State (Status t)) Failed
       then kept (keeps (TaskDb w)) (task_key e t) (failed_task msg t) (stored val w) else stored val w)
      (if ValidStateTransition (State (Status t)) Failed
       then outgoing w (task_key e t) (state_output (task_key e t) ''failed'' msg) else []) [] w'"
    and "keeps (TaskDb w') = keeps (TaskDb w)"
proof (cases "ValidStateTransition (State (Status t)) Failed")
  case False
  then show ?thesis
    using assms by (intro that [of w]) (simp_all add: failTask_def effect_def)
next
  case True
  let ?out = "state_output (task_key e t) ''failed'' msg"
  obtain err w' where w': "Db_Put e (task_key e t) (length (cells w))
        (w\<lparr>cells := cells w @ [failed_task msg t]\<rparr>) = Returns (err, w')"
    "ready ops inv e w'"
    "effect val w (kept (keeps (TaskDb w)) (task_key e t) (failed_task msg t) (stored val w)) [] [] w'"
    "keeps (TaskDb w') = keeps (TaskDb w)"
    by (cases rule: Db_Put_new_any [OF assms ready_key [OF assms, of t], where t = "failed_task msg t"])
      fastforce+
  have "failTask e t msg w = Returns (NotifyObservers (task_key e t) ?out w')"
    using True w'(1) by (simp add: failTask_def new_cell_def failed_task_def)
  then show ?thesis
    using True w'(2,4) effect_Notify [OF w'(3), of "task_key e t" ?out]
    by (intro that [of "NotifyObservers (task_key e t) ?out w'"]) simp_all
qed

end

context exact_db
begin

lemma Db_Put_new:
  assumes "ready ops inv e w" and "k \<noteq> ''''"
  obtains w' where "Db_Put e k (length (cells w)) (w\<lparr>cells := cells w @ [t]\<rparr>) = Returns (None, w')"
    and "ready ops inv e w'" and "effect val w ((stored val w)(k \<mapsto> t)) [] [] w'"
    and "length (cells w) < length (cells w')"
    and "\<forall>k'. refs (TaskDb w') k' = Some (length (cells w)) \<longrightarrow> k' = k"
  by (rule Db_Put_new_any [OF assms, where t = t]) (auto simp: exact intro: that)

lemma Db_Put_set:
  assumes "ready ops inv e w" and "k \<noteq> ''''" and "a < length (cells w)"
    and "\<forall>k'. refs (TaskDb w) k' = Some a \<longrightarrow> k' = k"
  obtains w' where "Db_Put e k a (set_cell a t w) = Returns (None, w')"
    and "ready ops inv e w'" and "effect val w ((stored val w)(k \<mapsto> t)) [] [] w'"
    and "cells w' = (cells w)[a := t]"
    and "\<forall>k'. refs (TaskDb w') k' = Some a \<longrightarrow> k' = k"
  by (rule Db_Put_set_any [OF assms, where t = t]) (auto simp: exact intro: that)

lemma kept_exact [simp]: "kept (keeps d) k t v = v(k \<mapsto> t)"
  by (simp add: kept_def exact)

lemma failTask_spec:
  assumes "ready ops inv e w"
  obtains w' where "failTask e t msg w = Returns w'" and "ready ops inv e w'"
    and "effect val w
      (if ValidStateTransition (State (Status t)) Failed
       then (stored val w)(task_key e t \<mapsto> failed_task msg t) else stored val w)
      (if ValidStateTransition (State (Status t)) Failed
       then outgoing w (task_key e t) (state_output (task_key e t) ''failed'' msg) else []) [] w'"
  using failTask_any [OF assms, of t msg] by (metis kept_exact)

end

section \<open>Creating and starting\<close>

lemma sandbox_for_Docker:
  "sandbox_for sb t = Inr svc \<Longrightarrow> \<exists>d. svc = DockerService d"
  by (auto simp: sandbox_for_def factory_of_sandbox_config split: if_splits sum.splits)
    (metis (no_types, lifting) map_sum.simps(1) map_sum.simps(2) old.sum.exhaust Inl_Inr_False Inr_inject)

lemma scheduled_fields [simp]:
  "State (Status (scheduled cid t)) = Scheduled"
  "ContainerID (Status (scheduled cid t)) = cid"
  "Metadata (scheduled cid t) = Metadata t"
  "Spec (scheduled cid t) = Spec t"
  "task_key e (scheduled cid t) = task_key e t"
  by (simp_all add: scheduled_def task_key_def Let_def)

text \<open>
  The error and the task a creation ends with, as a function of the task and the sandboxes
  alone. A panic of the sandbox service leaves no outcome; a Docker service never panics.
\<close>

definition creation :: "'q sandbox_env \<Rightarrow> Task \<Rightarrow> go_error option \<times> Task" where
  "creation sb t =
     (let t = with_state Creating t in
      case sandbox_for sb t of
        Inl err \<Rightarrow> (Some err, failed_task (''error creating sandbox service: '' @ message err) t)
      | Inr svc \<Rightarrow>
          (case CreateContainerSandbox sb svc (SpecConfig (Spec t)) of
             Returns (Inl err, cfg) \<Rightarrow>
               (Some err, failed_task (''error creating container: '' @ message err)
                  (t\<lparr>Spec := (Spec t)\<lparr>SpecConfig := cfg\<rparr>\<rparr>))
           | Returns (Inr cid, cfg) \<Rightarrow> 
               (None, scheduled cid (t\<lparr>Spec := (Spec t)\<lparr>SpecConfig := cfg\<rparr>\<rparr>))
           | Panics p \<Rightarrow> (None, t)))"

definition creation_output :: "string \<Rightarrow> go_error option \<times> Task \<Rightarrow> CommandOutput" where
  "creation_output k r =
     (if fst r = None then state_output k ''Scheduled'' ''''
      else state_output k ''failed'' (Message (Status (snd r))))"

lemma creation_state:
  "sandbox_for sb (with_state Creating t) = Inr svc \<Longrightarrow>
   CreateContainerSandbox sb svc (SpecConfig (Spec t)) = Returns rc \<Longrightarrow>
   State (Status (snd (creation sb t))) = (if fst (creation sb t) = None then Scheduled else Failed)"
  by (cases rc; cases "fst rc") (auto simp: creation_def Let_def)

lemma Docker_returns:
  "\<exists>rc. CreateContainerSandbox sb (DockerService d) cfg = Returns rc"
  by (simp add: CreateContainerSandbox_def split: prod.split)

lemma creation_cases:
  obtains (no_service) err where "sandbox_for sb (with_state Creating t) = Inl err"
  | (refused) d err cfg where "sandbox_for sb (with_state Creating t) = Inr (DockerService d)"
      "CreateContainerSandbox sb (DockerService d) (SpecConfig (Spec t)) = Returns (Inl err, cfg)"
  | (made) d cid cfg where "sandbox_for sb (with_state Creating t) = Inr (DockerService d)"
      "CreateContainerSandbox sb (DockerService d) (SpecConfig (Spec t)) = Returns (Inr cid, cfg)"
proof (cases "sandbox_for sb (with_state Creating t)")
  case (Inl err)
  then show ?thesis by (rule no_service)
next
  case (Inr svc)
  moreover obtain d where "svc = DockerService d"
    using sandbox_for_Docker [OF Inr] by blast
  moreover obtain r cfg where
    "CreateContainerSandbox sb (DockerService d) (SpecConfig (Spec t)) = Returns (r, cfg)"
    using Docker_returns by fast
  ultimately show ?thesis
    using refused made by (cases r) simp_all
qed

lemma creation_result_state:
  "State (Status (snd (creation sb t))) = (if fst (creation sb t) = None then Scheduled else Failed)"
  by (cases rule: creation_cases [of sb t])
    (simp_all add: creation_def Let_def)

lemma creation_metadata [simp]: "Metadata (snd (creation sb t)) = Metadata t"
  by (cases rule: creation_cases [of sb t])
    (simp_all add: creation_def Let_def)

lemma creation_key [simp]: "task_key e (snd (creation sb t)) = task_key e t"
  by (simp add: task_key_def)

lemma fun_upd_twice: "(f(k \<mapsto> x))(k \<mapsto> y) = f(k \<mapsto> y)"
  by simp

text \<open>
  What a handler that puts a task, makes or deletes its sandbox and puts it again comes to: the error
  it returns, the tasks it puts and the outputs it sends. \<open>c\<close> is the task put first, \<open>r\<close> what the sandbox makes of it.
\<close>

definition two_puts ::
  "(Task \<Rightarrow> Task res) \<Rightarrow> string \<Rightarrow> string \<Rightarrow> Task \<Rightarrow> go_error option \<times> Task \<Rightarrow> CommandOutput \<Rightarrow>
   go_error option \<times> Task list \<times> CommandOutput list" where
  "two_puts f err1 err2 c r out =
     (case f c of
        Inl err \<Rightarrow> (Some (GoError (err1 @ message err)), [], [])
      | Inr _ \<Rightarrow>
          (case r of
             (Some err, t) \<Rightarrow> (Some err, [c, t], [out])
           | (None, t) \<Rightarrow>
               (case f t of
                  Inl err \<Rightarrow> (Some (GoError (err2 @ message err)), [c], [])
                | Inr _ \<Rightarrow> (None, [c, t], [out]))))"

definition creation_outcome ::
  "(Task \<Rightarrow> Task res) \<Rightarrow> 'q sandbox_env \<Rightarrow> string \<Rightarrow> Task \<Rightarrow>
   go_error option \<times> Task list \<times> CommandOutput list" where
  "creation_outcome f sb k t =
     two_puts f ''createContainer: error storing task: '' ''createContainer: error updating to scheduled: ''
       (with_state Creating t) (creation sb t) (creation_output k (creation sb t))"

context task_db
begin

lemma fail_with_any:
  assumes "ready ops inv e w" and "ValidStateTransition (State (Status t)) Failed"
  obtains w' where "fail_with e t msg err w = Returns (Some err, w')" and "ready ops inv e w'"
    and "effect val w (kept (keeps (TaskDb w)) (task_key e t) (failed_task msg t) (stored val w))
      (outgoing w (task_key e t) (state_output (task_key e t) ''failed'' msg)) [] w'"
    and "keeps (TaskDb w') = keeps (TaskDb w)"
proof -
  obtain w' where "failTask e t msg w = Returns w'" "ready ops inv e w'"
    "effect val w (kept (keeps (TaskDb w)) (task_key e t) (failed_task msg t) (stored val w))
      (outgoing w (task_key e t) (state_output (task_key e t) ''failed'' msg)) [] w'"
    "keeps (TaskDb w') = keeps (TaskDb w)"
    using failTask_any [OF assms(1), of t msg] assms(2) by auto
  then show ?thesis
    by (intro that [of w']) (simp_all add: fail_with_def)
qed

text \<open>What is kept under a key does not depend on what a write to its own cell did before.\<close>

lemma effect_over:
  assumes "effect val w v ns xs u"
    and "ready ops inv e u" and "\<forall>k'. refs (TaskDb u) k' = Some a \<longrightarrow> k' = k"
    and "effect val (set_cell a t u) (kept (keeps (TaskDb u)) k y (stored val (set_cell a t u))) ns' xs' w'"
  shows "effect val w (kept (keeps (TaskDb u)) k y v) (ns @ ns') (xs @ xs') w'"
proof -
  have "kept (keeps (TaskDb u)) k y (stored val (set_cell a t u)) = kept (keeps (TaskDb u)) k y v"
    using set_cell_ready(3) [OF assms(2,3)] assms(1) by (simp add: effect_def)
  then show ?thesis
    using assms(1,4) by (simp add: effect_def ac_simps)
qed

lemma createContainer_any:
  assumes "ready ops inv e w" and valid: "ValidStateTransition (State (Status t)) Creating"
    and res: "creation_outcome (keeps (TaskDb w)) (sandboxes e) (task_key e t) t = (err, ts, outs)"
  obtains w' where "createContainer e t w = Returns (err, w')" and "ready ops inv e w'"
    and "effect val w (fold (kept (keeps (TaskDb w)) (task_key e t)) ts (stored val w))
      (concat (map (outgoing w (task_key e t)) outs)) [] w'"
    and "keeps (TaskDb w') = keeps (TaskDb w)"
proof -
  let ?k = "task_key e t" and ?a = "length (cells w)" and ?c = "with_state Creating t"
  have k: "?k \<noteq> ''''"
    by (rule ready_key [OF assms(1)])
  note start = valid createContainer_def new_cell_def creation_def creation_output_def Let_def
    creation_outcome_def two_puts_def
  show thesis
  proof (cases rule: Db_Put_new_any [OF assms(1) k, where t = ?c, case_names stored refused])
    case (refused err' u)
    then show thesis
      using res by (intro that [of u]) (simp_all add: start)
  next
    case put: (stored c' u)
    note only = put(7)
    have out: "outgoing u ?k = outgoing w ?k"
      using outgoing_effect [OF put(4)] by simp
    have out': "outgoing (set_cell a x u) ?k = outgoing w ?k" for a x
      using out by (simp add: outgoing_def fun_eq_iff)
    note start = start put(1,2)
    show thesis
    proof (cases rule: creation_cases [of "sandboxes e" t])
      case (no_service err')
      let ?msg = "''error creating sandbox service: '' @ message err'"
      obtain w' where w': "fail_with e ?c ?msg err' u = Returns (Some err', w')" "ready ops inv e w'"
        "effect val u (kept (keeps (TaskDb u)) ?k (failed_task ?msg ?c) (stored val u))
           (outgoing u ?k (state_output ?k ''failed'' ?msg)) [] w'" "keeps (TaskDb w') = keeps (TaskDb u)"
        using fail_with_any [OF put(3), of ?c ?msg err'] by auto
      show thesis
        using effect_trans [OF put(4) w'(3)] out stored_effect [OF put(4)] w'(1,2,4) put(5) res
        by (intro that [of w']) (auto simp: no_service start)
    next
      case (refused d err' cfg)
      let ?msg = "''error creating container: '' @ message err'"
      let ?t = "?c\<lparr>Spec := (Spec ?c)\<lparr>SpecConfig := cfg\<rparr>\<rparr>"
      note set = set_cell_ready [OF put(3) only, where t = ?t]
      obtain w' where w': "fail_with e ?t ?msg err' (set_cell ?a ?t u) = Returns (Some err', w')"
        "ready ops inv e w'"
        "effect val (set_cell ?a ?t u)
           (kept (keeps (TaskDb u)) ?k (failed_task ?msg ?t) (stored val (set_cell ?a ?t u)))
           (outgoing (set_cell ?a ?t u) ?k (state_output ?k ''failed'' ?msg)) [] w'"
        "keeps (TaskDb w') = keeps (TaskDb u)"
        using fail_with_any [OF set(1), of ?t ?msg err'] by auto
      show thesis
        using effect_over [OF put(4,3) only w'(3)] w'(1,2,4) put(5) res out'
        by (intro that [of w']) (auto simp: refused start)
    next
      case (made d cid cfg)
      let ?t = "?c\<lparr>Spec := (Spec ?c)\<lparr>SpecConfig := cfg\<rparr>\<rparr>"
      let ?s = "scheduled cid ?t"
      show thesis
      proof (cases rule: Db_Put_set_any [OF put(3) k put(6) only, where t = ?s, case_names stored refused])
        case (refused err' v)
        then show thesis
          using effect_trans [OF put(4) refused(4)] stored_effect [OF put(4)] put(5) res
          by (intro that [of v]) (auto simp: made start)
      next
        case (stored s' v)
        have "effect val w ((stored val w)(?k \<mapsto> s'))
            (outgoing w ?k (state_output ?k ''Scheduled'' '''')) []
            (NotifyObservers ?k (state_output ?k ''Scheduled'' '''') v)"
          using effect_Notify [OF effect_trans [OF put(4) stored(4)], of ?k] stored_effect [OF put(4)] by simp
        then show thesis
          using stored(1,2,3,5) put(5) res
          by (intro that [of "NotifyObservers ?k (state_output ?k ''Scheduled'' '''') v"])
            (auto simp: made start)
      qed
    qed
  qed
qed

end

context exact_db
begin

lemma fail_with_spec:
  assumes "ready ops inv e w" and "ValidStateTransition (State (Status t)) Failed"
  obtains w' where "fail_with e t msg err w = Returns (Some err, w')" and "ready ops inv e w'"
    and "effect val w ((stored val w)(task_key e t \<mapsto> failed_task msg t))
      (outgoing w (task_key e t) (state_output (task_key e t) ''failed'' msg)) [] w'"
  using fail_with_any [OF assms, of msg err] by (metis kept_exact)

lemma two_puts_exact:
  "two_puts (keeps d) err1 err2 c r out = (fst r, [c, snd r], [out])"
  by (cases r; cases "fst r") (auto simp: two_puts_def exact)

lemma createContainer_spec:
  assumes "ready ops inv e w" and valid: "ValidStateTransition (State (Status t)) Creating"
  obtains w' where
    "createContainer e t w = Returns (fst (creation (sandboxes e) t), w')" and "ready ops inv e w'"
    and "effect val w ((stored val w)(task_key e t \<mapsto> snd (creation (sandboxes e) t)))
      (outgoing w (task_key e t) (creation_output (task_key e t) (creation (sandboxes e) t))) [] w'"
  by (rule createContainer_any [OF assms, unfolded creation_outcome_def two_puts_exact, OF refl])
    (simp add: that)

end

section \<open>Registering, starting, output and stopping\<close>

definition started :: "Task \<Rightarrow> Task" where
  "started t = with_message ''Executing command...'' (with_state Running t)"

definition execution_of :: "string \<Rightarrow> addr \<Rightarrow> Task \<Rightarrow> execution" where
  "execution_of k a t =
     \<lparr>exec_cell = a, exec_id = k, exec_command = Command (Spec t),
      exec_dir = WorkingDir (SpecConfig (Spec t)), exec_env = EnvVars (SpecConfig (Spec t)),
      exec_timeout = (if Timeout (Spec t) = 0 then DEFAULT_TIMEOUT else Timeout (Spec t))\<rparr>"

definition keyed :: "('d, 'q) service_env \<Rightarrow> (string \<Rightarrow> Task option) \<Rightarrow> bool" where
  "keyed e v \<longleftrightarrow> (\<forall>k t. v k = Some t \<longrightarrow> k = task_key e t)"

lemma keyed_upd: "keyed e v \<Longrightarrow> keyed e (v(task_key e t \<mapsto> t))"
  by (simp add: keyed_def)

lemma keyed_upd': "keyed e v \<Longrightarrow> k = task_key e t \<Longrightarrow> keyed e (v(k \<mapsto> t))"
  by (simp add: keyed_upd)

text \<open>The tasks stored after an output for a key.\<close>

definition after_output ::
  "instant \<Rightarrow> string \<Rightarrow> CommandOutput \<Rightarrow> (string \<Rightarrow> Task option) \<Rightarrow> string \<Rightarrow> Task option" where
  "after_output now k out v =
     (case v k of
        None \<Rightarrow> v
      | Some t \<Rightarrow> (case output_update now out t of None \<Rightarrow> v | Some t' \<Rightarrow> v(k \<mapsto> t')))"

lemma effect_refl [simp]: "effect vl w v [] [] w \<longleftrightarrow> v = stored vl w"
  by (auto simp: effect_def)

context exact_db
begin

lemma StartTask_spec:
  assumes "ready ops inv e w" and "ValidStateTransition (State (Status t)) Running"
  obtains w' where "StartTask e t w = Returns (None, w')" and "ready ops inv e w'"
    and "effect val w ((stored val w)(task_key e t \<mapsto> started t))
      (outgoing w (task_key e t) (state_output (task_key e t) ''Running'' ''''))
      [execution_of (task_key e t) (length (cells w)) (started t)] w'"
proof -
  let ?k = "task_key e t" and ?a = "length (cells w)" and ?s = "started t"
  let ?x = "execution_of ?k ?a ?s" and ?out = "state_output (task_key e t) ''Running'' ''''"
  obtain u where u: "Db_Put e ?k ?a (w\<lparr>cells := cells w @ [?s]\<rparr>) = Returns (None, u)"
    "ready ops inv e u" "effect val w ((stored val w)(?k \<mapsto> ?s)) [] [] u"
    by (rule Db_Put_new [OF assms(1) ready_key [OF assms(1), of t], where t = ?s])
  let ?u = "u\<lparr>executing := executing u @ [?x]\<rparr>"
  have "effect val w ((stored val w)(?k \<mapsto> ?s)) [] [?x] ?u" and "ready ops inv e ?u"
    using u(2,3) by (simp_all add: effect_def stored_def ready_def fun_eq_iff)
  moreover have "StartTask e t w = Returns (None, NotifyObservers ?k ?out ?u)"
    using assms(2) u(1)
    by (simp add: StartTask_def new_cell_def Let_def started_def execution_of_def)
  ultimately show ?thesis
    using effect_Notify [of val w _ "[]" "[?x]" ?u ?k ?out]
    by (intro that [of "NotifyObservers ?k ?out ?u"]) simp_all
qed

lemma Db_List_spec:
  assumes "ready ops inv e w"
  obtains as u where "Db_List e w = Returns (Inr (as, u))" and "ready ops inv e u"
    and "effect val w (stored val w) [] [] u"
    and "\<forall>a\<in>set as. a < length (cells u) \<and> (\<exists>k. stored val w k = Some (cells u ! a)
           \<and> (\<forall>k'. refs (TaskDb u) k' = Some a \<longrightarrow> k' = k))"
    and "\<forall>k t. stored val w k = Some t \<longrightarrow> (\<exists>a\<in>set as. cells u ! a = t)"
proof -
  have inv: "inv (cells w) (TaskDb w)" and ops: "Store_ops e = ops"
    using assms by (simp_all add: ready_def)
  obtain as m where l: "op_List ops (cells w) (TaskDb w) = Returns (Inr (as, m))"
    "extends (cells w) m"
    "\<forall>a\<in>set as. a < length m \<and> (\<exists>k. val (cells w) (TaskDb w) k = Some (m ! a)
        \<and> (\<forall>k'. refs (TaskDb w) k' = Some a \<longrightarrow> k' = k))"
    "\<forall>k t. val (cells w) (TaskDb w) k = Some t \<longrightarrow> t \<in> (\<lambda>a. m ! a) ` set as"
    using list_ok [OF inv] by blast
  have ext: "inv m (TaskDb w)" "val m (TaskDb w) = val (cells w) (TaskDb w)"
    using inv_extends [OF inv l(2)] val_extends [OF inv l(2)] by simp_all
  show ?thesis
  proof (rule that [of as "w\<lparr>cells := m\<rparr>"])
    show "Db_List e w = Returns (Inr (as, w\<lparr>cells := m\<rparr>))"
      using l(1) by (simp add: Db_List_def ops)
    show "ready ops inv e (w\<lparr>cells := m\<rparr>)"
      using assms ext(1) by (simp add: ready_def)
    show "effect val w (stored val w) [] [] (w\<lparr>cells := m\<rparr>)"
      using ext(2) by (simp add: effect_def stored_def)
    show "\<forall>a\<in>set as. a < length (cells (w\<lparr>cells := m\<rparr>))
       \<and> (\<exists>k. stored val w k = Some (cells (w\<lparr>cells := m\<rparr>) ! a)
           \<and> (\<forall>k'. refs (TaskDb (w\<lparr>cells := m\<rparr>)) k' = Some a \<longrightarrow> k' = k))"
      using l(3) by (simp add: stored_def)
    show "\<forall>k t. stored val w k = Some t \<longrightarrow> (\<exists>a\<in>set as. cells (w\<lparr>cells := m\<rparr>) ! a = t)"
      using l(4) by (auto simp: stored_def)
  qed
qed

lemma updateTaskStatus_spec:
  assumes "ready ops inv e w" and k: "stored val w k \<noteq> None \<Longrightarrow> k \<noteq> ''''"
  obtains w' where "updateTaskStatus e now k out w = Returns w'" and "ready ops inv e w'"
    and "effect val w (after_output now k out (stored val w)) [] [] w'"
proof -
  have inv: "inv (cells w) (TaskDb w)" and ops: "Store_ops e = ops"
    using assms(1) by (simp_all add: ready_def)
  show ?thesis
  proof (cases "stored val w k")
    case None
    then obtain err where "op_Get ops k (cells w) (TaskDb w) = Returns (Inl err)"
      using get_None [OF inv] unfolding stored_def by blast
    with None assms(1) show ?thesis
      by (intro that [of w]) (simp_all add: updateTaskStatus_def Db_Get_def ops after_output_def)
  next
    case (Some t)
    then obtain a m where g: "op_Get ops k (cells w) (TaskDb w) = Returns (Inr (a, m))"
      "extends (cells w) m" "a < length m" "m ! a = t"
      "\<forall>k'. refs (TaskDb w) k' = Some a \<longrightarrow> k' = k"
      using get_Some [OF inv] unfolding stored_def by blast
    let ?u = "w\<lparr>cells := m\<rparr>"
    have u: "ready ops inv e ?u" "effect val w (stored val w) [] [] ?u" "stored val ?u = stored val w"
      using assms(1) inv_extends [OF inv g(2)] val_extends [OF inv g(2)]
      by (simp_all add: ready_def effect_def stored_def)
    have get: "Db_Get e k w = Returns (Inr (a, ?u))"
      using g(1) by (simp add: Db_Get_def ops)
    show ?thesis
    proof (cases "output_update now out t")
      case None
      with Some u get g(4) show ?thesis
        by (intro that [of ?u]) (simp_all add: updateTaskStatus_def after_output_def)
    next
      case new: (Some t')
      have len: "a < length (cells ?u)" and own: "\<forall>k'. refs (TaskDb ?u) k' = Some a \<longrightarrow> k' = k"
        using g(3,5) by simp_all
      obtain w' where w': "Db_Put e k a (set_cell a t' ?u) = Returns (None, w')"
        "ready ops inv e w'" "effect val ?u ((stored val ?u)(k \<mapsto> t')) [] [] w'"
        by (rule Db_Put_set [OF u(1) _ len own, where t = t']) (use k Some in auto)
      then show ?thesis
        using effect_trans [OF u(2) w'(3)] Some new get g(4) u(3)
        by (intro that [of w']) (simp_all add: updateTaskStatus_def after_output_def)
    qed
  qed
qed

lemma RegisterWorker_spec:
  assumes "ready ops inv e w" and "keyed e (stored val w)"
  obtains (ignored) w' where "RegisterWorker e wi w = Returns (None, w')" and "ready ops inv e w'"
      and "effect val (w\<lparr>workers := AList.update (WorkerID wi) wi (workers w)\<rparr>) (stored val w) [] [] w'"
      and "(\<forall>k t. stored val w k = Some t \<longrightarrow> ContainerID (Status t) \<noteq> WorkerID wi)
           \<or> (\<exists>k t. stored val w k = Some t \<and> ContainerID (Status t) = WorkerID wi
                \<and> State (Status t) \<noteq> Scheduled)"
  | (matched) t w' x where "stored val w (task_key e t) = Some t"
      and "ContainerID (Status t) = WorkerID wi" and "State (Status t) = Scheduled"
      and "ready ops inv e w'"
      and "if IsHealthy wi
        then RegisterWorker e wi w = Returns (None, w')
          \<and> effect val (w\<lparr>workers := AList.update (WorkerID wi) wi (workers w)\<rparr>)
              ((stored val w)(task_key e t \<mapsto> started (with_state Starting t)))
              (outgoing w (task_key e t) (state_output (task_key e t) ''Running'' ''''))
              [execution_of (task_key e t) x (started (with_state Starting t))] w'
        else RegisterWorker e wi w
            = Returns (Some (GoError ''RegisterWorker: worker not healthy''), w')
          \<and> effect val (w\<lparr>workers := AList.update (WorkerID wi) wi (workers w)\<rparr>)
              ((stored val w)(task_key e t \<mapsto> failed_task ''Worker not healthy'' t))
              (outgoing w (task_key e t) (state_output (task_key e t) ''failed'' ''Worker not healthy''))
              [] w'"
proof -
  let ?w = "w\<lparr>workers := AList.update (WorkerID wi) wi (workers w)\<rparr>"
  have ready: "ready ops inv e ?w" and st: "stored val ?w = stored val w"
    and out: "outgoing ?w = outgoing w"
    using assms(1) by (simp_all add: ready_def stored_def outgoing_def fun_eq_iff)
  obtain as u where u: "Db_List e ?w = Returns (Inr (as, u))" "ready ops inv e u"
    "effect val ?w (stored val ?w) [] [] u"
    "\<forall>a\<in>set as. a < length (cells u) \<and> (\<exists>k. stored val ?w k = Some (cells u ! a)
           \<and> (\<forall>k'. refs (TaskDb u) k' = Some a \<longrightarrow> k' = k))"
    "\<forall>k t. stored val ?w k = Some t \<longrightarrow> (\<exists>a\<in>set as. cells u ! a = t)"
    by (rule Db_List_spec [OF ready])
  let ?P = "\<lambda>a. ContainerID (Status (cells u ! a)) = WorkerID wi"
  show ?thesis
  proof (cases "List.find ?P as")
    case None
    then have "\<forall>k t. stored val w k = Some t \<longrightarrow> ContainerID (Status t) \<noteq> WorkerID wi"
      using u(5) by (auto simp: find_None_iff st)
    with None u st show ?thesis
      by (intro ignored [of u]) (simp_all add: RegisterWorker_def Let_def)
  next
    case (Some a)
    let ?t = "cells u ! a"
    have "?P a" and "a \<in> set as"
      using Some by (auto simp: find_Some_iff)
    then obtain k where k: "a < length (cells u)" "stored val w k = Some ?t"
      "\<forall>k'. refs (TaskDb u) k' = Some a \<longrightarrow> k' = k"
      using u(4) st by auto
    have key: "k = task_key e ?t"
      using assms(2) k(2) by (simp add: keyed_def)
    note start = RegisterWorker_def Let_def u(1) Some
    show ?thesis
    proof (cases "State (Status ?t) = Scheduled")
      case False
      with \<open>?P a\<close> k(2) u(2,3) st show ?thesis
        by (intro ignored [of u]) (auto simp: start)
    next
      case True
      show ?thesis
      proof (cases "IsHealthy wi")
        case False
        obtain w' where w': "fail_with e ?t ''Worker not healthy''
              (GoError ''RegisterWorker: worker not healthy'') u
            = Returns (Some (GoError ''RegisterWorker: worker not healthy''), w')"
          "ready ops inv e w'"
          "effect val u ((stored val u)(task_key e ?t \<mapsto> failed_task ''Worker not healthy'' ?t))
             (outgoing u (task_key e ?t)
               (state_output (task_key e ?t) ''failed'' ''Worker not healthy'')) [] w'"
          using fail_with_spec [OF u(2), of ?t] True by auto
        have "effect val ?w ((stored val w)(task_key e ?t \<mapsto> failed_task ''Worker not healthy'' ?t))
             (outgoing w (task_key e ?t)
               (state_output (task_key e ?t) ''failed'' ''Worker not healthy'')) [] w'"
          using effect_trans [OF u(3) w'(3)] stored_effect [OF u(3)] outgoing_effect [OF u(3)]
          by (simp add: st out)
        with False True w'(1,2) \<open>?P a\<close> k(2) key show ?thesis
          by (intro matched [of ?t w']) (simp_all add: start)
      next
        case healthy: True
        let ?s = "with_message ''Worker is healthy, starting task'' (with_state Starting ?t)"
        obtain u' where u': "Db_Put e k a (set_cell a ?s u) = Returns (None, u')"
          "ready ops inv e u'" "effect val u ((stored val u)(k \<mapsto> ?s)) [] [] u'"
          "cells u' = (cells u)[a := ?s]"
          using k(3) ready_key [OF assms(1), of ?t] key
          by (rule_tac Db_Put_set [OF u(2) _ k(1,3), where t = ?s]) simp_all
        have cell: "cells u' ! a = ?s"
          using u'(4) k(1) by simp
        obtain w' where w': "StartTask e ?s u' = Returns (None, w')" "ready ops inv e w'"
          "effect val u' ((stored val u')(task_key e ?s \<mapsto> started ?s))
             (outgoing u' (task_key e ?s) (state_output (task_key e ?s) ''Running'' ''''))
             [execution_of (task_key e ?s) (length (cells u')) (started ?s)] w'"
          using StartTask_spec [OF u'(2), of ?s] by auto
        have "started ?s = started (with_state Starting ?t)"
          by (simp add: started_def with_message_def with_state_def)
        then have "effect val ?w ((stored val w)(k \<mapsto> started (with_state Starting ?t)))
             (outgoing w k (state_output k ''Running'' ''''))
             [execution_of k (length (cells u')) (started (with_state Starting ?t))] w'"
          using effect_trans [OF effect_trans [OF u(3) u'(3)] w'(3)] stored_effect [OF u(3)]
            stored_effect [OF u'(3)] outgoing_effect [OF u(3)] outgoing_effect [OF u'(3)]
          by (simp add: st out key)
        moreover have "RegisterWorker e wi w = Returns (None, w')"
          using True healthy u'(1) w'(1) cell key by (simp add: start)
        ultimately show ?thesis
          using True healthy w'(2) \<open>?P a\<close> k(2) key
          by (intro matched [of ?t w' "length (cells u')"]) simp_all
      qed
    qed
  qed
qed

end

text \<open>The error and the task a stop ends with.\<close>

definition stopping :: "'q sandbox_env \<Rightarrow> instant \<Rightarrow> Task \<Rightarrow> go_error option \<times> Task" where
  "stopping sb now t =
     (let t = with_message ''Stopping container...'' (with_state Stopping t) in
      case sandbox_for sb t of
        Inl err \<Rightarrow>
          (Some err, failed_task (''StopTask: error creating sandbox service: '' @ message err) t)
      | Inr svc \<Rightarrow>
          (case DeleteContainerSandbox sb svc (ContainerID (Status t)) of
             Some err \<Rightarrow>
               (Some err, failed_task (''StopTask: error deleting sandbox: '' @ message err) t)
           | None \<Rightarrow>
               (None, with_message ''Container stopped'' (with_finish now (with_state Completed t)))))"

definition stop_output :: "string \<Rightarrow> go_error option \<times> Task \<Rightarrow> CommandOutput" where
  "stop_output k r =
     (if fst r = None then state_output k ''completed'' ''''
      else state_output k ''failed'' (Message (Status (snd r))))"

lemma stopping_metadata [simp]: "Metadata (snd (stopping sb now t)) = Metadata t"
  by (auto simp: stopping_def Let_def split: sum.split option.split)

lemma stopping_key [simp]: "task_key e (snd (stopping sb now t)) = task_key e t"
  by (simp add: task_key_def)

lemma stopping_container [simp]:
  "ContainerID (Status (snd (stopping sb now t))) = ContainerID (Status t)"
  by (auto simp: stopping_def Let_def split: sum.split option.split)

lemma stopping_state:
  "State (Status (snd (stopping sb now t))) = (if fst (stopping sb now t) = None then Completed else Failed)"
  by (auto simp: stopping_def Let_def split: sum.split option.split)

text \<open>The verdict of a health check: the message it fails the task with, if it does.\<close>

fun health_verdict :: "health_event list \<Rightarrow> string option" where
  "health_verdict [] = None"
| "health_verdict (HealthReport healthy status # evs) =
     (if healthy then health_verdict evs else Some (''health check failed: '' @ status))"
| "health_verdict (HealthClosed # evs) = None"
| "health_verdict (HealthDone # evs) = Some ''health check timeout''"

lemma CheckTaskHealth_verdict:
  "CheckTaskHealth e t evs w =
     (if State (Status t) = Running then
        (case health_verdict evs of None \<Rightarrow> Returns w | Some msg \<Rightarrow> failTask e t msg w)
      else Returns w)"
proof -
  have "health_loop e t evs w
      = (case health_verdict evs of None \<Rightarrow> Returns w | Some msg \<Rightarrow> failTask e t msg w)"
    by (induction evs rule: health_verdict.induct) simp_all
  then show ?thesis by (simp add: CheckTaskHealth_def)
qed

definition stop_outcome ::
  "(Task \<Rightarrow> Task res) \<Rightarrow> 'q sandbox_env \<Rightarrow> string \<Rightarrow> instant \<Rightarrow> Task \<Rightarrow>
   go_error option \<times> Task list \<times> CommandOutput list" where
  "stop_outcome f sb k now t =
     two_puts f ''StopTask: error updating to stopping: '' ''StopTask: error updating to completed: ''
       (with_message ''Stopping container...'' (with_state Stopping t)) (stopping sb now t)
       (stop_output k (stopping sb now t))"

context task_db
begin

lemma StopTask_any:
  assumes "ready ops inv e w" and valid: "ValidStateTransition (State (Status t)) Stopping"
    and res: "stop_outcome (keeps (TaskDb w)) (sandboxes e) (task_key e t) now t = (err, ts, outs)"
  obtains w' where "StopTask e now t w = Returns (err, w')" and "ready ops inv e w'"
    and "stored val w' = fold (kept (keeps (TaskDb w)) (task_key e t)) ts (stored val w)"
    and "workers w' = (if err = None then AList.delete (ContainerID (Status t)) (workers w) else workers w)"
    and "notified w' = notified w + mset (concat (map (outgoing w (task_key e t)) outs))"
    and "executing w' = executing w" and "Observers w' = Observers w"
    and "keeps (TaskDb w') = keeps (TaskDb w)"
proof -
  note finish = that
  let ?k = "task_key e t" and ?a = "length (cells w)"
  let ?c = "with_message ''Stopping container...'' (with_state Stopping t)"
  have k: "?k \<noteq> ''''"
    by (rule ready_key [OF assms(1)])
  note start = valid StopTask_def new_cell_def stopping_def stop_output_def Let_def stop_outcome_def
    two_puts_def
  show thesis
  proof (cases rule: Db_Put_new_any [OF assms(1) k, where t = ?c, case_names stored refused])
    case (refused err' u)
    then show thesis
      using res by (intro finish [of u]) (auto simp: start effect_def)
  next
    case put: (stored c' u)
    have out: "outgoing u ?k = outgoing w ?k"
      using outgoing_effect [OF put(4)] by simp
    note start = start put(1,2)
    have failing: thesis if "StopTask e now t w = fail_with e ?c msg err' u"
      and "stop_outcome (keeps (TaskDb w)) (sandboxes e) ?k now t
        = (Some err', [?c, failed_task msg ?c], [state_output ?k ''failed'' msg])" for msg err'
    proof -
      obtain w' where w': "fail_with e ?c msg err' u = Returns (Some err', w')" "ready ops inv e w'"
        "effect val u (kept (keeps (TaskDb u)) ?k (failed_task msg ?c) (stored val u))
           (outgoing u ?k (state_output ?k ''failed'' msg)) [] w'" "keeps (TaskDb w') = keeps (TaskDb u)"
        using fail_with_any [OF put(3), of ?c msg err'] by auto
      have "effect val w (kept (keeps (TaskDb u)) ?k (failed_task msg ?c) ((stored val w)(?k \<mapsto> c')))
          (outgoing w ?k (state_output ?k ''failed'' msg)) [] w'"
        using effect_trans [OF put(4) w'(3)] out stored_effect [OF put(4)] by simp
      with that w'(1,2,4) put(1,5) res show thesis
        by (intro finish [of w']) (auto simp: effect_def)
    qed
    show thesis
    proof (cases "sandbox_for (sandboxes e) ?c")
      case (Inl err')
      then show thesis
        by (intro failing [of "''StopTask: error creating sandbox service: '' @ message err'" err'])
          (simp_all add: start)
    next
      case (Inr svc)
      show thesis
      proof (cases "DeleteContainerSandbox (sandboxes e) svc (ContainerID (Status t))")
        case (Some err')
        with Inr show thesis
          by (intro failing [of "''StopTask: error deleting sandbox: '' @ message err'" err'])
            (simp_all add: start)
      next
        case None
        let ?d = "with_message ''Container stopped'' (with_finish now (with_state Completed ?c))"
        show thesis
        proof (cases rule: Db_Put_set_any [OF put(3) k put(6,7), where t = ?d, case_names stored refused])
          case (refused err' v)
          then show thesis
            using effect_trans [OF put(4) refused(4)] stored_effect [OF put(4)] put(5) res Inr None
            by (intro finish [of v]) (auto simp: start effect_def)
        next
          case (stored d' v)
          let ?n = "NotifyObservers ?k (state_output ?k ''completed'' '''') v"
          let ?w = "?n\<lparr>workers := AList.delete (ContainerID (Status t)) (workers ?n)\<rparr>"
          have n: "effect val w ((stored val w)(?k \<mapsto> d')) (outgoing w ?k (state_output ?k ''completed'' '''')) [] ?n"
            using effect_Notify [OF effect_trans [OF put(4) stored(4)], of ?k] stored_effect [OF put(4)] by simp
          have o: "(err, ts, outs) = (None, [?c, ?d], [state_output ?k ''completed'' ''''])"
            using res Inr None stored(1) put(5) by (simp add: start)
          have "StopTask e now t w = Returns (None, ?w)"
            using Inr None stored(2) by (simp add: start)
          moreover have "ready ops inv e ?w"
            using stored(3) by (simp add: ready_def NotifyObservers_outgoing)
          moreover have "stored val ?w = stored val ?n"
            by (simp add: stored_def)
          ultimately show thesis
            using n o put(1,5) stored(1,5)
            by (intro finish [of ?w]) (simp_all add: effect_def)
        qed
      qed
    qed
  qed
qed

end

context exact_db
begin

lemma StopTask_spec:
  assumes "ready ops inv e w" and valid: "ValidStateTransition (State (Status t)) Stopping"
  obtains w' where "StopTask e now t w = Returns (fst (stopping (sandboxes e) now t), w')"
    and "ready ops inv e w'"
    and "stored val w' = (stored val w)(task_key e t \<mapsto> snd (stopping (sandboxes e) now t))"
    and "workers w' = (if fst (stopping (sandboxes e) now t) = None
           then AList.delete (ContainerID (Status t)) (workers w) else workers w)"
    and "notified w' = notified w +
      mset (outgoing w (task_key e t) (stop_output (task_key e t) (stopping (sandboxes e) now t)))"
    and "executing w' = executing w" and "Observers w' = Observers w"
  by (rule StopTask_any [where now = now, OF assms, unfolded stop_outcome_def two_puts_exact, OF refl])
    (simp add: that)

end

section \<open>Sequences of handlers\<close>

text \<open>
  The goroutines of the service run handlers in an order the model leaves open: a sequence of
  calls is any list. A failed command is one of the executions started so far.
\<close>

datatype service_call =
    DoCreate Task
  | DoRegister WorkerInstance
  | DoOutput string instant CommandOutput
  | DoStop instant Task
  | DoHealth Task "health_event list"
  | DoCommandError nat go_error
  | DoObserve string nat

fun serve ::
  "('d, 'q) service_env \<Rightarrow> service_call \<Rightarrow> 'd worker_service \<Rightarrow> 'd worker_service go" where
  "serve e (DoCreate t) w = go_bind (createContainer e t w) (\<lambda>(err, w). Returns w)"
| "serve e (DoRegister wi) w = go_bind (RegisterWorker e wi w) (\<lambda>(err, w). Returns w)"
| "serve e (DoOutput k now out) w = processTaskOutput e k [(now, out)] w"
| "serve e (DoStop now t) w = go_bind (StopTask e now t w) (\<lambda>(err, w). Returns w)"
| "serve e (DoHealth t evs) w = CheckTaskHealth e t evs w"
| "serve e (DoCommandError i err) w =
     (if i < length (executing w) then command_failed e (executing w ! i) err w else Returns w)"
| "serve e (DoObserve k obs) w = Returns (RegisterObserver k obs w)"

fun serve_all ::
  "('d, 'q) service_env \<Rightarrow> service_call list \<Rightarrow> 'd worker_service \<Rightarrow> 'd worker_service go" where
  "serve_all e [] w = Returns w"
| "serve_all e (c # cs) w = go_bind (serve e c w) (serve_all e cs)"

text \<open>What one call may do to the tasks stored.\<close>

inductive changes ::
  "('d, 'q) service_env \<Rightarrow> service_call \<Rightarrow> (string \<Rightarrow> Task option) \<Rightarrow> execution list \<Rightarrow>
   (string \<Rightarrow> Task option) \<Rightarrow> execution list \<Rightarrow> bool" for e where
  same: "changes e c v xs v xs"
| created: "ValidStateTransition (State (Status t)) Creating \<Longrightarrow>
    changes e (DoCreate t) v xs (v(task_key e t \<mapsto> snd (creation (sandboxes e) t))) xs"
| unhealthy: "v (task_key e t) = Some t \<Longrightarrow> ContainerID (Status t) = WorkerID wi \<Longrightarrow>
    State (Status t) = Scheduled \<Longrightarrow>
    changes e (DoRegister wi) v xs (v(task_key e t \<mapsto> failed_task ''Worker not healthy'' t)) xs"
| running: "v (task_key e t) = Some t \<Longrightarrow> ContainerID (Status t) = WorkerID wi \<Longrightarrow>
    State (Status t) = Scheduled \<Longrightarrow>
    changes e (DoRegister wi) v xs (v(task_key e t \<mapsto> started (with_state Starting t)))
      (xs @ [execution_of (task_key e t) x (started (with_state Starting t))])"
| out_put: "v k = Some t \<Longrightarrow> output_update now out t = Some t' \<Longrightarrow>
    changes e (DoOutput k now out) v xs (v(k \<mapsto> t')) xs"
| stopped: "ValidStateTransition (State (Status t)) Stopping \<Longrightarrow>
    changes e (DoStop now t) v xs (v(task_key e t \<mapsto> snd (stopping (sandboxes e) now t))) xs"
| unwell: "State (Status t) = Running \<Longrightarrow>
    changes e (DoHealth t evs) v xs (v(task_key e t \<mapsto> failed_task msg t)) xs"
| command_error: "i < length xs \<Longrightarrow>
    changes e (DoCommandError i err) v xs (v(task_key e t \<mapsto> failed_task msg t)) xs"

inductive_cases changesE: "changes e c v xs v' xs'"

lemma Metadata_output_update:
  "output_update now out t = Some t' \<Longrightarrow>
     Metadata t' = Metadata t \<and> Spec t' = Spec t
     \<and> ContainerID (Status t') = ContainerID (Status t)"
  by (auto simp: output_update_def set_exit_code_def Let_def with_state_def with_message_def
      with_finish_def split: if_splits)

lemma started_fields [simp]:
  "State (Status (started t)) = Running"
  "ContainerID (Status (started t)) = ContainerID (Status t)"
  "Metadata (started t) = Metadata t"
  "task_key e (started t) = task_key e t"
  by (simp_all add: started_def)

lemma changes_keyed: "changes e c v xs v' xs' \<Longrightarrow> keyed e v \<Longrightarrow> keyed e v'"
proof (induction rule: changes.induct)
  case (out_put v k t now out t' xs)
  then have "k = task_key e t'"
    using Metadata_output_update by (fastforce simp: keyed_def task_key_def)
  with out_put.prems show ?case by (rule keyed_upd')
next
  case (same c v xs)
  then show ?case .
qed (erule keyed_upd', simp)+

context exact_db
begin

lemma processTaskOutput_one:
  assumes "ready ops inv e w" and "stored val w k \<noteq> None \<Longrightarrow> k \<noteq> ''''"
  obtains w' where "processTaskOutput e k [(now, out)] w = Returns w'" and "ready ops inv e w'"
    and "effect val w (after_output now k out (stored val w)) (outgoing w k out) [] w'"
proof -
  let ?n = "NotifyObservers k out w"
  have n: "effect val w (stored val w) (outgoing w k out) [] ?n"
    using effect_Notify [of val w "stored val w" "[]" "[]" w k out] by simp
  have same: "stored val ?n = stored val w"
    by (simp add: stored_def NotifyObservers_outgoing)
  obtain w' where "updateTaskStatus e now k out ?n = Returns w'" "ready ops inv e w'"
    "effect val ?n (after_output now k out (stored val ?n)) [] [] w'"
    using updateTaskStatus_spec [of e ?n k now out] assms same by auto
  then show ?thesis
    using effect_trans [OF n] same by (intro that [of w']) fastforce+
qed

lemma serve_changes:
  assumes r: "ready ops inv e w" and key: "keyed e (stored val w)"
  shows "\<exists>w'. serve e c w = Returns w' \<and> ready ops inv e w'
     \<and> changes e c (stored val w) (executing w) (stored val w') (executing w')"
proof (cases c)
  case (DoCreate t)
  show ?thesis
  proof (cases "ValidStateTransition (State (Status t)) Creating")
    case True
    then show ?thesis
      using createContainer_spec [OF r, of t] changes.created [of t e]
      by (metis (no_types, lifting) DoCreate effect_def append_Nil2 case_prod_conv go_bind.simps(1)
          serve.simps(1))
  next
    case False
    then show ?thesis
      using r by (auto simp: DoCreate createContainer_def intro: changes.same)
  qed
next
  case (DoRegister wi)
  show ?thesis
    using r key
  proof (cases rule: RegisterWorker_spec [where wi = wi])
    case (ignored w')
    then show ?thesis
      by (auto simp: DoRegister effect_def intro: changes.same)
  next
    case (matched t w' x)
    then show ?thesis
      by (cases "IsHealthy wi")
        (auto simp: DoRegister effect_def intro: changes.unhealthy changes.running)
  qed
next
  case (DoOutput k now out)
  have nonempty: "stored val w k \<noteq> None \<Longrightarrow> k \<noteq> ''''"
    using r key unfolding keyed_def ready_def task_key_def by (metis option.exhaust)
  obtain w' where w': "processTaskOutput e k [(now, out)] w = Returns w'" "ready ops inv e w'"
    "effect val w (after_output now k out (stored val w)) (outgoing w k out) [] w'"
    using processTaskOutput_one [OF r nonempty] by blast
  have "changes e c (stored val w) (executing w) (after_output now k out (stored val w)) (executing w)"
    by (auto simp: DoOutput after_output_def split: option.splits
        intro: changes.same changes.out_put)
  with w' show ?thesis
    by (auto simp: DoOutput effect_def)
next
  case (DoStop now t)
  show ?thesis
  proof (cases "ValidStateTransition (State (Status t)) Stopping")
    case True
    then show ?thesis
      using StopTask_spec [OF r True, of now] changes.stopped [OF True]
      by (metis (no_types, lifting) DoStop case_prod_conv go_bind.simps(1) serve.simps(4))
  next
    case False
    then show ?thesis
      using r by (auto simp: DoStop StopTask_def intro: changes.same)
  qed
next
  case (DoHealth t evs)
  show ?thesis
  proof (cases "State (Status t) = Running \<and> health_verdict evs \<noteq> None")
    case True
    then obtain msg where msg: "health_verdict evs = Some msg" and run: "State (Status t) = Running"
      by blast
    obtain w' where "failTask e t msg w = Returns w'" "ready ops inv e w'"
      "stored val w' = (stored val w)(task_key e t \<mapsto> failed_task msg t)"
      "executing w' = executing w"
      using failTask_spec [OF r, of t msg] run by (auto simp: effect_def)
    with msg run show ?thesis
      by (auto simp: DoHealth CheckTaskHealth_verdict intro: changes.unwell)
  next
    case False
    then show ?thesis
      using r by (auto simp: DoHealth CheckTaskHealth_verdict intro: changes.same)
  qed
next
  case (DoCommandError i err)
  show ?thesis
  proof (cases "i < length (executing w)")
    case True
    let ?x = "executing w ! i"
    let ?n = "NotifyObservers (exec_id ?x) (state_output (exec_id ?x) ''failed'' (message err)) w"
    let ?t = "cells ?n ! exec_cell ?x" and ?msg = "''command execution error: '' @ message err"
    have n: "ready ops inv e ?n" "stored val ?n = stored val w" "executing ?n = executing w"
      using r by (simp_all add: ready_def stored_def NotifyObservers_outgoing)
    obtain w' where w': "failTask e ?t ?msg ?n = Returns w'" "ready ops inv e w'"
      and eff: "effect val ?n
        (if ValidStateTransition (State (Status ?t)) Failed
         then (stored val ?n)(task_key e ?t \<mapsto> failed_task ?msg ?t) else stored val ?n)
        (if ValidStateTransition (State (Status ?t)) Failed
         then outgoing ?n (task_key e ?t) (state_output (task_key e ?t) ''failed'' ?msg) else []) [] w'"
      by (rule failTask_spec [OF n(1)])
    have after: "stored val w' = (if ValidStateTransition (State (Status ?t)) Failed
         then (stored val w)(task_key e ?t \<mapsto> failed_task ?msg ?t) else stored val w)"
      "executing w' = executing w"
      using eff by (simp_all only: effect_def n append_Nil2)
    have "changes e c (stored val w) (executing w) (stored val w') (executing w')"
      unfolding after DoCommandError
      by (simp add: True changes.same changes.command_error)
    moreover have "serve e c w = Returns w'"
      using True w'(1) by (simp only: DoCommandError serve.simps command_failed_def Let_def if_True)
    ultimately show ?thesis
      using w'(2) by blast
  next
    case False
    then show ?thesis
      using r by (auto simp: DoCommandError intro: changes.same)
  qed
next
  case (DoObserve k obs)
  then show ?thesis
    using r by (auto simp: RegisterObserver_def ready_def stored_def intro: changes.same)
qed

text \<open>An invariant of the tasks stored and the executions started holds along every sequence.\<close>

lemma serve_all_invariant:
  assumes "\<And>c v xs v' xs'. c \<in> set cs \<Longrightarrow> changes e c v xs v' xs' \<Longrightarrow> keyed e v \<Longrightarrow> I v xs \<Longrightarrow> I v' xs'"
    and "ready ops inv e w" and "keyed e (stored val w)" and "I (stored val w) (executing w)"
  shows "\<exists>w'. serve_all e cs w = Returns w' \<and> ready ops inv e w' \<and> keyed e (stored val w')
     \<and> I (stored val w') (executing w')"
  using assms
proof (induction cs arbitrary: w)
  case Nil
  then show ?case by simp
next
  case (Cons c cs)
  obtain u where u: "serve e c w = Returns u" "ready ops inv e u"
    "changes e c (stored val w) (executing w) (stored val u) (executing u)"
    using serve_changes [OF Cons.prems(2,3)] by blast
  have "keyed e (stored val u)" and "I (stored val u) (executing u)"
    using changes_keyed [OF u(3) Cons.prems(3)] Cons.prems(1) [OF _ u(3) Cons.prems(3,4)] by simp_all
  moreover have "\<And>c v xs v' xs'. c \<in> set cs \<Longrightarrow> changes e c v xs v' xs' \<Longrightarrow> keyed e v \<Longrightarrow> I v xs \<Longrightarrow> I v' xs'"
    using Cons.prems(1) by (meson list.set_intros(2))
  ultimately show ?case
    using Cons.IH [OF _ u(2)] u(1) by simp
qed

end

end
