(* ===== verification/Worker_Properties.thy ===== *)
theory Worker_Properties
  imports Worker_Effects
begin

text \<open>
  The properties of the worker service: its safety over every sequence of handler calls, the
  outcomes of creating, registering and stopping, the life cycle of stored tasks, and the
  consequences of handlers that work on copies of a task.
\<close>

section \<open>Properties\<close>

definition in_memory :: "(InMemoryTaskStore, 'q) service_env \<Rightarrow> bool" where
  "in_memory e \<longleftrightarrow>
     (\<exists>fmt_v iter. Store_ops e = mem_ops fmt_v iter \<and> iteration_order iter)
     \<and> (\<forall>i. id_String e i \<noteq> '''')"

lemma in_memoryE:
  assumes "in_memory e"
  obtains fmt_v iter where "\<And>h. ready (mem_ops fmt_v iter) (mem_inv iter) e
    (NewWorkerService NewInMemoryTaskStore h)" and "Store_ops e = mem_ops fmt_v iter"
    and "iteration_order iter"
  using assms by (auto simp: in_memory_def ready_def NewWorkerService_def mem_inv_new)

lemma stored_new [simp]: "stored mem_val (NewWorkerService NewInMemoryTaskStore h) = Map.empty"
  by (simp add: stored_def NewWorkerService_def mem_val_def mem_refs_def NewInMemoryTaskStore_def
      fun_eq_iff)

lemma executing_new [simp]: "executing (NewWorkerService d h) = []"
  by (simp add: NewWorkerService_def)

text \<open>An environment for the witnesses: every Docker call succeeds, identifiers print in decimal.\<close>

definition demo_sandboxes :: "unit sandbox_env" where
  "demo_sandboxes =
     \<lparr>docker_cli = Inr ''unix:///var/run/docker.sock'',
      kube_config = \<lparr>in_cluster_error = None, url_error = (\<lambda>_. None), clientset_error = None\<rparr>,
      docker = ok_docker, drawn_port = 0, quote_text = (\<lambda>s. s), env_order = (\<lambda>m. m),
      kube = \<lparr>MustParse = (\<lambda>_. Returns ()), NewQuantity = (\<lambda>_. ()), CreatePod = (\<lambda>_ _. Inr ''''),
              DeletePod = (\<lambda>_ _. None), ListPods = (\<lambda>_ _. Inr [])\<rparr>,
      shell = \<lparr>run_error = (\<lambda>_. None), run_output = (\<lambda>_. Inr '''')\<rparr>, unix_now = 0\<rparr>"

definition demo_env :: "(InMemoryTaskStore, unit) service_env" where
  "demo_env =
     \<lparr>Store_ops = mem_ops (\<lambda>_. '''') (\<lambda>m. m), id_String = (\<lambda>i. show_nat (unat i)),
      sandboxes = demo_sandboxes\<rparr>"

lemma demo_in_memory: "in_memory demo_env"
  unfolding in_memory_def demo_env_def
  by (auto simp: show_nat_not_Nil intro!: exI [of _ "\<lambda>_. ''''"] exI [of _ "\<lambda>m. m"])

definition demo_task :: "State \<Rightarrow> string \<Rightarrow> Task" where
  "demo_task s cid =
     (let t = NewTask 0 7 ''job'' ''alpine'';
          t = t\<lparr>Spec := (Spec t)\<lparr>SpecConfig := (SpecConfig (Spec t))
                \<lparr>SandboxTypeField := SandboxTypeDocker, Resources := zero_resources\<rparr>\<rparr>\<rparr>
      in t\<lparr>Status := (Status t)\<lparr>State := s, ContainerID := cid\<rparr>\<rparr>)"

lemma demo_task_fields [simp]:
  "State (Status (demo_task s cid)) = s" "ContainerID (Status (demo_task s cid)) = cid"
  "task_key demo_env (demo_task s cid) = show_nat 7"
  by (simp_all add: demo_task_def NewTask_def task_key_def demo_env_def)

lemma serve_all_returns:
  assumes "in_memory e"
  shows "\<exists>w. serve_all e cs (NewWorkerService NewInMemoryTaskStore h) = Returns w
     \<and> keyed e (stored mem_val w)"
proof -
  obtain fmt_v iter where r: "ready (mem_ops fmt_v iter) (mem_inv iter) e
      (NewWorkerService NewInMemoryTaskStore h)"
    using assms by (rule in_memoryE) blast
  have "\<exists>w. serve_all e cs (NewWorkerService NewInMemoryTaskStore h) = Returns w
     \<and> ready (mem_ops fmt_v iter) (mem_inv iter) e w \<and> keyed e (stored mem_val w) \<and> True"
    by (rule mem_db.serve_all_invariant [where I = "\<lambda>_ _. True", OF _ r]) (simp_all add: keyed_def)
  then show ?thesis by blast
qed

text \<open>C13: No sequence of handler calls, in any order and with any arguments, panics on an
  in-memory store, and every task stored is stored under its own identifier.\<close>

theorem no_handler_panics:
  assumes "in_memory e"
  shows "\<exists>w. serve_all e cs (NewWorkerService NewInMemoryTaskStore h) = Returns w
     \<and> (\<forall>k t. stored mem_val w k = Some t \<longrightarrow> k = id_String e (MetaID (Metadata t)))"
  using serve_all_returns [OF assms] by (auto simp: keyed_def task_key_def)

lemma no_handler_panics_witness:
  "\<exists>w. serve_all demo_env
      [DoCreate (demo_task Pending ''''), DoOutput ''nobody'' 5 (state_output '''' ''running'' ''''),
       DoCommandError 3 (GoError ''lost'')]
      (NewWorkerService NewInMemoryTaskStore []) = Returns w"
  using no_handler_panics [OF demo_in_memory] by blast

lemma creation_container:
  assumes "fst (creation sb t) = None"
  shows "ContainerID (Status (snd (creation sb t))) = ''''
    \<and> SandboxTypeField (SpecConfig (Spec t)) = SandboxTypeDocker"
proof (cases rule: creation_cases [of sb t])
  case (made d cid cfg)
  then have "SandboxTypeField (SpecConfig (Spec t)) = SandboxTypeDocker"
    by (auto simp: sandbox_for_def factory_of_sandbox_config SandboxTypeDocker_def split: if_splits)
  moreover have "cid = ''''"
    using made(2) Docker_create_facts
    by (auto simp: CreateContainerSandbox_def split: prod.splits)
  ultimately show ?thesis
    using made by (simp add: creation_def)
next
  case (no_service err)
  with assms show ?thesis by (simp add: creation_def Let_def)
next
  case (refused d err cfg)
  with assms show ?thesis by (simp add: creation_def Let_def)
qed

text \<open>What holds in every state an in-memory service can reach.\<close>

lemma reached:
  assumes "in_memory e" and "serve_all e cs (NewWorkerService NewInMemoryTaskStore h) = Returns w"
  obtains fmt_v iter where "ready (mem_ops fmt_v iter) (mem_inv iter) e w"
    and "keyed e (stored mem_val w)"
proof -
  obtain fmt_v iter where r: "ready (mem_ops fmt_v iter) (mem_inv iter) e
      (NewWorkerService NewInMemoryTaskStore h)"
    using assms(1) by (rule in_memoryE) blast
  have "\<exists>w. serve_all e cs (NewWorkerService NewInMemoryTaskStore h) = Returns w
     \<and> ready (mem_ops fmt_v iter) (mem_inv iter) e w \<and> keyed e (stored mem_val w) \<and> True"
    by (rule mem_db.serve_all_invariant [where I = "\<lambda>_ _. True", OF _ r]) (simp_all add: keyed_def)
  with assms(2) show ?thesis
    by (auto intro: that)
qed

text \<open>A service over a store behind the interface, whichever it is.\<close>

lemma any_ready:
  "Store_ops e = any_task_ops fmt_v iter b j \<Longrightarrow> any_inv iter b j (cells w) (TaskDb w) \<Longrightarrow>
     \<forall>i. id_String e i \<noteq> '''' \<Longrightarrow> ready (any_task_ops fmt_v iter b j) (any_inv iter b j) e w"
  by (simp add: ready_def)

text \<open>C8: Creating a container, on every branch and on either kind of store (assumed to be in order: no two
  keys of a memory store share a cell, the bucket of a bolt store exists and its entries decode; it is left in order). A
  task that cannot become Creating is refused and nothing changes. If the store refuses it as Creating, nothing
  but the error comes of it. If the sandbox service or the container cannot be made, the error is returned, the task
  is put as Failed and its observers are told; the sandbox service never panics. Otherwise the task is put as
  Scheduled with the identifier of its container, which is empty and of a Docker sandbox; if the
  store refuses that, an error is returned, the task stays Creating and nobody is told.\<close>

theorem create_container_outcome:
  assumes "Store_ops e = any_task_ops fmt_v iter b j"
    and "any_inv iter b j (cells w) (TaskDb w)" and "\<forall>i. id_String e i \<noteq> ''''"
  shows "let k = task_key e t; f = any_keeps j (TaskDb w); v = stored (any_val b j) w;
      c = with_state Creating t in
    if \<not> ValidStateTransition (State (Status t)) Creating
    then createContainer e t w = Returns (Some (GoError (''createContainer: cannot transition from '' @
      State_String (State (Status t)) @ '' to Creating'')), w)
    else \<exists>r w'. createContainer e t w = Returns (r, w') \<and> any_inv iter b j (cells w') (TaskDb w')
      \<and> workers w' = workers w \<and> executing w' = executing w
      \<and> (let fails = (\<lambda>what x u. r = Some x
              \<and> stored (any_val b j) w' = kept f k (failed_task (what @ message x) u) (kept f k c v)
              \<and> notified w' = notified w + mset (outgoing w k (state_output k ''failed'' (what @ message x)))) in
         case f c of
           Inl x \<Rightarrow> r = Some (GoError (''createContainer: error storing task: '' @ message x))
             \<and> stored (any_val b j) w' = v \<and> notified w' = notified w
         | Inr _ \<Rightarrow>
             (case sandbox_for (sandboxes e) c of
                Inl x \<Rightarrow> fails ''error creating sandbox service: '' x c
              | Inr svc \<Rightarrow>
                  (case CreateContainerSandbox (sandboxes e) svc (SpecConfig (Spec t)) of
                     Panics p \<Rightarrow> False
                   | Returns (Inl x, cfg) \<Rightarrow>
                       fails ''error creating container: '' x (c\<lparr>Spec := (Spec c)\<lparr>SpecConfig := cfg\<rparr>\<rparr>)
                   | Returns (Inr cid, cfg) \<Rightarrow>
                       (let d = scheduled cid (c\<lparr>Spec := (Spec c)\<lparr>SpecConfig := cfg\<rparr>\<rparr>) in
                        cid = '''' \<and> SandboxTypeField (SpecConfig (Spec t)) = SandboxTypeDocker
                        \<and> (case f d of
                             Inl x \<Rightarrow> r = Some (GoError (''createContainer: error updating to scheduled: '' @ message x))
                               \<and> stored (any_val b j) w' = kept f k c v \<and> notified w' = notified w
                           | Inr _ \<Rightarrow> r = None
                               \<and> stored (any_val b j) w' = kept f k d (kept f k c v)
                               \<and> notified w' = notified w + mset (outgoing w k (state_output k ''Scheduled'' '''')))))))"
proof (cases "ValidStateTransition (State (Status t)) Creating")
  case False
  then show ?thesis by (simp add: createContainer_def Let_def)
next
  case True
  note r = any_ready [OF assms]
  let ?f = "any_keeps j (TaskDb w)" and ?k = "task_key e t" and ?c = "with_state Creating t"
  obtain x ts outs where o: "creation_outcome ?f (sandboxes e) ?k t = (x, ts, outs)"
    by (cases "creation_outcome ?f (sandboxes e) ?k t")
  obtain w' where w': "createContainer e t w = Returns (x, w')" "any_inv iter b j (cells w') (TaskDb w')"
    "effect (any_val b j) w (fold (kept ?f ?k) ts (stored (any_val b j) w))
       (concat (map (outgoing w ?k) outs)) [] w'"
    by (rule any_db.createContainer_any [OF r True o]) (simp add: ready_def)
  note defs = creation_outcome_def creation_def creation_output_def two_puts_def Let_def
  have valid: "\<not> \<not> ValidStateTransition (State (Status t)) Creating"
    using True by simp
  note goal = Let_def if_not_P [OF valid]
  show ?thesis
  proof (cases "?f ?c")
    case (Inl y)
    with o w' show ?thesis
      unfolding goal by (intro exI [of _ x] exI [of _ w']) (auto simp: effect_def defs)
  next
    case first: (Inr c')
    show ?thesis
    proof (cases rule: creation_cases [of "sandboxes e" t])
      case (no_service err)
      with first o w' show ?thesis
        unfolding goal by (intro exI [of _ x] exI [of _ w']) (auto simp: effect_def defs)
    next
      case (refused d err cfg)
      with first o w' show ?thesis
        unfolding goal by (intro exI [of _ x] exI [of _ w']) (auto simp: effect_def defs)
    next
      case (made d cid cfg)
      then have "fst (creation (sandboxes e) t) = None"
        by (simp add: creation_def)
      from creation_container [OF this] made
      have "cid = ''''" and "SandboxTypeField (SpecConfig (Spec t)) = SandboxTypeDocker"
        by (simp_all add: creation_def)
      with first o w' made show ?thesis
        unfolding goal
        by (cases "?f (scheduled cid (?c\<lparr>Spec := (Spec ?c)\<lparr>SpecConfig := cfg\<rparr>\<rparr>))";
            intro exI [of _ x] exI [of _ w']) (auto simp: effect_def defs)
    qed
  qed
qed

lemma demo_creation: "fst (creation demo_sandboxes (demo_task Pending '''')) = None"
  by (simp add: creation_def sandbox_for_def factory_of_sandbox_config demo_sandboxes_def
      demo_task_def NewTask_def SandboxTypeDocker_def NewDockerContainerSandboxService_def
      CreateContainerSandbox_def create_with_port service_host_def Let_def with_state_def
      container_resources_def with_port_def start_container_def ok_docker_def zero_resources_def
      HasPrefix_def)

definition demo_any_env :: "(map_db any_store, unit) service_env" where
  "demo_any_env =
     \<lparr>Store_ops = any_task_ops (\<lambda>_. '''') (\<lambda>m. m) map_bolt any_json, id_String = (\<lambda>i. show_nat (unat i)),
      sandboxes = demo_sandboxes\<rparr>"

definition demo_service :: "map_db any_store worker_service" where
  "demo_service = NewWorkerService (MemoryTaskStore NewInMemoryTaskStore) []"

lemma demo_any [simp]:
  "Store_ops demo_any_env = any_task_ops (\<lambda>_. '''') (\<lambda>m. m) map_bolt any_json"
  "\<forall>i. id_String demo_any_env i \<noteq> ''''" "sandboxes demo_any_env = demo_sandboxes"
  "any_inv (\<lambda>m. m) map_bolt any_json (cells demo_service) (TaskDb demo_service)"
  "any_keeps any_json (TaskDb demo_service) t = Inr t"
  "task_key demo_any_env (demo_task s cid) = show_nat 7"
  by (simp_all add: demo_any_env_def demo_service_def NewWorkerService_def mem_inv_new mem_keeps_def
      show_nat_not_Nil task_key_def demo_task_def NewTask_def del: show_nat.simps)

lemma create_container_outcome_witness:
  "\<exists>w' t'. createContainer demo_any_env (demo_task Pending '''') demo_service = Returns (None, w')
    \<and> stored (any_val map_bolt any_json) w' (show_nat 7) = Some t' \<and> State (Status t') = Scheduled
    \<and> ContainerID (Status t') = ''''"
proof (cases rule: creation_cases [of demo_sandboxes "demo_task Pending ''''"])
  case (made d cid cfg)
  with create_container_outcome [OF demo_any(1,4,2), of "demo_task Pending ''''"]
  show ?thesis
    by (auto simp: Let_def simp del: show_nat.simps)
qed (use demo_creation in \<open>simp_all add: creation_def Let_def\<close>)

text \<open>The calls of a service whose tasks come without a container and whose workers have names.\<close>

fun plain_call :: "service_call \<Rightarrow> bool" where
  "plain_call (DoCreate t) \<longleftrightarrow> ContainerID (Status t) = ''''"
| "plain_call (DoRegister wi) \<longleftrightarrow> WorkerID wi \<noteq> ''''"
| "plain_call (DoStop now t) \<longleftrightarrow> ContainerID (Status t) = ''''"
| "plain_call (DoHealth t evs) \<longleftrightarrow> ContainerID (Status t) = ''''"
| "plain_call _ \<longleftrightarrow> True"

definition idle :: "(string \<Rightarrow> Task option) \<Rightarrow> execution list \<Rightarrow> bool" where
  "idle v xs \<longleftrightarrow> xs = [] \<and> (\<forall>k t. v k = Some t \<longrightarrow>
     ContainerID (Status t) = '''' \<and> State (Status t) \<notin> {Starting, Running})"

lemma idle_upd:
  "idle v xs \<Longrightarrow> ContainerID (Status t) = '''' \<Longrightarrow> State (Status t) \<notin> {Starting, Running} \<Longrightarrow>
     idle (v(k \<mapsto> t)) xs"
  by (simp add: idle_def)

lemma creation_no_container:
  assumes "ContainerID (Status t) = ''''"
  shows "ContainerID (Status (snd (creation sb t))) = ''''"
proof (cases "fst (creation sb t) = None")
  case True
  then show ?thesis by (simp add: creation_container)
next
  case False
  with assms show ?thesis
    by (cases rule: creation_cases [of sb t]) (simp_all add: creation_def Let_def)
qed

lemma output_update_state:
  "output_update now out t = Some t' \<Longrightarrow> State (Status t) \<notin> {Starting, Running} \<Longrightarrow>
     State (Status t') \<notin> {Starting, Running}"
  by (cases "State (Status t)")
    (auto simp: output_update_def set_exit_code_def Let_def with_state_def with_message_def
      with_finish_def split: if_splits)

lemma changes_idle:
  "changes e c v xs v' xs' \<Longrightarrow> plain_call c \<Longrightarrow> idle v xs \<Longrightarrow> idle v' xs'"
proof (induction rule: changes.induct)
  case (created t v xs)
  then show ?case
    by (intro idle_upd) (simp_all add: creation_no_container creation_result_state)
next
  case (out_put v k t now out t' xs)
  then have "ContainerID (Status t) = ''''" and "State (Status t) \<notin> {Starting, Running}"
    by (auto simp: idle_def)
  then show ?case
    using out_put Metadata_output_update output_update_state by (intro idle_upd) metis+
next
  case (stopped t now v xs)
  then show ?case
    by (intro idle_upd) (simp_all add: stopping_state)
next
  case (unwell t evs v msg xs)
  then show ?case by (intro idle_upd) simp_all
qed (auto simp: idle_def)

text \<open>C29: With the repository's own sandboxes no task is ever executed: from an empty in-memory
  service, whatever tasks without a container are created, stopped or checked, whatever workers
  with a non-empty identifier register and whatever output arrives, StartTask never starts a
  command and no stored task is ever Starting or Running, because every created task is stored
  under the empty container identifier.\<close>

theorem no_task_is_ever_executed:
  assumes "in_memory e" and "\<forall>c\<in>set cs. plain_call c"
  shows "\<exists>w. serve_all e cs (NewWorkerService NewInMemoryTaskStore h) = Returns w
     \<and> executing w = []
     \<and> (\<forall>k t. stored mem_val w k = Some t \<longrightarrow>
          ContainerID (Status t) = '''' \<and> State (Status t) \<notin> {Starting, Running})"
proof -
  obtain fmt_v iter where r: "ready (mem_ops fmt_v iter) (mem_inv iter) e
      (NewWorkerService NewInMemoryTaskStore h)"
    using assms(1) by (rule in_memoryE) blast
  have "\<exists>w. serve_all e cs (NewWorkerService NewInMemoryTaskStore h) = Returns w
     \<and> ready (mem_ops fmt_v iter) (mem_inv iter) e w \<and> keyed e (stored mem_val w)
     \<and> idle (stored mem_val w) (executing w)"
  proof (rule mem_db.serve_all_invariant [OF _ r])
    show "idle v' xs'" if "c \<in> set cs" "changes e c v xs v' xs'" "idle v xs" for c v xs v' xs'
      using that assms(2) by (blast intro: changes_idle)
    show "keyed e (stored mem_val (NewWorkerService NewInMemoryTaskStore h))"
      by (simp add: keyed_def)
    show "idle (stored mem_val (NewWorkerService NewInMemoryTaskStore h))
        (executing (NewWorkerService NewInMemoryTaskStore h))"
      by (simp add: idle_def)
  qed
  then show ?thesis
    by (auto simp: idle_def)
qed

definition demo_worker :: "string \<Rightarrow> WorkerInstance" where
  "demo_worker i =
     \<lparr>WorkerID = i, WorkerName = ''w1'', Address = ''10.0.0.9'', Port = 50051, IsHealthy = True,
      IsBusy = False\<rparr>"

lemma no_task_is_ever_executed_witness:
  "\<exists>w. serve_all demo_env [DoCreate (demo_task Pending ''''), DoRegister (demo_worker ''c0ffee'')]
      (NewWorkerService NewInMemoryTaskStore []) = Returns w \<and> executing w = []"
proof -
  have "\<forall>c\<in>set [DoCreate (demo_task Pending ''''), DoRegister (demo_worker ''c0ffee'')]. plain_call c"
    by (simp add: demo_worker_def)
  then show ?thesis
    using no_task_is_ever_executed [OF demo_in_memory] by blast
qed

text \<open>C9: When a worker registers whose identifier is the container of a Scheduled task, and of
  no other, the task runs if the worker is healthy: it is stored as Running, its command starts
  with the task's own command, directory, environment and timeout (thirty minutes if it has
  none), its observers are told and the worker is recorded. If the worker is not healthy the
  task is stored as Failed and the registration is refused.\<close>

theorem registered_worker_runs_task:
  assumes "in_memory e" and "serve_all e cs (NewWorkerService NewInMemoryTaskStore h) = Returns w"
    and "stored mem_val w k = Some t" and "ContainerID (Status t) = WorkerID wi"
    and "State (Status t) = Scheduled"
    and "\<And>k' t'. stored mem_val w k' = Some t' \<Longrightarrow> ContainerID (Status t') = WorkerID wi \<Longrightarrow> t' = t"
  shows "\<exists>err w' t' xs. RegisterWorker e wi w = Returns (err, w')
     \<and> stored mem_val w' = (stored mem_val w)(k \<mapsto> t')
     \<and> executing w' = executing w @ xs
     \<and> map_of (workers w') (WorkerID wi) = Some wi
     \<and> (if IsHealthy wi
        then err = None \<and> State (Status t') = Running
          \<and> (\<exists>x. xs = [\<lparr>exec_cell = x, exec_id = k, exec_command = Command (Spec t),
                 exec_dir = WorkingDir (SpecConfig (Spec t)), exec_env = EnvVars (SpecConfig (Spec t)),
                 exec_timeout = (if Timeout (Spec t) = 0 then DEFAULT_TIMEOUT else Timeout (Spec t))\<rparr>])
          \<and> notified w' = notified w + mset (outgoing w k (state_output k ''Running'' ''''))
        else err = Some (GoError ''RegisterWorker: worker not healthy'')
          \<and> State (Status t') = Failed \<and> xs = [])"
proof -
  obtain fmt_v iter where r: "ready (mem_ops fmt_v iter) (mem_inv iter) e w"
    and keyed: "keyed e (stored mem_val w)"
    by (rule reached [OF assms(1,2)])
  have key: "k = task_key e t"
    using keyed assms(3) by (simp add: keyed_def)
  show ?thesis
    using r keyed
  proof (cases rule: mem_db.RegisterWorker_spec [where wi = wi])
    case (ignored w')
    with assms(3-6) show ?thesis by metis
  next
    case (matched u w' x)
    have u: "u = t"
      using matched(1,2) assms(6) by blast
    show ?thesis
    proof (cases "IsHealthy wi")
      case True
      let ?s = "started (with_state Starting t)"
      have spec: "Spec ?s = Spec t"
        by (simp add: started_def)
      show ?thesis
        using matched(5) True
        by (intro exI [of _ None] exI [of _ w'] exI [of _ ?s] exI [of _ "[execution_of k x ?s]"])
          (simp add: u effect_def key execution_of_def spec)
    next
      case False
      show ?thesis
        using matched(5) False
        by (intro exI [of _ "Some (GoError ''RegisterWorker: worker not healthy'')"] exI [of _ w']
            exI [of _ "failed_task ''Worker not healthy'' t"] exI [of _ "[]"])
          (simp add: u effect_def key)
    qed
  qed
qed

lemma registered_worker_runs_task_witness:
  "\<exists>w w' t'. serve_all demo_env [DoCreate (demo_task Pending '''')]
       (NewWorkerService NewInMemoryTaskStore []) = Returns w
     \<and> RegisterWorker demo_env (demo_worker '''') w = Returns (None, w')
     \<and> stored mem_val w' (show_nat 7) = Some t' \<and> State (Status t') = Running"
proof -
  let ?s = "NewWorkerService NewInMemoryTaskStore []" and ?t = "demo_task Pending ''''"
  let ?u = "snd (creation demo_sandboxes ?t)"
  have env: "sandboxes demo_env = demo_sandboxes"
    by (simp add: demo_env_def)
  have r: "ready (mem_ops (\<lambda>_. '''') (\<lambda>m. m)) (mem_inv (\<lambda>m. m)) demo_env ?s"
    by (simp add: ready_def demo_env_def NewWorkerService_def mem_inv_new show_nat_not_Nil
        del: show_nat.simps)
  obtain w where w: "createContainer demo_env ?t ?s = Returns (None, w)"
    "stored mem_val w = [show_nat 7 \<mapsto> ?u]"
    using mem_db.createContainer_spec [OF r, of ?t] demo_creation
    by (auto simp: env effect_def simp del: show_nat.simps)
  then have run: "serve_all demo_env [DoCreate ?t] ?s = Returns w"
    by simp
  have u: "State (Status ?u) = Scheduled" "ContainerID (Status ?u) = ''''"
    using creation_result_state [of demo_sandboxes ?t] creation_container [of demo_sandboxes ?t]
      demo_creation by simp_all
  have only: "stored mem_val w k' = Some t' \<Longrightarrow> t' = ?u" for k' t'
    unfolding w(2) by (simp split: if_splits)
  have here: "stored mem_val w (show_nat 7) = Some ?u"
    unfolding w(2) by (rule fun_upd_same)
  have healthy: "IsHealthy (demo_worker '''')" and cid: "WorkerID (demo_worker '''') = ''''"
    by (simp_all add: demo_worker_def)
  obtain err w' t' where "RegisterWorker demo_env (demo_worker '''') w = Returns (err, w')"
    "stored mem_val w' = (stored mem_val w)(show_nat 7 \<mapsto> t')" "err = None"
    "State (Status t') = Running"
    using registered_worker_runs_task [OF demo_in_memory run here, of "demo_worker ''''"]
      only u healthy unfolding cid if_P [OF healthy] by blast
  with run show ?thesis by (metis fun_upd_same)
qed

text \<open>The calls of the handlers that take the task they change from the store.\<close>

fun reads_store :: "service_call \<Rightarrow> bool" where
  "reads_store (DoRegister _) \<longleftrightarrow> True"
| "reads_store (DoOutput _ _ _) \<longleftrightarrow> True"
| "reads_store (DoObserve _ _) \<longleftrightarrow> True"
| "reads_store _ \<longleftrightarrow> False"

definition evolves_to :: "State \<Rightarrow> State \<Rightarrow> bool" where
  "evolves_to s s' \<longleftrightarrow> (\<exists>ts. history s ts \<and> last (s # ts) = s')"

lemma evolves_refl [simp]: "evolves_to s s"
  unfolding evolves_to_def by (rule exI [of _ "[]"]) simp

lemma evolves_trans: "evolves_to a b \<Longrightarrow> evolves_to b c \<Longrightarrow> evolves_to a c"
proof -
  assume "evolves_to a b" and "evolves_to b c"
  then obtain xs ys where "history a xs" "last (a # xs) = b" "history b ys" "last (b # ys) = c"
    unfolding evolves_to_def by blast
  then have "history a (xs @ ys)" and "last (a # (xs @ ys)) = c"
    by (auto simp: history_append split: if_splits)
  then show ?thesis
    unfolding evolves_to_def by blast
qed

lemma evolves_one: "ValidStateTransition s s' \<Longrightarrow> evolves_to s s'"
  unfolding evolves_to_def by (rule exI [of _ "[s']"]) simp

lemma output_evolves:
  "output_update now out t = Some t' \<Longrightarrow> evolves_to (State (Status t)) (State (Status t'))"
  by (auto simp: output_update_def set_exit_code_def Let_def with_state_def with_message_def
      with_finish_def evolves_one split: if_splits)

lemma changes_evolve:
  "changes e c v xs v' xs' \<Longrightarrow> reads_store c \<Longrightarrow> v k = Some t \<Longrightarrow>
     \<exists>t'. v' k = Some t' \<and> evolves_to (State (Status t)) (State (Status t'))"
proof (induction rule: changes.induct)
  case (unhealthy v u wi xs)
  then show ?case by (auto intro: evolves_one)
next
  case (running v u wi xs x)
  have "evolves_to Scheduled Running"
    by (rule evolves_trans [of _ Starting]; rule evolves_one) simp_all
  with running show ?case by auto
next
  case (out_put v k' u now out u' xs)
  then show ?case by (auto dest: output_evolves)
qed auto

text \<open>What an output says of a task, and the task it leaves: the state it reports is taken over if the life
  cycle allows it, the finish time is set on an accepted completion only, message and exit code always.\<close>

definition reported :: "string \<Rightarrow> State option" where
  "reported s =
     (if s = ''running'' then Some Running else if s = ''completed'' then Some Completed
      else if s = ''failed'' then Some Failed else None)"

definition reported_task :: "instant \<Rightarrow> CommandOutput \<Rightarrow> Task \<Rightarrow> Task" where
  "reported_task now out t =
     (case reported (OutState out) of
        None \<Rightarrow> t
      | Some s \<Rightarrow>
          (let st = Status t; allowed = ValidStateTransition (State st) s in
           t\<lparr>Status := st
               \<lparr>State := if allowed then s else State st,
                FinishTime := if allowed \<and> s = Completed then Some now else FinishTime st,
                Message := OutErrorMsg out,
                ExitCode := if OutExitCode out = 0 then ExitCode st else Some (OutExitCode out)\<rparr>\<rparr>))"

lemma output_update_reported:
  "output_update now out t = (if reported (OutState out) = None then None else Some (reported_task now out t))"
  by (simp add: output_update_def reported_task_def reported_def Let_def set_exit_code_def
      with_state_def with_message_def with_finish_def)

lemma after_output_reported:
  "after_output now k out v = v(k := map_option (reported_task now out) (v k))"
proof (cases "v k")
  case None
  then show ?thesis by (simp add: after_output_def fun_upd_idem)
next
  case (Some t)
  have "reported (OutState out) = None \<Longrightarrow> reported_task now out t = t"
    by (simp add: reported_task_def)
  with Some show ?thesis
    by (auto simp: after_output_def output_update_reported fun_upd_idem)
qed

lemma history_reached:
  assumes "in_memory e" and "serve_all e cs (NewWorkerService NewInMemoryTaskStore h) = Returns w"
    and "\<forall>c\<in>set cs'. reads_store c" and "stored mem_val w k = Some t"
  shows "\<exists>w' t' ts. serve_all e cs' w = Returns w' \<and> stored mem_val w' k = Some t'
     \<and> history (State (Status t)) ts \<and> last (State (Status t) # ts) = State (Status t')"
proof -
  obtain fmt_v iter where r: "ready (mem_ops fmt_v iter) (mem_inv iter) e w"
    and keyed: "keyed e (stored mem_val w)"
    by (rule reached [OF assms(1,2)])
  let ?I = "\<lambda>v xs. \<exists>t'. v k = Some t' \<and> evolves_to (State (Status t)) (State (Status t'))"
  have "\<exists>w'. serve_all e cs' w = Returns w' \<and> ready (mem_ops fmt_v iter) (mem_inv iter) e w'
     \<and> keyed e (stored mem_val w') \<and> ?I (stored mem_val w') (executing w')"
  proof (rule mem_db.serve_all_invariant [OF _ r keyed])
    show "?I v' xs'" if "c \<in> set cs'" "changes e c v xs v' xs'" "?I v xs" for c v xs v' xs'
    proof -
      from that(3) obtain u where "v k = Some u" "evolves_to (State (Status t)) (State (Status u))"
        by blast
      then show ?thesis
        using changes_evolve [OF that(2), of k u] that(1) assms(3) by (blast intro: evolves_trans)
    qed
    show "?I (stored mem_val w) (executing w)"
      using assms(4) by simp
  qed
  then show ?thesis
    unfolding evolves_to_def by blast
qed

lemma output_of_reached:
  assumes "in_memory e" and "serve_all e cs (NewWorkerService NewInMemoryTaskStore h) = Returns w"
  shows "\<exists>w'. serve e (DoOutput k now out) w = Returns w'
     \<and> stored mem_val w' = (stored mem_val w)(k := map_option (reported_task now out) (stored mem_val w k))"
proof -
  obtain fmt_v iter where r: "ready (mem_ops fmt_v iter) (mem_inv iter) e w"
    and keyed: "keyed e (stored mem_val w)"
    by (rule reached [OF assms])
  have "stored mem_val w k \<noteq> None \<Longrightarrow> k \<noteq> ''''"
    using r keyed unfolding keyed_def ready_def task_key_def by (metis option.exhaust)
  from mem_db.processTaskOutput_one [OF r this, of now out] show ?thesis
    by (auto simp: effect_def after_output_reported)
qed

lemma registration_of_reached:
  assumes "in_memory e" and "serve_all e cs (NewWorkerService NewInMemoryTaskStore h) = Returns w"
  shows "\<exists>w' t'. serve e (DoRegister wi) w = Returns w'
     \<and> (stored mem_val w' = stored mem_val w
        \<or> stored mem_val w (task_key e t') = Some t' \<and> State (Status t') = Scheduled
          \<and> ContainerID (Status t') = WorkerID wi
          \<and> stored mem_val w' = (stored mem_val w)(task_key e t' \<mapsto>
              t'\<lparr>Status := (Status t')
                   \<lparr>State := if IsHealthy wi then Running else Failed,
                    Message := if IsHealthy wi then ''Executing command...'' else ''Worker not healthy''\<rparr>\<rparr>))"
proof -
  obtain fmt_v iter where r: "ready (mem_ops fmt_v iter) (mem_inv iter) e w"
    and keyed: "keyed e (stored mem_val w)"
    by (rule reached [OF assms])
  note shape = started_def failed_task_def with_state_def with_message_def
  show ?thesis
    using r keyed
  proof (cases rule: mem_db.RegisterWorker_spec [where wi = wi])
    case (ignored w')
    then show ?thesis
      by (auto simp: effect_def stored_def)
  next
    case (matched t w' x)
    then show ?thesis
      by (cases "IsHealthy wi") (auto simp: effect_def stored_def shape intro!: exI [of _ t])
  qed
qed

text \<open>C6: The handlers that take the task they change from the store follow the life cycle. An output
  for a task moves it to the state it reports, Running, Completed or Failed, if the transition table has that
  move, and leaves its state otherwise; message and exit code are taken over either way, the
  finish time on an accepted completion only, an unknown state changes nothing, and no other task is touched.
  A registration changes at most one task, a Scheduled one whose container is the worker: it becomes Running,
  or Failed if the worker is not healthy. Along any sequence of outputs, registrations and new observers every
  stored task stays stored and its states are a history the transition table accepts.\<close>

theorem store_readers_follow_life_cycle:
  assumes "in_memory e" and "serve_all e cs (NewWorkerService NewInMemoryTaskStore h) = Returns w"
    and "\<forall>c\<in>set cs'. reads_store c" and "stored mem_val w k = Some t"
  shows "(\<exists>w'. serve e (DoOutput k now out) w = Returns w'
       \<and> stored mem_val w' = (stored mem_val w)(k \<mapsto>
           (case reported (OutState out) of
              None \<Rightarrow> t
            | Some s \<Rightarrow>
                (let st = Status t; allowed = ValidStateTransition (State st) s in
                 t\<lparr>Status := st
                     \<lparr>State := if allowed then s else State st,
                      FinishTime := if allowed \<and> s = Completed then Some now else FinishTime st,
                      Message := OutErrorMsg out,
                      ExitCode := if OutExitCode out = 0 then ExitCode st else Some (OutExitCode out)\<rparr>\<rparr>))))
    \<and> (\<exists>w' t'. serve e (DoRegister wi) w = Returns w'
       \<and> (stored mem_val w' = stored mem_val w
          \<or> stored mem_val w (task_key e t') = Some t' \<and> State (Status t') = Scheduled
            \<and> ContainerID (Status t') = WorkerID wi
            \<and> stored mem_val w' = (stored mem_val w)(task_key e t' \<mapsto>
                t'\<lparr>Status := (Status t')
                     \<lparr>State := if IsHealthy wi then Running else Failed,
                      Message := if IsHealthy wi then ''Executing command...'' else ''Worker not healthy''\<rparr>\<rparr>)))
    \<and> (\<exists>w' t' ts. serve_all e cs' w = Returns w' \<and> stored mem_val w' k = Some t'
       \<and> history (State (Status t)) ts \<and> last (State (Status t) # ts) = State (Status t'))"
proof -
  note one = output_of_reached [OF assms(1,2), of k now out, unfolded assms(4) option.map reported_task_def]
  show ?thesis
    by (rule conjI [OF one conjI [OF registration_of_reached [OF assms(1,2)] history_reached [OF assms]]])
qed

lemma demo_created:
  "\<exists>w t. serve_all demo_env [DoCreate (demo_task Pending '''')]
       (NewWorkerService NewInMemoryTaskStore []) = Returns w
     \<and> stored mem_val w = [show_nat 7 \<mapsto> t] \<and> State (Status t) = Scheduled
     \<and> ContainerID (Status t) = ''''"
proof -
  let ?s = "NewWorkerService NewInMemoryTaskStore []" and ?t = "demo_task Pending ''''"
  let ?u = "snd (creation demo_sandboxes ?t)"
  have env: "sandboxes demo_env = demo_sandboxes"
    by (simp add: demo_env_def)
  have r: "ready (mem_ops (\<lambda>_. '''') (\<lambda>m. m)) (mem_inv (\<lambda>m. m)) demo_env ?s"
    by (simp add: ready_def demo_env_def NewWorkerService_def mem_inv_new show_nat_not_Nil
        del: show_nat.simps)
  obtain w where w: "createContainer demo_env ?t ?s = Returns (None, w)"
    "stored mem_val w = [show_nat 7 \<mapsto> ?u]"
    using mem_db.createContainer_spec [OF r, of ?t] demo_creation
    by (auto simp: env effect_def simp del: show_nat.simps)
  then have "serve_all demo_env [DoCreate ?t] ?s = Returns w"
    by simp
  moreover have "State (Status ?u) = Scheduled" and "ContainerID (Status ?u) = ''''"
    using creation_result_state [of demo_sandboxes ?t] creation_container [of demo_sandboxes ?t]
      demo_creation by simp_all
  ultimately show ?thesis
    using w(2) by blast
qed

lemma store_readers_follow_life_cycle_witness:
  "\<exists>w w' t' ts. serve_all demo_env [DoCreate (demo_task Pending '''')]
       (NewWorkerService NewInMemoryTaskStore []) = Returns w
     \<and> serve_all demo_env [DoRegister (demo_worker ''''),
          DoOutput (show_nat 7) 9 (state_output '''' ''completed'' '''')] w = Returns w'
     \<and> stored mem_val w' (show_nat 7) = Some t' \<and> history Scheduled ts
     \<and> last (Scheduled # ts) = State (Status t')"
proof -
  obtain w t where w: "serve_all demo_env [DoCreate (demo_task Pending '''')]
      (NewWorkerService NewInMemoryTaskStore []) = Returns w"
    "stored mem_val w = [show_nat 7 \<mapsto> t]" "State (Status t) = Scheduled"
    using demo_created by blast
  then have here: "stored mem_val w (show_nat 7) = Some t"
    by (simp only: fun_upd_same)
  have "\<forall>c\<in>set [DoRegister (demo_worker ''''),
      DoOutput (show_nat 7) 9 (state_output '''' ''completed'' '''')]. reads_store c"
    by simp
  then show ?thesis
    using conjunct2 [OF conjunct2 [OF store_readers_follow_life_cycle [OF demo_in_memory w(1) _ here]]] w(1)
    unfolding w(3) by blast
qed

text \<open>C30: A health check works on a copy of the task taken when it started: when its verdict comes,
  at the latest as the timeout of the task has passed, the stored task is replaced by the Failed
  copy, whatever it has become meanwhile, even if it is Completed, a state the transition table
  never lets it leave.\<close>

theorem stale_health_verdict_overwrites:
  assumes "in_memory e" and "serve_all e cs (NewWorkerService NewInMemoryTaskStore h) = Returns w"
    and "State (Status copy) = Running" and "health_verdict evs = Some msg"
  shows "\<exists>w'. CheckTaskHealth e copy evs w = Returns w'
     \<and> stored mem_val w' = (stored mem_val w)(task_key e copy \<mapsto> failed_task msg copy)
     \<and> (\<forall>t. stored mem_val w (task_key e copy) = Some t \<and> State (Status t) = Completed \<longrightarrow>
          \<not> ValidStateTransition (State (Status t)) (State (Status (failed_task msg copy))))"
proof -
  obtain fmt_v iter where r: "ready (mem_ops fmt_v iter) (mem_inv iter) e w"
    by (rule reached [OF assms(1,2)])
  obtain w' where "failTask e copy msg w = Returns w'"
    "stored mem_val w' = (stored mem_val w)(task_key e copy \<mapsto> failed_task msg copy)"
    using mem_db.failTask_spec [OF r, of copy msg] assms(3) by (auto simp: effect_def)
  then show ?thesis
    by (simp add: CheckTaskHealth_verdict assms(3,4))
qed

lemma stale_health_verdict_overwrites_witness:
  "\<exists>w w'. serve_all demo_env [] (NewWorkerService NewInMemoryTaskStore []) = Returns w
     \<and> CheckTaskHealth demo_env (demo_task Running ''c1'') [HealthReport True ''ok'', HealthDone] w
         = Returns w'
     \<and> stored mem_val w' (show_nat 7)
         = Some (failed_task ''health check timeout'' (demo_task Running ''c1''))"
  using stale_health_verdict_overwrites [OF demo_in_memory, of "[]" "[]"
      "NewWorkerService NewInMemoryTaskStore []" "demo_task Running ''c1''"
      "[HealthReport True ''ok'', HealthDone]" "''health check timeout''"]
  by (auto simp del: show_nat.simps)

lemma outputs_of_reached:
  assumes "in_memory e" and "serve_all e cs (NewWorkerService NewInMemoryTaskStore h) = Returns w"
  shows "\<exists>w'. processTaskOutput e k outs w = Returns w'
     \<and> notified w' = notified w + mset (concat (map (\<lambda>(now, out). outgoing w k out) outs))
     \<and> stored mem_val w' = (stored mem_val w)
         (k := map_option (fold (\<lambda>(now, out). reported_task now out) outs) (stored mem_val w k))"
proof -
  obtain fmt_v iter where "ready (mem_ops fmt_v iter) (mem_inv iter) e w"
    and "keyed e (stored mem_val w)"
    by (rule reached [OF assms])
  then show ?thesis
  proof (induction outs arbitrary: w)
    case Nil
    then show ?case by (simp add: option.map_ident fun_upd_def)
  next
    case (Cons p outs)
    obtain now out where p: "p = (now, out)"
      by (cases p)
    have nonempty: "stored mem_val w k \<noteq> None \<Longrightarrow> k \<noteq> ''''"
      using Cons.prems unfolding keyed_def ready_def task_key_def by (metis option.exhaust)
    obtain u where u: "processTaskOutput e k [(now, out)] w = Returns u"
      "ready (mem_ops fmt_v iter) (mem_inv iter) e u"
      "effect mem_val w (after_output now k out (stored mem_val w)) (outgoing w k out) [] u"
      using mem_db.processTaskOutput_one [OF Cons.prems(1) nonempty] by blast
    have "changes e (DoOutput k now out) (stored mem_val w) []
        (after_output now k out (stored mem_val w)) []"
      by (auto simp: after_output_def split: option.splits intro: changes.same changes.out_put)
    then have "keyed e (stored mem_val u)"
      using changes_keyed Cons.prems(2) u(3) by (metis effect_def)
    from Cons.IH [OF u(2) this] obtain w' where w':
      "processTaskOutput e k outs u = Returns w'"
      "notified w' = notified u + mset (concat (map (\<lambda>(now, out). outgoing u k out) outs))"
      "stored mem_val w' = (stored mem_val u)
         (k := map_option (fold (\<lambda>(now, out). reported_task now out) outs) (stored mem_val u k))"
      by blast
    have st: "stored mem_val u = (stored mem_val w)(k := map_option (reported_task now out) (stored mem_val w k))"
      using u(3) by (simp add: effect_def after_output_reported)
    have no: "notified u = notified w + mset (outgoing w k out)"
      using u(3) by (simp add: effect_def)
    have "processTaskOutput e k (p # outs) w = Returns w'"
      using u(1) w'(1) by (auto simp: p go_bind_Returns_iff)
    then show ?case
      using w'(2,3) unfolding st no outgoing_effect [OF u(3)]
      by (intro exI [of _ w']) (simp add: p option.map_comp o_def)
  qed
qed

lemma count_outgoing:
  "count (mset (outgoing w k out)) (obs, x)
     = (if out = x then count_list (case map_of (Observers w) k of None \<Rightarrow> [] | Some os \<Rightarrow> os) obs else 0)"
proof -
  have "count (mset (map (\<lambda>o'. (o', out)) os)) (obs, x) = (if out = x then count_list os obs else 0)" for os
    by (induction os) (auto simp del: mset_map)
  from this [of "case map_of (Observers w) k of None \<Rightarrow> [] | Some os \<Rightarrow> os"] show ?thesis
    by (cases "map_of (Observers w) k") (simp_all only: outgoing_def option.case list.map mset.simps)
qed

lemma count_all_outgoing:
  "count (mset (concat (map (\<lambda>(now, out). outgoing w k out) outs))) (obs, x)
     = count_list (case map_of (Observers w) k of None \<Rightarrow> [] | Some os \<Rightarrow> os) obs * count_list (map snd outs) x"
proof (induction outs)
  case (Cons p outs)
  then show ?case
    by (cases p) (simp add: count_outgoing)
qed simp

text \<open>C31: Every output of a command starts one notification of each observer registered for
  its task (as often as it is registered) and of nobody else; nothing orders their delivery. The stored task takes
  the outputs over one after the other, each as the life cycle allows; no other task changes.\<close>

theorem observers_get_every_output:
  assumes "in_memory e" and "serve_all e cs (NewWorkerService NewInMemoryTaskStore h) = Returns w"
  shows "\<exists>w'. processTaskOutput e k outs w = Returns w'
     \<and> count (notified w') (obs, out) = count (notified w) (obs, out)
         + count_list (case map_of (Observers w) k of None \<Rightarrow> [] | Some os \<Rightarrow> os) obs
           * count_list (map snd outs) out
     \<and> stored mem_val w' = (stored mem_val w)
         (k := map_option (fold (\<lambda>(now, out). reported_task now out) outs) (stored mem_val w k))"
  using outputs_of_reached [OF assms, of k outs] by (auto simp: count_all_outgoing)

lemma observers_get_every_output_witness:
  "\<exists>w w'. serve_all demo_env [DoObserve ''t'' 1, DoObserve ''t'' 2]
       (NewWorkerService NewInMemoryTaskStore []) = Returns w
     \<and> processTaskOutput demo_env ''t'' [(3, state_output ''t'' ''running'' ''''),
          (4, state_output ''t'' ''running'' '''')] w = Returns w'
     \<and> count (notified w') (2, state_output ''t'' ''running'' '''') = 2"
proof -
  obtain w where w: "serve_all demo_env [DoObserve ''t'' 1, DoObserve ''t'' 2]
      (NewWorkerService NewInMemoryTaskStore []) = Returns w"
    "map_of (Observers w) ''t'' = Some [1, 2]" "notified w = {#}"
    by (simp add: RegisterObserver_def NewWorkerService_def)
  then show ?thesis
    using observers_get_every_output [OF demo_in_memory w(1), of "''t''"
        "[(3, state_output ''t'' ''running'' ''''), (4, state_output ''t'' ''running'' '''')]" 2
        "state_output ''t'' ''running'' ''''"]
    by auto
qed

text \<open>C10: Stopping a task, on every branch and on either kind of store (assumed to be in order: no two
  keys of a memory store share a cell, the bucket of a bolt store exists and its entries decode; it is left in
  order). A task that cannot become Stopping is refused with an error and nothing changes. If the store refuses it
  as Stopping, an error is returned and nothing changes. If its sandbox service cannot be
  made or the sandbox cannot be deleted, that error is returned, the task is put as Failed with the error as its message, its
  observers are told and its worker stays. If the sandbox is deleted the task is put as Completed with the time of
  the stop, its observers are told and its worker is forgotten; if the store refuses that, an error is returned, the task stays
  Stopping, nobody is told and the worker stays.\<close>

theorem stop_task_outcome:
  assumes "Store_ops e = any_task_ops fmt_v iter b j"
    and "any_inv iter b j (cells w) (TaskDb w)" and "\<forall>i. id_String e i \<noteq> ''''"
  shows "let k = task_key e t; f = any_keeps j (TaskDb w); v = stored (any_val b j) w;
      c = t\<lparr>Status := (Status t)\<lparr>State := Stopping, Message := ''Stopping container...''\<rparr>\<rparr>;
      d = t\<lparr>Status := (Status t)\<lparr>State := Completed, FinishTime := Some now,
            Message := ''Container stopped''\<rparr>\<rparr> in
    if \<not> ValidStateTransition (State (Status t)) Stopping
    then StopTask e now t w = Returns (Some (GoError (''StopTask: invalid transition from '' @
      State_String (State (Status t)) @ '' to Stopping'')), w)
    else \<exists>r w'. StopTask e now t w = Returns (r, w') \<and> any_inv iter b j (cells w') (TaskDb w')
      \<and> executing w' = executing w
      \<and> (let fails = (\<lambda>what x. r = Some x \<and> workers w' = workers w
              \<and> stored (any_val b j) w' = kept f k (failed_task (what @ message x) c) (kept f k c v)
              \<and> notified w' = notified w + mset (outgoing w k (state_output k ''failed'' (what @ message x)))) in
         case f c of
           Inl x \<Rightarrow> r = Some (GoError (''StopTask: error updating to stopping: '' @ message x))
             \<and> stored (any_val b j) w' = v \<and> workers w' = workers w \<and> notified w' = notified w
         | Inr _ \<Rightarrow>
             (case sandbox_for (sandboxes e) t of
                Inl x \<Rightarrow> fails ''StopTask: error creating sandbox service: '' x
              | Inr svc \<Rightarrow>
                  (case DeleteContainerSandbox (sandboxes e) svc (ContainerID (Status t)) of
                     Some x \<Rightarrow> fails ''StopTask: error deleting sandbox: '' x
                   | None \<Rightarrow>
                       (case f d of
                          Inl x \<Rightarrow> r = Some (GoError (''StopTask: error updating to completed: '' @ message x))
                            \<and> stored (any_val b j) w' = kept f k c v
                            \<and> workers w' = workers w \<and> notified w' = notified w
                        | Inr _ \<Rightarrow> r = None
                            \<and> stored (any_val b j) w' = kept f k d (kept f k c v)
                            \<and> workers w' = AList.delete (ContainerID (Status t)) (workers w)
                            \<and> notified w' = notified w + mset (outgoing w k (state_output k ''completed'' ''''))))))"
proof (cases "ValidStateTransition (State (Status t)) Stopping")
  case False
  then show ?thesis by (simp add: StopTask_def Let_def)
next
  case True
  note r = any_ready [OF assms]
  let ?f = "any_keeps j (TaskDb w)" and ?k = "task_key e t"
  let ?c = "with_message ''Stopping container...'' (with_state Stopping t)"
  let ?d = "with_message ''Container stopped'' (with_finish now (with_state Completed ?c))"
  have c: "t\<lparr>Status := (Status t)\<lparr>State := Stopping, Message := ''Stopping container...''\<rparr>\<rparr> = ?c"
    and d: "t\<lparr>Status := (Status t)\<lparr>State := Completed, FinishTime := Some now,
            Message := ''Container stopped''\<rparr>\<rparr> = ?d"
    by (simp_all add: with_message_def with_state_def with_finish_def)
  have sb: "sandbox_for (sandboxes e) ?c = sandbox_for (sandboxes e) t"
    by (simp add: sandbox_for_def)
  obtain x ts outs where o: "stop_outcome ?f (sandboxes e) ?k now t = (x, ts, outs)"
    by (cases "stop_outcome ?f (sandboxes e) ?k now t")
  obtain w' where w': "StopTask e now t w = Returns (x, w')" "any_inv iter b j (cells w') (TaskDb w')"
    "executing w' = executing w"
    "stored (any_val b j) w' = fold (kept ?f ?k) ts (stored (any_val b j) w)"
    "workers w' = (if x = None then AList.delete (ContainerID (Status t)) (workers w) else workers w)"
    "notified w' = notified w + mset (concat (map (outgoing w ?k) outs))"
    by (rule any_db.StopTask_any [OF r True o]) (simp add: ready_def)
  note defs = stop_outcome_def stopping_def stop_output_def two_puts_def Let_def sb
  have valid: "\<not> \<not> ValidStateTransition (State (Status t)) Stopping"
    using True by simp
  note goal = Let_def c d if_not_P [OF valid]
  note pick = exI [of _ x] exI [of _ w']
  show ?thesis
  proof (cases "?f ?c")
    case (Inl y)
    with o w' show ?thesis
      unfolding goal by (intro pick) (auto simp: defs)
  next
    case first: (Inr c')
    show ?thesis
    proof (cases "sandbox_for (sandboxes e) t")
      case (Inl y)
      with first o w' show ?thesis
        unfolding goal by (intro pick) (auto simp: defs)
    next
      case svc: (Inr svc)
      show ?thesis
      proof (cases "DeleteContainerSandbox (sandboxes e) svc (ContainerID (Status t))")
        case (Some y)
        let ?msg = "''StopTask: error deleting sandbox: '' @ message y"
        have "x = Some y \<and> ts = [?c, failed_task ?msg ?c] \<and> outs = [state_output ?k ''failed'' ?msg]"
          using o first svc Some by (simp add: defs)
        with first svc Some w' show ?thesis
          unfolding goal by (intro pick) simp
      next
        case None
        with first svc o w' show ?thesis
          unfolding goal by (cases "?f ?d"; intro pick) (auto simp: defs)
      qed
    qed
  qed
qed

lemma demo_stop:
  "sandbox_for demo_sandboxes (demo_task Running ''c1'') = Inr (DockerService d) \<Longrightarrow>
     DeleteContainerSandbox demo_sandboxes (DockerService d) ''c1'' = None"
  "\<exists>d. sandbox_for demo_sandboxes (demo_task Running ''c1'') = Inr (DockerService d)"
  by (simp_all add: sandbox_for_def factory_of_sandbox_config demo_sandboxes_def demo_task_def NewTask_def
      SandboxTypeDocker_def NewDockerContainerSandboxService_def DeleteContainerSandbox_def
      Docker_DeleteContainerSandbox_def ok_docker_def)

lemma stop_task_outcome_witness:
  "\<exists>w' t'. StopTask demo_any_env 5 (demo_task Running ''c1'') demo_service = Returns (None, w')
     \<and> stored (any_val map_bolt any_json) w' (show_nat 7) = Some t'
     \<and> State (Status t') = Completed \<and> FinishTime (Status t') = Some 5"
proof -
  obtain d where d: "sandbox_for demo_sandboxes (demo_task Running ''c1'') = Inr (DockerService d)"
    using demo_stop(2) by blast
  show ?thesis
    using stop_task_outcome [OF demo_any(1,4,2), of "demo_task Running ''c1''" 5]
    by (auto simp: Let_def d demo_stop(1) [OF d] simp del: show_nat.simps)
qed

section \<open>A late command error\<close>

lemma Db_Put_cells: "Db_Put e k a w = Returns (err, w') \<Longrightarrow> cells w' = cells w"
proof -
  assume "Db_Put e k a w = Returns (err, w')"
  then obtain r where "(case r of Inl err \<Rightarrow> (Some err, w) | Inr d \<Rightarrow> (None, w\<lparr>TaskDb := d\<rparr>)) = (err, w')"
    by (auto simp: Db_Put_def go_bind_Returns_iff)
  then show ?thesis by (cases r) auto
qed

text \<open>A stop writes to a cell of its own only.\<close>

lemma failTask_cells:
  "failTask e t msg w = Returns w' \<Longrightarrow> i < length (cells w) \<Longrightarrow> cells w' ! i = cells w ! i"
  by (auto simp: failTask_def new_cell_def Let_def go_bind_Returns_iff NotifyObservers_outgoing nth_append
      dest!: Db_Put_cells split: if_splits)

lemma fail_with_cells:
  "fail_with e t msg err w = Returns (r, w') \<Longrightarrow> i < length (cells w) \<Longrightarrow> cells w' ! i = cells w ! i"
  by (auto simp: fail_with_def go_bind_Returns_iff failTask_cells)

lemma StartTask_cell:
  assumes "StartTask e t w = Returns (None, w')" and "ValidStateTransition (State (Status t)) Running"
  shows "cells w' = cells w @ [started t]"
    and "last (executing w') = execution_of (task_key e t) (length (cells w)) (started t)"
  using assms
  by (auto simp: StartTask_def new_cell_def Let_def started_def execution_of_def
      go_bind_Returns_iff NotifyObservers_outgoing dest!: Db_Put_cells split: option.splits)

lemma StopTask_cells:
  assumes "StopTask e now t w = Returns (r, w')" and i: "i < length (cells w)"
  shows "cells w' ! i = cells w ! i"
proof (cases "ValidStateTransition (State (Status t)) Stopping")
  case False
  with assms(1) show ?thesis by (auto simp: StopTask_def)
next
  case True
  let ?c = "with_message ''Stopping container...'' (with_state Stopping t)"
  obtain r1 u where u: "Db_Put e (task_key e t) (length (cells w)) (w\<lparr>cells := cells w @ [?c]\<rparr>) = Returns (r1, u)"
    using assms(1) True by (auto simp: StopTask_def new_cell_def Let_def go_bind_Returns_iff)
  have cells: "cells u = cells w @ [?c]"
    using Db_Put_cells [OF u] by simp
  have failing: "fail_with e ?c msg err u = Returns (r, w') \<Longrightarrow> cells w' ! i = cells w ! i" for msg err
    using fail_with_cells [of e ?c msg err u r w' i] cells i by (simp add: nth_append)
  have putting: "Db_Put e (task_key e t) (length (cells w)) (set_cell (length (cells w)) d u) = Returns (r2, v)
      \<Longrightarrow> cells v ! i = cells w ! i" for d r2 v
    using i by (auto simp: cells nth_append list_update_append dest!: Db_Put_cells)
  show ?thesis
  proof (cases r1)
    case (Some err)
    with assms(1) True u cells i show ?thesis
      by (simp add: StopTask_def new_cell_def Let_def nth_append)
  next
    case None
    note start = assms(1) True u None
    show ?thesis
    proof (cases "sandbox_for (sandboxes e) ?c")
      case (Inl err)
      with start show ?thesis
        by (intro failing [of _ err]) (simp add: StopTask_def new_cell_def Let_def)
    next
      case (Inr svc)
      show ?thesis
      proof (cases "DeleteContainerSandbox (sandboxes e) svc (ContainerID (Status t))")
        case (Some err)
        with start Inr show ?thesis
          by (intro failing [of _ err]) (simp add: StopTask_def new_cell_def Let_def)
      next
        case None
        with start Inr show ?thesis
          by (auto simp: StopTask_def new_cell_def Let_def go_bind_Returns_iff NotifyObservers_outgoing
              dest!: putting split: option.splits)
      qed
    qed
  qed
qed

text \<open>C32: An error of ExecuteCommand fails the copy of the task its goroutine captured, without reading the
  store: a task that has been started, and stopped while its command was still being
  requested, so that it is stored as Completed, is stored as Failed when the error comes, although nothing leads from
  Completed to Failed in the life cycle; its observers are told of two failures.\<close>

theorem late_error_overwrites_stopped_task:
  assumes "in_memory e" and "serve_all e cs (NewWorkerService NewInMemoryTaskStore h) = Returns w"
    and "State (Status t) = Starting" and "State (Status u) = Running" and "task_key e u = task_key e t"
    and "sandbox_for (sandboxes e) u = Inr svc"
    and "DeleteContainerSandbox (sandboxes e) svc (ContainerID (Status u)) = None"
  shows "\<exists>w1 w2 w3. StartTask e t w = Returns (None, w1) \<and> StopTask e now u w1 = Returns (None, w2)
     \<and> stored mem_val w2 (task_key e t) = Some (u\<lparr>Status := (Status u)
          \<lparr>State := Completed, FinishTime := Some now, Message := ''Container stopped''\<rparr>\<rparr>)
     \<and> command_failed e (last (executing w1)) err w2 = Returns w3
     \<and> stored mem_val w3 = (stored mem_val w)(task_key e t \<mapsto> t\<lparr>Status := (Status t)
          \<lparr>State := Failed, Message := ''command execution error: '' @ message err\<rparr>\<rparr>)
     \<and> notified w3 = notified w2
         + mset (outgoing w (task_key e t) (state_output (task_key e t) ''failed'' (message err)))
         + mset (outgoing w (task_key e t) (state_output (task_key e t) ''failed''
             (''command execution error: '' @ message err)))
     \<and> \<not> ValidStateTransition Completed Failed"
proof -
  obtain fmt_v iter where r: "ready (mem_ops fmt_v iter) (mem_inv iter) e w"
    by (rule reached [OF assms(1,2)])
  let ?k = "task_key e t" and ?s = "started t" and ?msg = "''command execution error: '' @ message err"
  have valid: "ValidStateTransition (State (Status t)) Running" "ValidStateTransition (State (Status u)) Stopping"
    by (simp_all add: assms(3,4))
  obtain w1 where w1: "StartTask e t w = Returns (None, w1)" "ready (mem_ops fmt_v iter) (mem_inv iter) e w1"
    "effect mem_val w ((stored mem_val w)(?k \<mapsto> ?s)) (outgoing w ?k (state_output ?k ''Running'' ''''))
       [execution_of ?k (length (cells w)) ?s] w1"
    by (rule mem_db.StartTask_spec [OF r valid(1)])
  have c: "sandbox_for (sandboxes e) (with_message ''Stopping container...'' (with_state Stopping u)) = Inr svc"
    using assms(6) by (simp add: sandbox_for_def)
  let ?d = "with_message ''Container stopped'' (with_finish now (with_state Completed
      (with_message ''Stopping container...'' (with_state Stopping u))))"
  have stop: "stopping (sandboxes e) now u = (None, ?d)"
    by (simp add: stopping_def Let_def c assms(7))
  obtain w2 where w2: "StopTask e now u w1 = Returns (None, w2)" "ready (mem_ops fmt_v iter) (mem_inv iter) e w2"
    "stored mem_val w2 = (stored mem_val w1)(?k \<mapsto> ?d)" "Observers w2 = Observers w1"
    by (rule mem_db.StopTask_spec [where now = now, OF w1(2) valid(2), unfolded stop fst_conv snd_conv assms(5)])
  have held: "cells w2 ! length (cells w) = ?s"
    using StopTask_cells [OF w2(1), of "length (cells w)"] StartTask_cell(1) [OF w1(1) valid(1)] by simp
  have out: "outgoing w2 = outgoing w"
    using w2(4) outgoing_effect [OF w1(3)] by (simp add: outgoing_def fun_eq_iff)
  let ?n = "NotifyObservers ?k (state_output ?k ''failed'' (message err)) w2"
  have n: "ready (mem_ops fmt_v iter) (mem_inv iter) e ?n" "stored mem_val ?n = stored mem_val w2"
    "outgoing ?n = outgoing w2"
    using w2(2) by (simp_all add: NotifyObservers_outgoing ready_def stored_def outgoing_def fun_eq_iff)
  obtain w3 where w3: "failTask e ?s ?msg ?n = Returns w3"
    "effect mem_val ?n ((stored mem_val ?n)(?k \<mapsto> failed_task ?msg ?s))
       (outgoing ?n ?k (state_output ?k ''failed'' ?msg)) [] w3"
    using mem_db.failTask_spec [OF n(1), of ?s ?msg] by auto
  have "command_failed e (last (executing w1)) err w2 = Returns w3"
    using w3(1) held StartTask_cell(2) [OF w1(1) valid(1)]
    by (simp add: command_failed_def execution_of_def NotifyObservers_outgoing)
  moreover have "failed_task ?msg ?s = t\<lparr>Status := (Status t)\<lparr>State := Failed, Message := ?msg\<rparr>\<rparr>"
    and "?d = u\<lparr>Status := (Status u)
          \<lparr>State := Completed, FinishTime := Some now, Message := ''Container stopped''\<rparr>\<rparr>"
    by (simp_all add: failed_task_def started_def with_state_def with_message_def with_finish_def)
  moreover have "stored mem_val w3 = (stored mem_val w)(?k \<mapsto> failed_task ?msg ?s)"
    using w3(2) w2(3) w1(3) by (simp add: effect_def n)
  moreover have "notified w3 = notified w2 + mset (outgoing w ?k (state_output ?k ''failed'' (message err)))
      + mset (outgoing w ?k (state_output ?k ''failed'' ?msg))"
    using w3(2) n(3) out by (simp add: effect_def NotifyObservers_outgoing)
  ultimately show ?thesis
    using w1(1) w2(1,3) by (intro exI [of _ w1] exI [of _ w2] exI [of _ w3]) simp
qed

lemma late_error_overwrites_stopped_task_witness:
  "\<exists>w1 w2 w3 t'. StartTask demo_env (demo_task Starting ''c1'') (NewWorkerService NewInMemoryTaskStore [])
         = Returns (None, w1)
     \<and> StopTask demo_env 5 (demo_task Running ''c1'') w1 = Returns (None, w2)
     \<and> command_failed demo_env (last (executing w1)) (GoError ''EOF'') w2 = Returns w3
     \<and> stored mem_val w3 (show_nat 7) = Some t' \<and> State (Status t') = Failed"
proof -
  obtain d where d: "sandbox_for demo_sandboxes (demo_task Running ''c1'') = Inr (DockerService d)"
    using demo_stop(2) by blast
  have env: "sandboxes demo_env = demo_sandboxes"
    by (simp add: demo_env_def)
  have keys: "task_key demo_env (demo_task Running ''c1'') = task_key demo_env (demo_task Starting ''c1'')"
    by simp
  have start: "serve_all demo_env [] (NewWorkerService NewInMemoryTaskStore [])
      = Returns (NewWorkerService NewInMemoryTaskStore [])"
    by simp
  show ?thesis
    using late_error_overwrites_stopped_task [OF demo_in_memory start demo_task_fields(1,1) keys
        d [folded env], of 5 "GoError ''EOF''"] demo_stop(1) [OF d]
    by (auto simp: env simp del: show_nat.simps)
qed

end
