(* ===== verification/Worker_Process.thy ===== *)
theory Worker_Process
  imports Worker_Properties
begin

text \<open>
  The worker's gRPC server, \<open>internal/adapters/grpc/server/worker_process_server.go\<close>: executing a
  command, its health and metrics streams, and the busy flag it guards itself with.

  The operating system and the stream are outside the repository: what the process writes, how it
  ends and which sends fail are parameters. The two goroutines that read the process's output
  send in any interleaving. Nothing joins them: \<open>cmd.Wait\<close> closes the pipes they read from, so they may stop
  before the end of the output, and a line one of them has read may be sent before or after the final message.
  So the messages sent are an interleaving of prefixes of the lines, with the final message anywhere among them.
\<close>

section \<open>Messages\<close>

record ExecuteCommandRequest =
  ProcessId :: string
  ReqCommand :: "string list"
  ReqWorkingDir :: string
  ReqEnvVars :: "string gomap"

record HealthCheckResponse =
  HealthIsHealthy :: bool
  HealthStatus :: string

record MetricsResponse =
  CpuUsage :: string
  MemUsage :: string
  DiskUsage :: string

section \<open>Reading the output of the process\<close>

text \<open>
  \<open>ReadString\<close> returns the text up to and including the next newline; at the end of the input it
  returns what is left with \<open>io.EOF\<close>, and the loop leaves without sending it.
\<close>

fun read_string :: "string \<Rightarrow> (string \<times> string) option" where
  "read_string [] = None"
| "read_string (c # cs) =
     (if c = CHR 10 then Some ([c], cs)
      else map_option (\<lambda>(line, rest). (c # line, rest)) (read_string cs))"

lemma read_string_shorter: "read_string s = Some (line, rest) \<Longrightarrow> length rest < length s"
  by (induction s arbitrary: line rest) (force split: if_splits)+

function sent_lines :: "string \<Rightarrow> string list" where
  "sent_lines s =
     (case read_string s of
        None \<Rightarrow> []
      | Some (line, rest) \<Rightarrow> TrimSpace line # sent_lines rest)"
  by pat_completeness auto

termination
  by (relation "measure length") (auto dest: read_string_shorter)

declare sent_lines.simps [simp del]

definition line_output :: "string \<Rightarrow> bool \<Rightarrow> string \<Rightarrow> CommandOutput" where
  "line_output processID err line =
     \<lparr>OutProcessID = processID, IsStderr = err, Content = line, OutState = ''RUNNING'',
      OutExitCode = 0, OutErrorMsg = ''''\<rparr>"

section \<open>ExecuteCommand\<close>

text \<open>How \<open>cmd.Wait\<close> ends.\<close>

datatype wait_result =
    Exited
  | ExitError int32 string
  | WaitError string

fun wait_code :: "wait_result \<Rightarrow> int32" where
  "wait_code (ExitError code msg) = code"
| "wait_code _ = 0"

fun wait_message :: "wait_result \<Rightarrow> string" where
  "wait_message Exited = ''''"
| "wait_message (ExitError code msg) = msg"
| "wait_message (WaitError msg) = msg"

text \<open>
  The process: the error of starting it with a command, directory and environment, what it
  writes, how it ends; \<open>env_iter\<close> is the order in which the variables are ranged over, and
  \<open>send_error\<close> the error of the sends whose result the server returns.
\<close>

record process =
  start_error :: "string list \<Rightarrow> string \<Rightarrow> string list \<Rightarrow> go_error option"
  out_text :: string
  err_text :: string
  wait_ends :: wait_result
  env_iter :: "string gomap \<Rightarrow> string gomap"
  send_error :: "CommandOutput \<Rightarrow> go_error option"

record WorkerProcessServer =
  busy :: bool

definition busy_output :: CommandOutput where
  "busy_output =
     \<lparr>OutProcessID = ''0'', IsStderr = True, Content = ''Worker ocupado'', OutState = ''BUSY'',
      OutExitCode = 0, OutErrorMsg = ''''\<rparr>"

definition final_output :: "string \<Rightarrow> wait_result \<Rightarrow> CommandOutput" where
  "final_output processID ended =
     \<lparr>OutProcessID = processID, IsStderr = False, Content = ''Proceso finalizado'',
      OutState = (if ended = Exited then ''COMPLETED'' else ''FAILED''),
      OutExitCode = wait_code ended, OutErrorMsg = wait_message ended\<rparr>"

definition no_command_output :: "string \<Rightarrow> CommandOutput" where
  "no_command_output processID =
     \<lparr>OutProcessID = processID, IsStderr = True, Content = ''No se especific'' @ [CHR 0xC3, CHR 0xB3] @ '' comando'',
      OutState = ''FAILED'', OutExitCode = 1, OutErrorMsg = ''''\<rparr>"

definition start_failed_output :: "string \<Rightarrow> go_error \<Rightarrow> CommandOutput" where
  "start_failed_output processID err =
     \<lparr>OutProcessID = processID, IsStderr = True,
      Content = ''Error al iniciar proceso: '' @ message err, OutState = ''FAILED'',
      OutExitCode = 0, OutErrorMsg = ''''\<rparr>"

definition process_env :: "(string gomap \<Rightarrow> string gomap) \<Rightarrow> string gomap \<Rightarrow> string list" where
  "process_env iter vars = map (\<lambda>(k, v). k @ ''='' @ v) (iter vars)"

text \<open>
  One call, alone on the server: the messages sent in order, the error returned and the server
  afterwards, when the readers send the messages \<open>sent\<close> before the final one and \<open>later\<close> after it.
\<close>

definition ExecuteCommand ::
  "process \<Rightarrow> ExecuteCommandRequest res \<Rightarrow> CommandOutput list \<Rightarrow> CommandOutput list \<Rightarrow> WorkerProcessServer \<Rightarrow>
   CommandOutput list \<times> go_error option \<times> WorkerProcessServer" where
  "ExecuteCommand p received sent later ws =
     (if busy ws then ([busy_output], send_error p busy_output, ws)
      else
        (case received of
           Inl err \<Rightarrow> ([], Some err, ws)
         | Inr req \<Rightarrow>
             (if ReqCommand req = [] then
                (let out = no_command_output (ProcessId req) in ([out], send_error p out, ws))
              else
                (case start_error p (ReqCommand req) (ReqWorkingDir req)
                        (process_env (env_iter p) (ReqEnvVars req)) of
                   Some err \<Rightarrow> ([start_failed_output (ProcessId req) err], Some err, ws)
                 | None \<Rightarrow>
                     (let out = final_output (ProcessId req) (wait_ends p)
                      in (sent @ [out] @ later, send_error p out, ws))))))"

text \<open>The interleavings of messages the two readers can produce, before and after the final one together.\<close>

definition possible_sends :: "process \<Rightarrow> string \<Rightarrow> CommandOutput list set" where
  "possible_sends p processID =
     (\<Union>n_out n_err. shuffles
        (map (line_output processID False) (take n_out (sent_lines (out_text p))))
        (map (line_output processID True) (take n_err (sent_lines (err_text p)))))"

definition TerminateProcess :: "string \<Rightarrow> (bool \<times> string) res" where
  "TerminateProcess processID = Inr (True, ''Proceso terminado (simulado)'')"

section \<open>Health and metrics\<close>

text \<open>
  The two streaming handlers: the requests received, as \<open>Inl\<close> an error (\<open>None\<close> for \<open>io.EOF\<close>) or
  \<open>Inr\<close> the error of sending the answer. They return the answers sent and the error.
\<close>

type_synonym stream_event = "go_error option + go_error option"

fun HealthCheck :: "stream_event list \<Rightarrow> HealthCheckResponse list \<times> go_error option" where
  "HealthCheck [] = ([], None)"
| "HealthCheck (Inl None # evs) = ([], None)"
| "HealthCheck (Inl (Some err) # evs) = ([], Some err)"
| "HealthCheck (Inr (Some err) # evs) = ([], Some err)"
| "HealthCheck (Inr None # evs) =
     (let (rs, err) = HealthCheck evs
      in (\<lparr>HealthIsHealthy = True, HealthStatus = ''Worker OK''\<rparr> # rs, err))"

fun ReportMetrics :: "stream_event list \<Rightarrow> MetricsResponse list \<times> go_error option" where
  "ReportMetrics [] = ([], None)"
| "ReportMetrics (Inl None # evs) = ([], None)"
| "ReportMetrics (Inl (Some err) # evs) = ([], Some err)"
| "ReportMetrics (Inr (Some err) # evs) = ([], Some err)"
| "ReportMetrics (Inr None # evs) =
     (let (rs, err) = ReportMetrics evs
      in (\<lparr>CpuUsage = ''5%'', MemUsage = ''128MB'', DiskUsage = ''10GB''\<rparr> # rs, err))"

section \<open>What the server sends\<close>

lemma read_string_Some:
  "CHR 10 \<notin> set l \<Longrightarrow> read_string (l @ CHR 10 # s) = Some (l @ [CHR 10], s)"
  by (induction l) auto

lemma read_string_None: "CHR 10 \<notin> set l \<Longrightarrow> read_string l = None"
  by (induction l) auto

lemma sent_lines_unterminated:
  assumes "\<forall>l\<in>set ls. CHR 10 \<notin> set l" and "CHR 10 \<notin> set rest"
  shows "sent_lines (concat (map (\<lambda>l. l @ [CHR 10]) ls) @ rest) = map (\<lambda>l. TrimSpace (l @ [CHR 10])) ls"
  using assms
proof (induction ls)
  case Nil
  then show ?case
    by (simp add: sent_lines.simps read_string_None)
next
  case (Cons l ls)
  then show ?case
    using read_string_Some [of l "concat (map (\<lambda>l. l @ [CHR 10]) ls) @ rest"]
    by (subst sent_lines.simps) simp
qed

lemma possible_line:
  assumes "sent \<in> possible_sends p processID" and "out \<in> set sent"
  shows "\<exists>err l. out = line_output processID err l"
proof -
  obtain xs ys where "sent \<in> shuffles (map (line_output processID False) xs)
      (map (line_output processID True) ys)"
    using assms(1) unfolding possible_sends_def by blast
  then have "set sent = set (map (line_output processID False) xs)
      \<union> set (map (line_output processID True) ys)"
    by (rule set_shuffles)
  then have "out \<in> line_output processID False ` set xs \<union> line_output processID True ` set ys"
    using assms(2) by simp
  then show ?thesis by blast
qed

lemma possible_states:
  "sent \<in> possible_sends p processID \<Longrightarrow> out \<in> set sent \<Longrightarrow>
     OutState out = ''RUNNING'' \<and> OutProcessID out = processID"
  by (auto simp: line_output_def dest!: possible_line)

lemma ExecuteCommand_states:
  assumes "ExecuteCommand p received sent later ws = (outs, err, ws')"
    and "\<And>req. received = Inr req \<Longrightarrow> sent @ later \<in> possible_sends p (ProcessId req)"
    and "out \<in> set outs"
  shows "OutState out \<in> {''BUSY'', ''FAILED'', ''RUNNING'', ''COMPLETED''}"
  using assms possible_states [of "sent @ later" p _ out]
  by (fastforce simp: ExecuteCommand_def busy_output_def no_command_output_def
      start_failed_output_def final_output_def Let_def split: if_splits sum.splits option.splits)

lemma output_update_unknown:
  "OutState out \<in> {''BUSY'', ''FAILED'', ''RUNNING'', ''COMPLETED''} \<Longrightarrow>
     output_update now out t = None"
  by (auto simp: output_update_def Let_def)

text \<open>The fields of a message, as the client copies them (\<open>worker_client.go\<close>).\<close>

definition from_wire :: "CommandOutput \<Rightarrow> CommandOutput" where
  "from_wire resp =
     \<lparr>OutProcessID = OutProcessID resp, IsStderr = IsStderr resp, Content = Content resp,
      OutState = OutState resp, OutExitCode = OutExitCode resp, OutErrorMsg = OutErrorMsg resp\<rparr>"

lemma from_wire_id [simp]: "from_wire out = out"
  by (simp add: from_wire_def)

lemma ignored_outputs:
  assumes "ready (mem_ops fmt_v iter) (mem_inv iter) e w" and "keyed e (stored mem_val w)"
    and "\<forall>p\<in>set outs. OutState (snd p) \<in> {''BUSY'', ''FAILED'', ''RUNNING'', ''COMPLETED''}"
  shows "fold (\<lambda>(now, out). after_output now k out) outs (stored mem_val w) = stored mem_val w"
  using assms(3)
proof (induction outs)
  case (Cons p outs)
  then have "after_output (fst p) k (snd p) (stored mem_val w) = stored mem_val w"
    by (auto simp: after_output_def output_update_unknown split: option.split)
  with Cons show ?case by (simp add: split_beta)
qed simp

lemma processTaskOutput_mem:
  assumes "ready (mem_ops fmt_v iter) (mem_inv iter) e w" and "keyed e (stored mem_val w)"
  shows "\<exists>w'. processTaskOutput e k outs w = Returns w'
     \<and> stored mem_val w' = fold (\<lambda>(now, out). after_output now k out) outs (stored mem_val w)"
  using assms
proof (induction outs arbitrary: w)
  case (Cons p outs)
  obtain now out where p: "p = (now, out)"
    by (cases p)
  have nonempty: "stored mem_val w k \<noteq> None \<Longrightarrow> k \<noteq> ''''"
    using Cons.prems unfolding keyed_def ready_def task_key_def by (metis option.exhaust)
  obtain u where u: "processTaskOutput e k [(now, out)] w = Returns u"
    "ready (mem_ops fmt_v iter) (mem_inv iter) e u"
    "stored mem_val u = after_output now k out (stored mem_val w)"
    using mem_db.processTaskOutput_one [OF Cons.prems(1) nonempty] unfolding effect_def by metis
  have "changes e (DoOutput k now out) (stored mem_val w) []
      (after_output now k out (stored mem_val w)) []"
    by (auto simp: after_output_def split: option.splits intro: changes.same changes.out_put)
  then have "keyed e (stored mem_val u)"
    using changes_keyed Cons.prems(2) u(3) by metis
  from Cons.IH [OF u(2) this] show ?case
    using u(1,3) by (auto simp: p go_bind_Returns_iff)
qed simp

text \<open>C33: Whatever a command does, and whenever its lines are sent, the messages of the repository's own worker never change the
  stored task: the server writes the states BUSY, RUNNING, COMPLETED and FAILED in upper case,
  the worker service knows only the lower-case ones, so a task that runs is not completed by
  its output.\<close>

theorem worker_output_never_updates_task:
  assumes "in_memory e" and "serve_all e cs (NewWorkerService NewInMemoryTaskStore h) = Returns w"
    and "ExecuteCommand p received sent later ws = (outs, err, ws')"
    and "\<And>req. received = Inr req \<Longrightarrow> sent @ later \<in> possible_sends p (ProcessId req)"
  shows "\<exists>w'. processTaskOutput e k (zip stamps (map from_wire outs)) w = Returns w'
     \<and> stored mem_val w' = stored mem_val w"
proof -
  obtain fmt_v iter where r: "ready (mem_ops fmt_v iter) (mem_inv iter) e w"
    and keyed: "keyed e (stored mem_val w)"
    by (rule reached [OF assms(1,2)])
  have "\<forall>q\<in>set (zip stamps (map from_wire outs)).
      OutState (snd q) \<in> {''BUSY'', ''FAILED'', ''RUNNING'', ''COMPLETED''}"
    using ExecuteCommand_states [OF assms(3,4)] by (fastforce dest: set_zip_rightD)
  then show ?thesis
    using processTaskOutput_mem [OF r keyed, of k "zip stamps (map from_wire outs)"]
      ignored_outputs [OF r keyed] by metis
qed

text \<open>A process for the witnesses: it writes one line and a half and succeeds.\<close>

definition demo_process :: process where
  "demo_process =
     \<lparr>start_error = (\<lambda>_ _ _. None), out_text = ''one'' @ [CHR 10] @ ''tw'', err_text = '''',
      wait_ends = Exited, env_iter = (\<lambda>m. m), send_error = (\<lambda>_. None)\<rparr>"

definition demo_request :: "ExecuteCommandRequest" where
  "demo_request =
     \<lparr>ProcessId = ''p1'', ReqCommand = [''make''], ReqWorkingDir = ''/src'', ReqEnvVars = []\<rparr>"

lemma demo_sends: "[line_output ''p1'' False ''one''] \<in> possible_sends demo_process ''p1''"
proof -
  have "sent_lines (out_text demo_process) = [''one'']"
    by (simp add: demo_process_def sent_lines.simps TrimSpace_def is_space_def)
  then show ?thesis
    unfolding possible_sends_def by (intro UN_I [of 1] UN_I [of 0]) simp_all
qed

lemma worker_output_never_updates_task_witness:
  "\<exists>w w'. serve_all demo_env [DoCreate (demo_task Pending ''''), DoRegister (demo_worker '''')]
      (NewWorkerService NewInMemoryTaskStore []) = Returns w
    \<and> processTaskOutput demo_env (show_nat 7)
        [(1, line_output ''p1'' False ''one''), (2, final_output ''p1'' Exited)] w = Returns w'
    \<and> stored mem_val w' = stored mem_val w"
proof -
  let ?ws = "\<lparr>busy = False\<rparr>"
  let ?s = "[line_output ''p1'' False ''one'']"
  obtain w where w: "serve_all demo_env [DoCreate (demo_task Pending ''''), DoRegister (demo_worker '''')]
      (NewWorkerService NewInMemoryTaskStore []) = Returns w"
    using serve_all_returns [OF demo_in_memory] by blast
  have "ExecuteCommand demo_process (Inr demo_request) ?s [] ?ws
      = ([line_output ''p1'' False ''one'', final_output ''p1'' Exited], None, ?ws)"
    by (simp add: ExecuteCommand_def demo_request_def demo_process_def Let_def)
  moreover have "\<And>req. Inr demo_request = (Inr req :: ExecuteCommandRequest res)
      \<Longrightarrow> ?s @ [] \<in> possible_sends demo_process (ProcessId req)"
    using demo_sends by (auto simp: demo_request_def)
  ultimately show ?thesis
    using worker_output_never_updates_task [OF demo_in_memory w, where stamps = "[1, 2]"] w
    by (fastforce simp del: show_nat.simps processTaskOutput.simps)
qed

lemma possible_prefixes:
  assumes "xs \<in> possible_sends p processID"
  obtains n m where
    "filter (\<lambda>out. \<not> IsStderr out) xs = map (line_output processID False) (take n (sent_lines (out_text p)))"
    and "filter IsStderr xs = map (line_output processID True) (take m (sent_lines (err_text p)))"
proof -
  let ?o = "line_output processID"
  obtain n m where s: "xs \<in> shuffles (map (?o False) (take n (sent_lines (out_text p))))
      (map (?o True) (take m (sent_lines (err_text p))))"
    using assms unfolding possible_sends_def by blast
  have keep: "filter (\<lambda>out. \<not> IsStderr out) (map (?o False) ls) = map (?o False) ls"
    "filter (\<lambda>out. \<not> IsStderr out) (map (?o True) ls) = []"
    "filter IsStderr (map (?o True) ls) = map (?o True) ls"
    "filter IsStderr (map (?o False) ls) = []" for ls
    by (simp_all add: filter_map o_def line_output_def)
  show thesis
    using imageI [OF s, of "filter (\<lambda>out. \<not> IsStderr out)"] imageI [OF s, of "filter IsStderr"]
    unfolding filter_shuffles keep by (intro that) simp_all
qed

lemma no_line_possible: "[] \<in> possible_sends p processID"
  unfolding possible_sends_def by (intro UN_I [of 0]) simp_all

text \<open>C21: A command that starts produces exactly one final message, COMPLETED exactly if the process exits with
  success, and around it messages of its two readers, each marked with its stream: from either stream the first
  so many lines it terminates, in order and trimmed, where any number can be missing, even all of
  them (the readers are not waited for), and any can come after the final message. What the process wrote after its last newline is never
  sent.\<close>

theorem command_output_lines:
  assumes "\<not> busy ws" and "ReqCommand req \<noteq> []"
    and "start_error p (ReqCommand req) (ReqWorkingDir req)
           (process_env (env_iter p) (ReqEnvVars req)) = None"
    and "sent @ later \<in> possible_sends p (ProcessId req)"
    and "out_text p = concat (map (\<lambda>l. l @ [CHR 10]) ls) @ rest"
    and "\<forall>l\<in>set ls. CHR 10 \<notin> set l" and "CHR 10 \<notin> set rest"
    and "err_text p = concat (map (\<lambda>l. l @ [CHR 10]) els) @ erest"
    and "\<forall>l\<in>set els. CHR 10 \<notin> set l" and "CHR 10 \<notin> set erest"
  shows "\<exists>n m fin. ExecuteCommand p (Inr req) sent later ws = (sent @ [fin] @ later, send_error p fin, ws)
     \<and> OutProcessID fin = ProcessId req \<and> Content fin = ''Proceso finalizado''
     \<and> OutState fin = (if wait_ends p = Exited then ''COMPLETED'' else ''FAILED'')
     \<and> OutExitCode fin = wait_code (wait_ends p)
     \<and> map Content (filter (\<lambda>out. \<not> IsStderr out) (sent @ later))
         = map (\<lambda>l. TrimSpace (l @ [CHR 10])) (take n ls)
     \<and> map Content (filter IsStderr (sent @ later)) = map (\<lambda>l. TrimSpace (l @ [CHR 10])) (take m els)
     \<and> (\<forall>out\<in>set (sent @ later). OutProcessID out = ProcessId req \<and> OutState out = ''RUNNING'')
     \<and> [] @ [] \<in> possible_sends p (ProcessId req)"
proof -
  obtain n m where nm:
    "filter (\<lambda>out. \<not> IsStderr out) (sent @ later)
       = map (line_output (ProcessId req) False) (take n (sent_lines (out_text p)))"
    "filter IsStderr (sent @ later)
       = map (line_output (ProcessId req) True) (take m (sent_lines (err_text p)))"
    by (rule possible_prefixes [OF assms(4)])
  have ends: "sent_lines (out_text p) = map (\<lambda>l. TrimSpace (l @ [CHR 10])) ls"
    "sent_lines (err_text p) = map (\<lambda>l. TrimSpace (l @ [CHR 10])) els"
    using sent_lines_unterminated [OF assms(6,7)] sent_lines_unterminated [OF assms(9,10)] assms(5,8)
    by simp_all
  have "map Content (filter (\<lambda>out. \<not> IsStderr out) (sent @ later))
         = map (\<lambda>l. TrimSpace (l @ [CHR 10])) (take n ls)"
    and "map Content (filter IsStderr (sent @ later)) = map (\<lambda>l. TrimSpace (l @ [CHR 10])) (take m els)"
    unfolding nm ends by (simp_all add: o_def line_output_def take_map)
  moreover have "\<forall>out\<in>set (sent @ later). OutProcessID out = ProcessId req \<and> OutState out = ''RUNNING''"
    using possible_states [OF assms(4)] by blast
  moreover have "ExecuteCommand p (Inr req) sent later ws
      = (sent @ [final_output (ProcessId req) (wait_ends p)] @ later,
         send_error p (final_output (ProcessId req) (wait_ends p)), ws)"
    using assms(1-3) by (simp add: ExecuteCommand_def Let_def)
  moreover have "[] @ [] \<in> possible_sends p (ProcessId req)"
    by (simp add: no_line_possible)
  ultimately show ?thesis
    by (intro exI [of _ n] exI [of _ m] exI [of _ "final_output (ProcessId req) (wait_ends p)"] conjI)
      (assumption | simp add: final_output_def)+
qed

lemma command_output_lines_witness:
  "\<exists>fin. ExecuteCommand demo_process (Inr demo_request) [] [line_output ''p1'' False ''one''] \<lparr>busy = False\<rparr>
     = ([fin, line_output ''p1'' False ''one''], None, \<lparr>busy = False\<rparr>) \<and> OutState fin = ''COMPLETED''"
  using command_output_lines [of "\<lparr>busy = False\<rparr>" demo_request demo_process
      "[]" "[line_output ''p1'' False ''one'']" "[''one'']" "''tw''" "[]" "''''"] demo_sends
  by (auto simp: demo_request_def demo_process_def)

section \<open>Health seen by the worker service\<close>

text \<open>The health events the worker service receives from a server: its answers, then the end.\<close>

definition server_health :: "stream_event list \<Rightarrow> health_event list \<Rightarrow> health_event list" where
  "server_health evs rest =
     map (\<lambda>r. HealthReport (HealthIsHealthy r) (HealthStatus r)) (fst (HealthCheck evs)) @ rest"

lemma HealthCheck_healthy: "\<forall>r\<in>set (fst (HealthCheck evs)). HealthIsHealthy r"
  by (induction evs rule: HealthCheck.induct) (auto split: prod.splits)

lemma health_verdict_healthy:
  "\<forall>r\<in>set rs. HealthIsHealthy r \<Longrightarrow>
     health_verdict (map (\<lambda>r. HealthReport (HealthIsHealthy r) (HealthStatus r)) rs @ rest)
       = health_verdict rest"
  by (induction rs) auto

text \<open>The repository's own worker always answers that it is healthy, so a health check of it
  never fails a task for a report: the only verdict is the timeout of the check itself, and a
  task whose check is still open when its timeout passes is failed although every answer was
  healthy.\<close>

theorem own_worker_only_times_out:
  "health_verdict (server_health evs []) = None
   \<and> health_verdict (server_health evs [HealthClosed]) = None
   \<and> health_verdict (server_health evs [HealthDone]) = Some ''health check timeout''"
  using health_verdict_healthy [OF HealthCheck_healthy, of evs "[]"]
    health_verdict_healthy [OF HealthCheck_healthy, of evs]
  by (simp add: server_health_def)

section \<open>The busy flag\<close>

text \<open>
  Calls of \<open>ExecuteCommand\<close> run in goroutines of their own and share the flag without a lock: the
  test and the assignment are separate steps.
\<close>

datatype call_phase = Testing | Entering | Executing | Left | Refused

record busy_server =
  busy_flag :: bool
  phases :: "call_phase list"

inductive busy_step :: "busy_server \<Rightarrow> busy_server \<Rightarrow> bool" where
  arrive: "busy_step s (s\<lparr>phases := phases s @ [Testing]\<rparr>)"
| test: "i < length (phases s) \<Longrightarrow> phases s ! i = Testing \<Longrightarrow>
    busy_step s (s\<lparr>phases := (phases s)[i := if busy_flag s then Refused else Entering]\<rparr>)"
| enter: "i < length (phases s) \<Longrightarrow> phases s ! i = Entering \<Longrightarrow>
    busy_step s (s\<lparr>busy_flag := True, phases := (phases s)[i := Executing]\<rparr>)"
| leave: "i < length (phases s) \<Longrightarrow> phases s ! i = Executing \<Longrightarrow>
    busy_step s (s\<lparr>busy_flag := False, phases := (phases s)[i := Left]\<rparr>)"

definition busy_start :: busy_server where
  "busy_start = \<lparr>busy_flag = False, phases = []\<rparr>"

lemma at_replicate: "(replicate k a @ b # xs) ! k = b" "(replicate k a @ b # xs)[k := c] = replicate k a @ c # xs"
  by (simp_all add: nth_append list_update_append)

lemma replicate_snoc: "replicate k a @ a # xs = replicate (Suc k) a @ xs"
  by (simp add: replicate_app_Cons_same)

lemma all_arrive: "busy_step\<^sup>*\<^sup>* busy_start \<lparr>busy_flag = False, phases = replicate n Testing\<rparr>"
proof (induction n)
  case 0
  show ?case by (simp add: busy_start_def)
next
  case (Suc n)
  have "busy_step \<lparr>busy_flag = False, phases = replicate n Testing\<rparr>
      \<lparr>busy_flag = False, phases = replicate (Suc n) Testing\<rparr>"
    using busy_step.arrive [of "\<lparr>busy_flag = False, phases = replicate n Testing\<rparr>"]
    by (simp add: replicate_append_same)
  with Suc show ?case by (rule rtranclp.rtrancl_into_rtrancl)
qed

lemma all_test:
  "busy_step\<^sup>*\<^sup>* \<lparr>busy_flag = False, phases = replicate k Entering @ replicate n Testing\<rparr>
     \<lparr>busy_flag = False, phases = replicate (k + n) Entering\<rparr>"
proof (induction n arbitrary: k)
  case 0
  show ?case by simp
next
  case (Suc n)
  let ?s = "\<lparr>busy_flag = False, phases = replicate k Entering @ Testing # replicate n Testing\<rparr>"
  have "busy_step ?s \<lparr>busy_flag = False, phases = replicate (Suc k) Entering @ replicate n Testing\<rparr>"
    using busy_step.test [of k ?s] by (simp add: at_replicate replicate_snoc)
  with Suc [of "Suc k"] show ?case
    by (simp add: converse_rtranclp_into_rtranclp)
qed

lemma all_enter:
  "busy_step\<^sup>*\<^sup>* \<lparr>busy_flag = f, phases = replicate k Executing @ replicate n Entering\<rparr>
     \<lparr>busy_flag = f \<or> n \<noteq> 0, phases = replicate (k + n) Executing\<rparr>"
proof (induction n arbitrary: k f)
  case 0
  show ?case by simp
next
  case (Suc n)
  let ?s = "\<lparr>busy_flag = f, phases = replicate k Executing @ Entering # replicate n Entering\<rparr>"
  have "busy_step ?s \<lparr>busy_flag = True, phases = replicate (Suc k) Executing @ replicate n Entering\<rparr>"
    using busy_step.enter [of k ?s] by (simp add: at_replicate replicate_snoc)
  with Suc [of True "Suc k"] show ?case
    by (simp add: converse_rtranclp_into_rtranclp)
qed

lemma any_number_executing:
  "busy_step\<^sup>*\<^sup>* busy_start \<lparr>busy_flag = n \<noteq> 0, phases = replicate n Executing\<rparr>"
  using all_arrive [of n] all_test [of 0 n] all_enter [of False 0 n] by simp

definition executing_count :: "busy_server \<Rightarrow> nat" where
  "executing_count s = count (mset (phases s)) Executing"

text \<open>C34: The busy flag does not keep a worker to one command: because the test and the assignment
  are separate, any number of calls can be executing at once, and the first to leave clears the
  flag for the others, so that further calls are let in.\<close>

theorem busy_flag_is_no_lock:
  "(\<exists>s. busy_step\<^sup>*\<^sup>* busy_start s \<and> executing_count s = n)
   \<and> (\<exists>s. busy_step\<^sup>*\<^sup>* busy_start s \<and> executing_count s = n \<and> \<not> busy_flag s)"
proof (intro conjI)
  show "\<exists>s. busy_step\<^sup>*\<^sup>* busy_start s \<and> executing_count s = n"
    using any_number_executing [of n]
    by (intro exI [of _ "\<lparr>busy_flag = n \<noteq> 0, phases = replicate n Executing\<rparr>"])
      (simp add: executing_count_def)
  let ?s = "\<lparr>busy_flag = True, phases = replicate (Suc n) Executing\<rparr>"
  let ?u = "\<lparr>busy_flag = False, phases = Left # replicate n Executing\<rparr>"
  have "busy_step ?s ?u"
    using busy_step.leave [of 0 ?s] by simp
  then have "busy_step\<^sup>*\<^sup>* busy_start ?u"
    using any_number_executing [of "Suc n"] by (simp add: rtranclp.rtrancl_into_rtrancl)
  moreover have "executing_count ?u = n \<and> \<not> busy_flag ?u"
    by (simp add: executing_count_def)
  ultimately show "\<exists>s. busy_step\<^sup>*\<^sup>* busy_start s \<and> executing_count s = n \<and> \<not> busy_flag s"
    by blast
qed

lemma busy_flag_is_no_lock_witness:
  "\<exists>s. busy_step\<^sup>*\<^sup>* busy_start s \<and> executing_count s = 2 \<and> \<not> busy_flag s"
  using busy_flag_is_no_lock [of 2] by blast

end
