(* ===== verification/Worker_Client.thy ===== *)
theory Worker_Client
  imports Worker_Process
begin

text \<open>
  The worker client, \<open>internal/adapters/grpc/client/worker_client.go\<close>, and the goroutines around a
  command: the one \<open>StartTask\<close> starts (it calls \<open>ExecuteCommand\<close>, then cancels the context and
  closes the output channel as it returns), the one \<open>ExecuteCommand\<close> leaves behind (it receives
  from the stream, sends on the output channel and closes it as it returns) and the loop of
  \<open>processTaskOutput\<close>. A step is one channel operation or one call of one of them; what the stream
  returns is left open. A step may panic, which ends the whole program.
\<close>

section \<open>Calls with one answer\<close>

definition wrapped :: "string \<Rightarrow> go_error \<Rightarrow> go_error" where
  "wrapped context_msg err = GoError (context_msg @ '': '' @ message err)"

text \<open>\<open>call\<close> is the remote procedure: its error, or whether it succeeded and its message.\<close>

definition Client_TerminateProcess ::
  "(string \<Rightarrow> (bool \<times> string) res) \<Rightarrow> string \<Rightarrow> go_error option" where
  "Client_TerminateProcess call processID =
     (case call processID of
        Inl err \<Rightarrow> Some (wrapped ''failed to terminate process'' err)
      | Inr (success, msg) \<Rightarrow>
          if \<not> success then Some (GoError (''failed to terminate process: '' @ msg)) else None)"

section \<open>Periodic streams\<close>

text \<open>
  One turn of the loop of \<open>StartHealthCheck\<close> and \<open>StartMetricsCollection\<close>: the context ends, or the
  ticker fires and the request fails, the stream ends, fails, or answers; an answer is handed
  over or the context ends first.
\<close>

datatype 'r poll =
    ContextDone
  | SendFails
  | StreamEnds
  | RecvFails
  | Answer 'r
  | AnswerContextDone 'r

fun poll_loop :: "'r poll list \<Rightarrow> 'r list \<times> bool" where
  "poll_loop [] = ([], False)"
| "poll_loop (Answer r # ps) = (let (rs, closed) = poll_loop ps in (r # rs, closed))"
| "poll_loop (_ # ps) = ([], True)"

text \<open>The error, the answers handed over and whether the channel is closed.\<close>

definition StartHealthCheck ::
  "go_error option \<Rightarrow> HealthCheckResponse poll list \<Rightarrow>
   go_error option \<times> HealthCheckResponse list \<times> bool" where
  "StartHealthCheck stream_error polls =
     (case stream_error of
        Some err \<Rightarrow> (Some (wrapped ''failed to create health check stream'' err), [], False)
      | None \<Rightarrow> (None, poll_loop polls))"

definition StartMetricsCollection ::
  "go_error option \<Rightarrow> MetricsResponse poll list \<Rightarrow> go_error option \<times> MetricsResponse list \<times> bool"
where
  "StartMetricsCollection stream_error polls =
     (case stream_error of
        Some err \<Rightarrow> (Some (wrapped ''failed to create metrics stream'' err), [], False)
      | None \<Rightarrow> (None, poll_loop polls))"

section \<open>The goroutines of a command\<close>

datatype runner =
    Calling
  | CallReturned
  | CallFailed go_error
  | Cancelled
  | RunnerEnded

datatype reader =
    NotStarted
  | Receiving
  | Handing CommandOutput
  | HandingError CommandOutput
  | Returning
  | ReaderEnded

record execution_state =
  outputChan_closed :: bool
  ctx_cancelled :: bool
  runner_at :: runner
  reader_at :: reader
  consuming :: bool
  handed :: "CommandOutput list"

definition execution_start :: execution_state where
  "execution_start =
     \<lparr>outputChan_closed = False, ctx_cancelled = False, runner_at = Calling,
      reader_at = NotStarted, consuming = True, handed = []\<rparr>"

text \<open>\<open>close(outputChan)\<close>.\<close>

definition close_chan :: "execution_state \<Rightarrow> execution_state go" where
  "close_chan s =
     (if outputChan_closed s then Panics CloseOfClosedChannel
      else Returns (s\<lparr>outputChan_closed := True\<rparr>))"

text \<open>The final states after which the reader leaves its loop.\<close>

definition ends_stream :: "CommandOutput \<Rightarrow> bool" where
  "ends_stream out \<longleftrightarrow> OutState out = ''completed'' \<or> OutState out = ''failed''"

definition receive_error :: "string \<Rightarrow> go_error \<Rightarrow> CommandOutput" where
  "receive_error processID err = state_output processID ''failed'' (message err)"

inductive execution_step :: "string \<Rightarrow> execution_state \<Rightarrow> execution_state go \<Rightarrow> bool" for pid where
  call_fails: "runner_at s = Calling \<Longrightarrow>
    execution_step pid s (Returns (s\<lparr>runner_at := CallFailed err\<rparr>))"
| call_returns: "runner_at s = Calling \<Longrightarrow>
    execution_step pid s (Returns (s\<lparr>runner_at := CallReturned, reader_at := Receiving\<rparr>))"
| cancel: "runner_at s = CallReturned \<or> runner_at s = CallFailed err \<Longrightarrow>
    execution_step pid s (Returns (s\<lparr>ctx_cancelled := True, runner_at := Cancelled\<rparr>))"
| runner_close: "runner_at s = Cancelled \<Longrightarrow>
    execution_step pid s (go_bind (close_chan s) (\<lambda>s. Returns (s\<lparr>runner_at := RunnerEnded\<rparr>)))"
| timeout: "execution_step pid s (Returns (s\<lparr>ctx_cancelled := True\<rparr>))"
| recv_eof: "reader_at s = Receiving \<Longrightarrow>
    execution_step pid s (Returns (s\<lparr>reader_at := Returning\<rparr>))"
| recv_error: "reader_at s = Receiving \<Longrightarrow>
    execution_step pid s (Returns (s\<lparr>reader_at := HandingError (receive_error pid err)\<rparr>))"
| recv_output: "reader_at s = Receiving \<Longrightarrow>
    execution_step pid s (Returns (s\<lparr>reader_at := Handing (from_wire out)\<rparr>))"
| hand: "reader_at s = Handing out \<Longrightarrow> consuming s \<Longrightarrow> \<not> outputChan_closed s \<Longrightarrow>
    execution_step pid s (Returns (s\<lparr>handed := handed s @ [out],
      reader_at := if ends_stream out then Returning else Receiving\<rparr>))"
| hand_cancelled: "reader_at s = Handing out \<Longrightarrow> ctx_cancelled s \<Longrightarrow>
    execution_step pid s (Returns (s\<lparr>reader_at := Returning\<rparr>))"
| hand_closed: "reader_at s = Handing out \<or> reader_at s = HandingError out \<Longrightarrow>
    outputChan_closed s \<Longrightarrow> execution_step pid s (Panics SendOnClosedChannel)"
| hand_error: "reader_at s = HandingError out \<Longrightarrow> consuming s \<Longrightarrow> \<not> outputChan_closed s \<Longrightarrow>
    execution_step pid s (Returns (s\<lparr>handed := handed s @ [out], reader_at := Returning\<rparr>))"
| reader_close: "reader_at s = Returning \<Longrightarrow>
    execution_step pid s (go_bind (close_chan s) (\<lambda>s. Returns (s\<lparr>reader_at := ReaderEnded\<rparr>)))"
| consumer_leaves: "consuming s \<Longrightarrow> outputChan_closed s \<or> ctx_cancelled s \<Longrightarrow>
    execution_step pid s (Returns (s\<lparr>consuming := False\<rparr>))"

inductive execution_reaches :: "string \<Rightarrow> execution_state \<Rightarrow> bool" for pid where
  begins: "execution_reaches pid execution_start"
| goes_on: "execution_reaches pid s \<Longrightarrow> execution_step pid s (Returns s') \<Longrightarrow> execution_reaches pid s'"

section \<open>Closing twice\<close>

text \<open>
  The channel is closed exactly if one of the two goroutines has ended, and then not both; the
  reader starts when the call returns without error.
\<close>

definition closed_once :: "execution_state \<Rightarrow> bool" where
  "closed_once s \<longleftrightarrow>
     (outputChan_closed s \<longleftrightarrow> runner_at s = RunnerEnded \<or> reader_at s = ReaderEnded)
     \<and> \<not> (runner_at s = RunnerEnded \<and> reader_at s = ReaderEnded)
     \<and> (runner_at s = Calling \<longrightarrow> reader_at s = NotStarted)"

lemma close_chan_Returns:
  "close_chan s = Returns s' \<longleftrightarrow> \<not> outputChan_closed s \<and> s' = s\<lparr>outputChan_closed := True\<rparr>"
  by (auto simp: close_chan_def)

lemma handed_at [simp]:
  "(if c then Returning else Receiving) \<noteq> ReaderEnded"
  "(if c then Returning else Receiving) \<noteq> NotStarted"
  by simp_all

lemma step_closed_once:
  assumes "execution_step pid s r" and "closed_once s" and "r = Returns s'"
  shows "closed_once s'"
  using assms
  by (cases rule: execution_step.cases)
    (auto simp: closed_once_def go_bind_Returns_iff close_chan_Returns)

lemma reaches_closed_once: "execution_reaches pid s \<Longrightarrow> closed_once s"
proof (induction rule: execution_reaches.induct)
  case begins
  show ?case by (simp add: closed_once_def execution_start_def)
next
  case (goes_on s s')
  then show ?case by (blast intro: step_closed_once)
qed

definition moves :: "string \<Rightarrow> execution_state \<Rightarrow> execution_state \<Rightarrow> bool" where
  "moves pid s s' \<longleftrightarrow> execution_step pid s (Returns s')"

definition panics_later :: "string \<Rightarrow> execution_state \<Rightarrow> bool" where
  "panics_later pid s \<longleftrightarrow> (\<exists>s' p. (moves pid)\<^sup>*\<^sup>* s s' \<and> execution_step pid s' (Panics p))"

lemma panics_now: "execution_step pid s (Panics p) \<Longrightarrow> panics_later pid s"
  unfolding panics_later_def by blast

lemma panics_after: "execution_step pid s (Returns s') \<Longrightarrow> panics_later pid s' \<Longrightarrow> panics_later pid s"
  unfolding panics_later_def moves_def by (blast intro: converse_rtranclp_into_rtranclp)

lemma closed_reader_panics:
  assumes "outputChan_closed s" and "reader_at s \<notin> {NotStarted, ReaderEnded}"
  shows "panics_later pid s"
proof -
  have returning: "panics_later pid s" if "reader_at s = Returning" "outputChan_closed s" for s
    using panics_now execution_step.reader_close [OF that(1), of pid] that(2)
    by (simp add: close_chan_def)
  show ?thesis
  proof (cases "reader_at s")
    case Receiving
    then show ?thesis
      using panics_after [OF execution_step.recv_eof returning] assms(1) by simp
  next
    case (Handing out)
    then show ?thesis
      using assms(1) by (intro panics_now [OF execution_step.hand_closed [where out = out]]) simp_all
  next
    case (HandingError out)
    then show ?thesis
      using assms(1) by (intro panics_now [OF execution_step.hand_closed [where out = out]]) simp_all
  next
    case Returning
    then show ?thesis
      using assms(1) by (rule returning)
  qed (use assms in simp_all)
qed

lemma cancelled_panics:
  assumes "runner_at s = Cancelled" and "reader_at s \<noteq> NotStarted" and "closed_once s"
  shows "panics_later pid s"
proof (cases "outputChan_closed s")
  case True
  then show ?thesis
    using panics_now execution_step.runner_close [OF assms(1), of pid] by (simp add: close_chan_def)
next
  case False
  let ?u = "s\<lparr>outputChan_closed := True, runner_at := RunnerEnded\<rparr>"
  have "execution_step pid s (Returns ?u)"
    using execution_step.runner_close [OF assms(1), of pid] False by (simp add: close_chan_def)
  moreover have "panics_later pid ?u"
    using assms False by (intro closed_reader_panics) (auto simp: closed_once_def)
  ultimately show ?thesis
    by (rule panics_after)
qed

lemma launched_panics:
  assumes "closed_once s" and "reader_at s \<noteq> NotStarted"
  shows "panics_later pid s"
proof -
  have cancel: "panics_later pid s" if "runner_at s = CallReturned \<or> runner_at s = CallFailed err" for err
  proof (rule panics_after [OF execution_step.cancel [OF that]])
    show "panics_later pid (s\<lparr>ctx_cancelled := True, runner_at := Cancelled\<rparr>)"
      using assms that by (intro cancelled_panics) (auto simp: closed_once_def)
  qed
  show ?thesis
  proof (cases "runner_at s")
    case Calling
    with assms show ?thesis by (simp add: closed_once_def)
  next
    case RunnerEnded
    with assms show ?thesis by (intro closed_reader_panics) (auto simp: closed_once_def)
  next
    case Cancelled
    then show ?thesis using assms by (intro cancelled_panics)
  qed (use cancel in blast)+
qed

lemma no_reader_no_panic:
  "execution_step pid s r \<Longrightarrow> r = Panics p \<Longrightarrow> closed_once s \<Longrightarrow> reader_at s \<noteq> NotStarted"
  by (cases rule: execution_step.cases) (auto simp: closed_once_def close_chan_def split: if_splits)

text \<open>C35: A command whose request is sent successfully cannot end without a panic: the goroutine of
  StartTask and the one that receives the output both close the output channel, so never do both
  end, and from every state in which the second has started there is a run into a close of a
  closed channel or a send on one. A command whose request fails does not panic.\<close>

theorem successful_command_panics:
  assumes "execution_reaches pid s"
  shows "if reader_at s \<noteq> NotStarted
    then \<not> (runner_at s = RunnerEnded \<and> reader_at s = ReaderEnded)
      \<and> (\<exists>s' p. (moves pid)\<^sup>*\<^sup>* s s' \<and> execution_step pid s' (Panics p))
    else \<not> (\<exists>p. execution_step pid s (Panics p))"
  using reaches_closed_once [OF assms] launched_panics [of s pid] no_reader_no_panic
  unfolding panics_later_def by (auto simp: closed_once_def)

lemma successful_command_panics_witness:
  "\<exists>s' p. (moves ''p1'')\<^sup>*\<^sup>* (execution_start\<lparr>runner_at := CallReturned, reader_at := Receiving\<rparr>) s'
     \<and> execution_step ''p1'' s' (Panics p)"
proof -
  have "runner_at execution_start = Calling"
    by (simp add: execution_start_def)
  then have "execution_reaches ''p1''
      (execution_start\<lparr>runner_at := CallReturned, reader_at := Receiving\<rparr>)"
    by (rule execution_reaches.goes_on [OF execution_reaches.begins execution_step.call_returns])
  then show ?thesis
    using successful_command_panics by fastforce
qed

section \<open>Polling\<close>

text \<open>The answers handed over are a prefix of the polls, up to the first that is not an answer.\<close>

lemma poll_loop_answers:
  "fst (poll_loop (map Answer rs @ ps)) = rs @ fst (poll_loop ps)
   \<and> snd (poll_loop (map Answer rs @ ps)) = snd (poll_loop ps)"
  by (induction rs) (auto simp: Let_def split: prod.splits)

end
