(* ===== verification/Docker_Pool.thy ===== *)
theory Docker_Pool
  imports Task_Model Go_Text
begin

text \<open>
  The Docker resource pool, \<open>internal/adapters/resource/docker/docker_pool.go\<close>: a network, a manager
  container and worker containers on a Docker host, their start-up, health and removal.

  The daemon is a third party: what it answers may be any function of the calls made to it so
  far, which the operations record in order, and of the arguments of the call. Logging and
  the waits are left out. The statistics and \<open>ExecuteTask\<close> are in \<open>Pool_Stats\<close>.
\<close>

section \<open>The daemon\<close>

record container_spec =
  SpecImage :: string
  SpecEnv :: "string list"
  SpecLabels :: "(string \<times> string) list"
  SpecPorts :: "(string \<times> string) list"
  SpecRestart :: string
  SpecNetwork :: string
  SpecName :: string

datatype pool_call =
    CreatedNetwork string
  | CreatedContainer container_spec
  | StartedContainer string
  | RemovedContainer string
  | RemovedNetwork string

type_synonym log = "pool_call list"

record inspection =
  Addresses :: "string gomap"
  IsRunning :: bool

record daemon =
  NetworkList :: "log \<Rightarrow> (string \<times> string) list res"
  NetworkCreate :: "log \<Rightarrow> string \<Rightarrow> string res"
  Create :: "log \<Rightarrow> container_spec \<Rightarrow> string res"
  Start :: "log \<Rightarrow> string \<Rightarrow> go_error option"
  Inspect :: "log \<Rightarrow> string \<Rightarrow> inspection res"
  Remove :: "log \<Rightarrow> string \<Rightarrow> go_error option"
  NetworkRemove :: "log \<Rightarrow> string \<Rightarrow> go_error option"
  Dial :: "string \<Rightarrow> go_error option"

section \<open>The pool\<close>

record DockerHostPool =
  PoolID :: string
  PoolName :: string
  Endpoint :: string
  networkID :: string
  managerID :: string
  workerIDs :: "string list"
  workerClient :: "string option"

text \<open>An operation of the start-up: its error, or the pool and the calls so far.\<close>

type_synonym pool_state = "DockerHostPool \<times> log"

definition wrap :: "string \<Rightarrow> go_error \<Rightarrow> go_error" where
  "wrap msg err = GoError (msg @ '': '' @ message err)"

definition createNetwork :: "daemon \<Rightarrow> pool_state \<Rightarrow> go_error option \<times> pool_state" where
  "createNetwork d = (\<lambda>(p, l).
     let networkName = ''devops-platform-'' @ PoolID p in
     case NetworkList d l of
       Inl err \<Rightarrow> (Some (wrap ''failed to list networks'' err), (p, l))
     | Inr networks \<Rightarrow>
         (case List.find (\<lambda>n. fst n = networkName) networks of
            Some n \<Rightarrow> (None, (p\<lparr>networkID := snd n\<rparr>, l))
          | None \<Rightarrow>
              (let l' = l @ [CreatedNetwork networkName] in
               case NetworkCreate d l networkName of
                 Inl err \<Rightarrow> (Some (wrap ''failed to create network'' err), (p, l'))
               | Inr i \<Rightarrow> (None, (p\<lparr>networkID := i\<rparr>, l')))))"

text \<open>The labels of the pool's containers, and of its network without the role.\<close>

definition pool_labels :: "DockerHostPool \<Rightarrow> (string \<times> string) list" where
  "pool_labels p = [(''dev.rubentxu.devops-platform'', ''true''), (''pool.id'', PoolID p)]"

definition manager_spec :: "DockerHostPool \<Rightarrow> container_spec" where
  "manager_spec p =
     \<lparr>SpecImage = ''devops-platform-manager:latest'', SpecEnv = [''MANAGER_PORT=50051''],
      SpecLabels = pool_labels p @ [(''role'', ''manager'')],
      SpecPorts = [(''50051/tcp'', ''50051'')], SpecRestart = ''unless-stopped'',
      SpecNetwork = networkID p, SpecName = ''manager-'' @ PoolID p\<rparr>"

definition worker_spec :: "DockerHostPool \<Rightarrow> string \<Rightarrow> nat \<Rightarrow> container_spec" where
  "worker_spec p managerIP i =
     \<lparr>SpecImage = ''devops-platform-worker:latest'',
      SpecEnv = [''MANAGER_HOST='' @ managerIP, ''MANAGER_PORT=50051''],
      SpecLabels = pool_labels p @ [(''role'', ''worker'')],
      SpecPorts = [], SpecRestart = ''unless-stopped'', SpecNetwork = networkID p,
      SpecName = ''worker-'' @ PoolID p @ ''-'' @ show_nat i\<rparr>"

definition startManager :: "daemon \<Rightarrow> pool_state \<Rightarrow> go_error option \<times> pool_state" where
  "startManager d = (\<lambda>(p, l).
     let spec = manager_spec p; l' = l @ [CreatedContainer spec] in
     case Create d l spec of
       Inl err \<Rightarrow> (Some (wrap ''failed to create manager container'' err), (p, l'))
     | Inr cid \<Rightarrow>
         (let l'' = l' @ [StartedContainer cid] in
          case Start d l' cid of
            Some err \<Rightarrow> (Some (wrap ''failed to start manager container'' err), (p, l''))
          | None \<Rightarrow> (None, (p\<lparr>managerID := cid\<rparr>, l''))))"

text \<open>
  The address of the manager in the pool's network: \<open>Networks[p.networkID]\<close> is a pointer, nil for
  a key that is missing.
\<close>

definition manager_address :: "daemon \<Rightarrow> pool_state \<Rightarrow> string res go" where
  "manager_address d = (\<lambda>(p, l).
     case Inspect d l (managerID p) of
       Inl err \<Rightarrow> Returns (Inl (wrap ''failed to inspect manager container'' err))
     | Inr info \<Rightarrow>
         (case map_of (Addresses info) (networkID p) of
            None \<Rightarrow> Panics NilDereference
          | Some ip \<Rightarrow> Returns (Inr ip)))"

text \<open>The loop over the workers from index \<open>i\<close>, \<open>n\<close> of them left.\<close>

fun start_workers_from ::
  "daemon \<Rightarrow> string \<Rightarrow> nat \<Rightarrow> nat \<Rightarrow> pool_state \<Rightarrow> go_error option \<times> pool_state" where
  "start_workers_from d managerIP i 0 s = (None, s)"
| "start_workers_from d managerIP i (Suc n) (p, l) =
     (let spec = worker_spec p managerIP i; l' = l @ [CreatedContainer spec] in
      case Create d l spec of
        Inl err \<Rightarrow> (Some (wrap ''failed to create worker container'' err), (p, l'))
      | Inr cid \<Rightarrow>
          (let l'' = l' @ [StartedContainer cid] in
           case Start d l' cid of
             Some err \<Rightarrow> (Some (wrap ''failed to start worker container'' err), (p, l''))
           | None \<Rightarrow>
               start_workers_from d managerIP (Suc i) n
                 (p\<lparr>workerIDs := workerIDs p @ [cid]\<rparr>, l'')))"

definition startWorkers :: "daemon \<Rightarrow> nat \<Rightarrow> pool_state \<Rightarrow> (go_error option \<times> pool_state) go" where
  "startWorkers d n s =
     go_bind (manager_address d s) (\<lambda>r. Returns (case r of
         Inl err \<Rightarrow> (Some err, s)
       | Inr ip \<Rightarrow> start_workers_from d ip 0 n s))"

definition initWorkerClient :: "daemon \<Rightarrow> pool_state \<Rightarrow> (go_error option \<times> pool_state) go" where
  "initWorkerClient d s =
     go_bind (manager_address d s) (\<lambda>r. Returns (case r of
         Inl err \<Rightarrow> (Some err, s)
       | Inr ip \<Rightarrow>
           (let managerEndpoint = ip @ '':50051'' in
            case Dial d managerEndpoint of
              Some err \<Rightarrow> (Some (wrap ''failed to create gRPC connection'' err), s)
            | None \<Rightarrow> (None, ((fst s)\<lparr>workerClient := Some managerEndpoint\<rparr>, snd s)))))"

text \<open>
  The constructor; \<open>cli\<close> is the error of making the Docker client. The result is the pool, or the
  error and no pool; the calls made are kept in both cases.
\<close>

definition NewDockerHostPool ::
  "daemon \<Rightarrow> go_error option \<Rightarrow> string \<Rightarrow> string \<Rightarrow> string \<Rightarrow> log \<Rightarrow> (DockerHostPool res \<times> log) go"
where
  "NewDockerHostPool d cli pid name endpoint l =
     (case cli of
        Some err \<Rightarrow> Returns (Inl (wrap ''failed to create docker client'' err), l)
      | None \<Rightarrow>
          (let p = \<lparr>PoolID = pid, PoolName = name, Endpoint = endpoint, networkID = '''',
                    managerID = '''', workerIDs = [], workerClient = None\<rparr> in
           case createNetwork d (p, l) of
             (Some err, s) \<Rightarrow> Returns (Inl err, snd s)
           | (None, s) \<Rightarrow>
               (case startManager d s of
                  (Some err, s) \<Rightarrow> Returns (Inl err, snd s)
                | (None, s) \<Rightarrow>
                    go_bind (startWorkers d 2 s) (\<lambda>(err, s).
                      case err of
                        Some err \<Rightarrow> Returns (Inl err, snd s)
                      | None \<Rightarrow>
                          go_bind (initWorkerClient d s) (\<lambda>(err, s). Returns
                            (case err of
                               Some err \<Rightarrow> (Inl err, snd s)
                             | None \<Rightarrow> (Inr (fst s), snd s)))))))"

section \<open>Health and tasks\<close>

record HealthStatus =
  PoolIsHealthy :: bool
  LastCheck :: instant
  HealthMessage :: string

definition NewHealthStatus :: "instant \<Rightarrow> HealthStatus" where
  "NewHealthStatus now = \<lparr>PoolIsHealthy = True, LastCheck = now, HealthMessage = ''''\<rparr>"

definition running :: "daemon \<Rightarrow> log \<Rightarrow> string \<Rightarrow> bool" where
  "running d l cid = (case Inspect d l cid of Inl _ \<Rightarrow> False | Inr info \<Rightarrow> IsRunning info)"

fun first_stopped :: "daemon \<Rightarrow> log \<Rightarrow> nat \<Rightarrow> string list \<Rightarrow> nat option" where
  "first_stopped d l i [] = None"
| "first_stopped d l i (workerID # ids) =
     (if \<not> running d l workerID then Some i else first_stopped d l (Suc i) ids)"

definition GetHealthStatus :: "daemon \<Rightarrow> instant \<Rightarrow> pool_state \<Rightarrow> HealthStatus" where
  "GetHealthStatus d now = (\<lambda>(p, l).
     if \<not> running d l (managerID p) then
       \<lparr>PoolIsHealthy = False, LastCheck = now, HealthMessage = ''Manager container is not running''\<rparr>
     else
       (case first_stopped d l 0 (workerIDs p) of
          Some i \<Rightarrow>
            \<lparr>PoolIsHealthy = False, LastCheck = now,
             HealthMessage = ''Worker '' @ show_nat i @ '' is not running''\<rparr>
        | None \<Rightarrow> NewHealthStatus now))"

definition GetID :: "DockerHostPool \<Rightarrow> string" where
  "GetID p = PoolID p"

text \<open>The state reported for a task, whatever it is, and the operations not implemented.\<close>

definition TaskStatePending :: string where
  "TaskStatePending = ''PENDING''"

definition TaskStateRunning :: string where
  "TaskStateRunning = ''RUNNING''"

definition TaskStateCompleted :: string where
  "TaskStateCompleted = ''COMPLETED''"

definition TaskStateFailed :: string where
  "TaskStateFailed = ''FAILED''"

record PoolTaskStatus =
  StatusTaskID :: string
  StatusState :: string
  StatusStart :: "instant option"
  StatusFinish :: "instant option"
  StatusExit :: "int32 option"
  StatusError :: string

definition GetTaskStatus :: "string \<Rightarrow> PoolTaskStatus res" where
  "GetTaskStatus taskID =
     Inr \<lparr>StatusTaskID = taskID, StatusState = TaskStateRunning, StatusStart = None, StatusFinish = None,
          StatusExit = None, StatusError = ''''\<rparr>"

definition GetTaskLogs :: "string \<Rightarrow> bool \<Rightarrow> string res" where
  "GetTaskLogs taskID follow = Inl (GoError ''not implemented'')"

definition Pool_StopTask :: "string \<Rightarrow> go_error option" where
  "Pool_StopTask taskID = Some (GoError ''not implemented'')"

section \<open>Removal\<close>

fun remove_all :: "string list \<Rightarrow> log \<Rightarrow> log" where
  "remove_all [] l = l"
| "remove_all (workerID # ids) l = remove_all ids (l @ [RemovedContainer workerID])"

text \<open>The errors of the removals are logged only: the daemon's answers do not matter.\<close>

definition Cleanup :: "pool_state \<Rightarrow> go_error option \<times> log" where
  "Cleanup = (\<lambda>(p, l).
     (None, remove_all (workerIDs p) l @ [RemovedContainer (managerID p), RemovedNetwork (networkID p)]))"

section \<open>Properties\<close>

fun removal :: "pool_call \<Rightarrow> bool" where
  "removal (RemovedContainer _) = True"
| "removal (RemovedNetwork _) = True"
| "removal _ = False"

fun started_ids :: "log \<Rightarrow> string list" where
  "started_ids [] = []"
| "started_ids (StartedContainer i # l) = i # started_ids l"
| "started_ids (_ # l) = started_ids l"

lemma started_ids_append [simp]: "started_ids (l @ l') = started_ids l @ started_ids l'"
  by (induction l rule: started_ids.induct) auto

definition adds :: "log \<Rightarrow> log \<Rightarrow> bool" where
  "adds l l' \<longleftrightarrow> (\<exists>cs. l' = l @ cs \<and> (\<forall>c\<in>set cs. \<not> removal c))"

lemma adds_refl [simp]: "adds l l"
  by (simp add: adds_def)

lemma adds_one: "adds l l' \<Longrightarrow> \<not> removal c \<Longrightarrow> adds l (l' @ [c])"
  by (auto simp: adds_def)

lemma adds_trans: "adds a b \<Longrightarrow> adds b c \<Longrightarrow> adds a c"
  by (fastforce simp: adds_def)

lemma createNetwork_facts:
  "createNetwork d (p, l) = (err, (p', l')) \<Longrightarrow>
     adds l l' \<and> started_ids l' = started_ids l \<and> (\<exists>i. p' = p\<lparr>networkID := i\<rparr> \<or> p' = p)"
  by (auto simp: createNetwork_def adds_def Let_def split: sum.splits option.splits)

lemma startManager_facts:
  "startManager d (p, l) = (err, (p', l')) \<Longrightarrow>
     adds l l' \<and> (err = None \<longrightarrow>
       (\<exists>i. p' = p\<lparr>managerID := i\<rparr> \<and> started_ids l' = started_ids l @ [i]))"
  by (auto simp: startManager_def adds_def Let_def split: sum.splits option.splits)

lemma start_workers_facts:
  "start_workers_from d ip i n (p, l) = (err, (p', l')) \<Longrightarrow>
     adds l l' \<and> (err = None \<longrightarrow> (\<exists>ids. length ids = n \<and> workerIDs p' = workerIDs p @ ids
       \<and> started_ids l' = started_ids l @ ids \<and> managerID p' = managerID p
       \<and> networkID p' = networkID p \<and> PoolID p' = PoolID p))"
proof (induction n arbitrary: i p l)
  case 0
  then show ?case by simp
next
  case (Suc n)
  show ?case
  proof (cases "Create d l (worker_spec p ip i)")
    case (Inl e)
    with Suc.prems show ?thesis by (auto simp: adds_def Let_def)
  next
    case (Inr cid)
    show ?thesis
    proof (cases "Start d (l @ [CreatedContainer (worker_spec p ip i)]) cid")
      case (Some e)
      with Suc.prems Inr show ?thesis by (auto simp: adds_def Let_def)
    next
      case None
      let ?l = "l @ [CreatedContainer (worker_spec p ip i), StartedContainer cid]"
      have run: "start_workers_from d ip (Suc i) n (p\<lparr>workerIDs := workerIDs p @ [cid]\<rparr>, ?l) = (err, (p', l'))"
        using Suc.prems Inr None by (simp add: Let_def)
      have "adds l ?l" by (simp add: adds_def)
      with Suc.IH [OF run] show ?thesis
        by (auto intro: adds_trans intro!: exI [of _ "cid # _"])
    qed
  qed
qed

lemma startWorkers_facts:
  assumes "startWorkers d n (p, l) = Returns (err, (p', l'))"
  shows "adds l l' \<and> (err = None \<longrightarrow> length (workerIDs p') = length (workerIDs p) + n
    \<and> started_ids l' = started_ids l @ drop (length (workerIDs p)) (workerIDs p')
    \<and> take (length (workerIDs p)) (workerIDs p') = workerIDs p \<and> managerID p' = managerID p)"
proof (cases "manager_address d (p, l)")
  case (Returns x)
  with assms show ?thesis
    by (cases x) (auto simp: startWorkers_def dest!: start_workers_facts)
qed (use assms in \<open>simp add: startWorkers_def\<close>)

lemma initWorkerClient_facts:
  assumes "initWorkerClient d (p, l) = Returns (err, (p', l'))"
  shows "l' = l \<and> (err = None \<longrightarrow> (\<exists>ep. p' = p\<lparr>workerClient := Some ep\<rparr>))"
proof (cases "manager_address d (p, l)")
  case (Returns x)
  with assms show ?thesis
    by (cases x) (auto simp: initWorkerClient_def Let_def split: option.splits)
qed (use assms in \<open>simp add: initWorkerClient_def\<close>)

text \<open>C36: A pool that is returned has started exactly its manager and then its two workers, each
  once and in that order. A constructor that fails after it has started some of them returns no
  pool and has removed nothing: neither the containers it started nor the network it made.\<close>

theorem new_pool_starts_or_leaks:
  assumes "NewDockerHostPool d cli pid name endpoint [] = Returns (r, l)"
  shows "(\<forall>c\<in>set l. \<not> removal c)
    \<and> (\<forall>p. r = Inr p \<longrightarrow> length (workerIDs p) = 2
         \<and> started_ids l = managerID p # workerIDs p \<and> workerClient p \<noteq> None)"
proof (cases cli)
  case (Some err)
  with assms show ?thesis by (auto simp: NewDockerHostPool_def)
next
  case None
  let ?p = "\<lparr>PoolID = pid, PoolName = name, Endpoint = endpoint, networkID = '''',
    managerID = '''', workerIDs = [], workerClient = None\<rparr>"
  obtain e1 p1 l1 where s1: "createNetwork d (?p, []) = (e1, (p1, l1))"
    by (metis prod.exhaust)
  obtain e2 p2 l2 where s2: "startManager d (p1, l1) = (e2, (p2, l2))"
    by (metis prod.exhaust)
  note f1 = createNetwork_facts [OF s1] and f2 = startManager_facts [OF s2]
  have plain: "adds [] k \<Longrightarrow> \<forall>c\<in>set k. \<not> removal c" for k
    by (auto simp: adds_def)
  show ?thesis
  proof (cases "e1 = None \<and> e2 = None")
    case False
    then show ?thesis
      using assms None s1 s2 f1 f2 plain
      by (auto simp: NewDockerHostPool_def Let_def split: option.splits dest: adds_trans)
  next
    case True
    have run: "go_bind (startWorkers d 2 (p2, l2)) (\<lambda>(err, s).
        case err of
          Some err \<Rightarrow> Returns (Inl err, snd s)
        | None \<Rightarrow> go_bind (initWorkerClient d s) (\<lambda>(err, s). Returns
            (case err of Some err \<Rightarrow> (Inl err, snd s) | None \<Rightarrow> (Inr (fst s), snd s)))) = Returns (r, l)"
      using assms None s1 s2 True by (simp add: NewDockerHostPool_def)
    obtain e3 p3 l3 where s3: "startWorkers d 2 (p2, l2) = Returns (e3, (p3, l3))"
      using run by (cases "startWorkers d 2 (p2, l2)") auto
    have rest: "(case e3 of Some err \<Rightarrow> Returns (Inl err, l3)
        | None \<Rightarrow> go_bind (initWorkerClient d (p3, l3)) (\<lambda>(err, s). Returns
            (case err of Some err \<Rightarrow> (Inl err, snd s) | None \<Rightarrow> (Inr (fst s), snd s)))) = Returns (r, l)"
      using run by (simp add: s3 split: option.splits)
    note f3 = startWorkers_facts [OF s3]
    have workers0: "workerIDs p2 = []" and started0: "started_ids l1 = []"
      using f1 f2 True by auto
    have sofar: "adds [] l3"
      using f1 f2 f3 by (blast intro: adds_trans)
    show ?thesis
    proof (cases e3)
      case (Some err)
      with rest sofar plain show ?thesis by auto
    next
      case e3: None
      then obtain e4 p4 l4 where s4: "initWorkerClient d (p3, l3) = Returns (e4, (p4, l4))"
        and r: "(case e4 of Some err \<Rightarrow> (Inl err, l4) | None \<Rightarrow> (Inr p4, l4)) = (r, l)"
        using rest by (cases "initWorkerClient d (p3, l3)") (auto split: option.splits)
      note f4 = initWorkerClient_facts [OF s4]
      have "l = l3"
        using r f4 by (cases e4) auto
      moreover have "length (workerIDs p) = 2 \<and> started_ids l3 = managerID p # workerIDs p
          \<and> workerClient p \<noteq> None" if "r = Inr p" for p
        using that r f4 f3 f2 True e3 workers0 started0 by (cases e4) auto
      ultimately show ?thesis
        using plain [OF sofar] by simp
    qed
  qed
qed

text \<open>A daemon for the witnesses that names containers after what it is asked and refuses a name.\<close>

definition demo_daemon :: "string option \<Rightarrow> daemon" where
  "demo_daemon refused =
     \<lparr>NetworkList = (\<lambda>_. Inr []), NetworkCreate = (\<lambda>_ _. Inr ''n1''),
      Create = (\<lambda>_ spec. if refused = Some (SpecName spec) then Inl (GoError ''no space left'')
                          else Inr (SpecName spec)),
      Start = (\<lambda>_ _. None),
      Inspect = (\<lambda>_ _. Inr \<lparr>Addresses = [(''n1'', ''172.18.0.2'')], IsRunning = True\<rparr>),
      Remove = (\<lambda>_ _. None), NetworkRemove = (\<lambda>_ _. None), Dial = (\<lambda>_. None)\<rparr>"

lemma new_pool_starts_or_leaks_witness:
  "\<exists>err l. NewDockerHostPool (demo_daemon (Some ''worker-p-1'')) None ''p'' ''pool'' ''unix://'' []
       = Returns (Inl err, l)
     \<and> started_ids l = [''manager-p'', ''worker-p-0''] \<and> (\<forall>c\<in>set l. \<not> removal c)"
proof -
  have "(case NewDockerHostPool (demo_daemon (Some ''worker-p-1'')) None ''p'' ''pool'' ''unix://'' [] of
      Returns (Inl err, l) \<Rightarrow> started_ids l = [''manager-p'', ''worker-p-0''] | _ \<Rightarrow> False)"
    by code_simp
  then obtain err l where run: "NewDockerHostPool (demo_daemon (Some ''worker-p-1'')) None ''p'' ''pool''
      ''unix://'' [] = Returns (Inl err, l)" "started_ids l = [''manager-p'', ''worker-p-0'']"
    by (auto split: go.splits sum.splits) (metis old.sum.exhaust)+
  then show ?thesis
    using new_pool_starts_or_leaks [OF run(1)] by blast
qed

section \<open>Health and clean-up\<close>

lemma first_stopped_None: "first_stopped d l i ids = None \<longleftrightarrow> (\<forall>w\<in>set ids. running d l w)"
  by (induction ids arbitrary: i) auto

lemma first_stopped_Some:
  "first_stopped d l i ids = Some k \<Longrightarrow>
     i \<le> k \<and> k - i < length ids \<and> \<not> running d l (ids ! (k - i))
     \<and> (\<forall>j<k - i. running d l (ids ! j))"
proof (induction ids arbitrary: i)
  case Nil
  then show ?case by simp
next
  case (Cons w ids)
  show ?case
  proof (cases "running d l w")
    case False
    with Cons.prems show ?thesis by simp
  next
    case True
    with Cons.prems have "first_stopped d l (Suc i) ids = Some k"
      by simp
    from Cons.IH [OF this] have k: "Suc i \<le> k" "k - Suc i < length ids"
      "\<not> running d l (ids ! (k - Suc i))" "\<forall>j<k - Suc i. running d l (ids ! j)"
      by simp_all
    have "running d l ((w # ids) ! j)" if "j < k - i" for j
      using that True k(4) by (cases j) auto
    moreover have "k - i = Suc (k - Suc i)"
      using k(1) by simp
    ultimately show ?thesis
      using k by simp
  qed
qed

lemma remove_all_append: "remove_all ids l = l @ map RemovedContainer ids"
  by (induction ids arbitrary: l) simp_all

text \<open>A pool is healthy exactly if its manager and every worker can be inspected and run; the
  first worker that is not is the one named. Cleaning up asks for the removal of every worker,
  the manager and then the network, whatever the daemon answers, and always reports success.\<close>

theorem pool_health_and_cleanup:
  "(PoolIsHealthy (GetHealthStatus d now (p, l)) \<longleftrightarrow>
      running d l (managerID p) \<and> (\<forall>w\<in>set (workerIDs p). running d l w))
   \<and> (\<forall>k. HealthMessage (GetHealthStatus d now (p, l)) = ''Worker '' @ show_nat k @ '' is not running''
        \<longrightarrow> k < length (workerIDs p) \<and> \<not> running d l (workerIDs p ! k)
          \<and> (\<forall>j<k. running d l (workerIDs p ! j)))
   \<and> Cleanup (p, l) = (None, l @ map RemovedContainer (workerIDs p) @
        [RemovedContainer (managerID p), RemovedNetwork (networkID p)])"
proof (intro conjI allI impI)
  show "PoolIsHealthy (GetHealthStatus d now (p, l)) \<longleftrightarrow>
      running d l (managerID p) \<and> (\<forall>w\<in>set (workerIDs p). running d l w)"
    using first_stopped_None [of d l 0 "workerIDs p"]
    by (auto simp: GetHealthStatus_def NewHealthStatus_def split: option.split)
  show "Cleanup (p, l) = (None, l @ map RemovedContainer (workerIDs p) @
        [RemovedContainer (managerID p), RemovedNetwork (networkID p)])"
    by (simp add: Cleanup_def remove_all_append)
  fix k
  assume msg: "HealthMessage (GetHealthStatus d now (p, l)) = ''Worker '' @ show_nat k @ '' is not running''"
  then obtain i where i: "first_stopped d l 0 (workerIDs p) = Some i"
    and eq: "show_nat i @ '' is not running'' = show_nat k @ '' is not running''"
    by (auto simp: GetHealthStatus_def NewHealthStatus_def split: if_splits option.splits
        simp del: show_nat.simps)
  have "show_nat i = show_nat k"
    using eq by (simp only: append_same_eq)
  then have "i = k"
    using digits_val_show_nat by metis
  then show "k < length (workerIDs p)" and "\<not> running d l (workerIDs p ! k)"
    using first_stopped_Some [OF i] by simp_all
  show "running d l (workerIDs p ! j)" if "j < k" for j
    using first_stopped_Some [OF i] \<open>i = k\<close> that by simp
qed

lemma pool_health_and_cleanup_witness:
  "\<not> PoolIsHealthy (GetHealthStatus ((demo_daemon None)\<lparr>Inspect := (\<lambda>_ i. if i = ''w1'' then Inl (GoError ''gone'')
        else Inr \<lparr>Addresses = [], IsRunning = True\<rparr>)\<rparr>) 0
      (\<lparr>PoolID = ''p'', PoolName = '''', Endpoint = '''', networkID = ''n1'', managerID = ''m'',
        workerIDs = [''w0'', ''w1''], workerClient = None\<rparr>, []))"
  using pool_health_and_cleanup
    [of "(demo_daemon None)\<lparr>Inspect := (\<lambda>_ i. if i = ''w1'' then Inl (GoError ''gone'')
        else Inr \<lparr>Addresses = [], IsRunning = True\<rparr>)\<rparr>" 0
      "\<lparr>PoolID = ''p'', PoolName = '''', Endpoint = '''', networkID = ''n1'', managerID = ''m'',
        workerIDs = [''w0'', ''w1''], workerClient = None\<rparr>" "[]"]
  by (simp add: running_def)

end
