(* ===== verification/Go_Float.thy ===== *)
theory Go_Float
  imports Complex_Main Prelude "HOL-Library.Log_Nat"
begin

text \<open>
  Go's \<open>float64\<close>: IEEE 754 double precision with rounding to nearest, ties to even. A value is a
  rational number or one of the special values; every operation rounds the exact result.
  Negative zero is not distinguished from zero: the code never divides by one, and the power
  function gives one for both.
\<close>

section \<open>Values\<close>

datatype float64 = NaN | PInf | NInf | Fin rat

fun f_less :: "float64 \<Rightarrow> float64 \<Rightarrow> bool" where
  "f_less (Fin x) (Fin y) \<longleftrightarrow> x < y"
| "f_less NInf (Fin y) \<longleftrightarrow> True"
| "f_less NInf PInf \<longleftrightarrow> True"
| "f_less (Fin x) PInf \<longleftrightarrow> True"
| "f_less _ _ \<longleftrightarrow> False"

section \<open>Rounding\<close>

text \<open>The exponent of a positive number: \<open>2 ^ e \<le> x < 2 ^ (e + 1)\<close>.\<close>

definition binary_exponent :: "rat \<Rightarrow> int" where
  "binary_exponent x =
     (let (a, b) = quotient_of x; e = bitlen a - bitlen b
      in if 2 powi e \<le> x then e else e - 1)"

definition round_half_even :: "rat \<Rightarrow> int" where
  "round_half_even x =
     (let n = \<lfloor>x\<rfloor>; r = x - of_int n
      in if r < 1 / 2 then n else if r > 1 / 2 then n + 1 else if even n then n else n + 1)"

text \<open>The spacing of the numbers of 53 significant bits around a positive one, subnormals included.\<close>

definition quantum :: "rat \<Rightarrow> rat" where
  "quantum x = 2 powi (max (binary_exponent x) (-1022) - 52)"

definition round_pos :: "rat \<Rightarrow> rat" where
  "round_pos x = (if x = 0 then 0 else of_int (round_half_even (x / quantum x)) * quantum x)"

definition rnd :: "rat \<Rightarrow> float64" where
  "rnd x =
     (if round_pos \<bar>x\<bar> \<ge> 2 ^ 1024 then (if x > 0 then PInf else NInf)
      else Fin (sgn x * round_pos \<bar>x\<bar>))"


section \<open>Operations\<close>

fun f_neg :: "float64 \<Rightarrow> float64" where
  "f_neg (Fin x) = Fin (- x)"
| "f_neg PInf = NInf"
| "f_neg NInf = PInf"
| "f_neg NaN = NaN"

fun f_add :: "float64 \<Rightarrow> float64 \<Rightarrow> float64" where
  "f_add (Fin x) (Fin y) = rnd (x + y)"
| "f_add PInf (Fin y) = PInf"
| "f_add (Fin x) PInf = PInf"
| "f_add PInf PInf = PInf"
| "f_add NInf (Fin y) = NInf"
| "f_add (Fin x) NInf = NInf"
| "f_add NInf NInf = NInf"
| "f_add _ _ = NaN"

definition f_sub :: "float64 \<Rightarrow> float64 \<Rightarrow> float64" where
  "f_sub x y = f_add x (f_neg y)"

fun f_div :: "float64 \<Rightarrow> float64 \<Rightarrow> float64" where
  "f_div (Fin x) (Fin y) =
     (if y = 0 then (if x = 0 then NaN else if x > 0 then PInf else NInf) else rnd (x / y))"
| "f_div PInf (Fin y) = (if y \<ge> 0 then PInf else NInf)"
| "f_div NInf (Fin y) = (if y \<ge> 0 then NInf else PInf)"
| "f_div (Fin x) PInf = Fin 0"
| "f_div (Fin x) NInf = Fin 0"
| "f_div _ _ = NaN"

text \<open>The infinity of a sign; a product with zero of an infinity is not a number.\<close>

definition infinite :: "rat \<Rightarrow> float64" where
  "infinite s = (if s = 0 then NaN else if s > 0 then PInf else NInf)"

fun f_mul :: "float64 \<Rightarrow> float64 \<Rightarrow> float64" where
  "f_mul (Fin x) (Fin y) = rnd (x * y)"
| "f_mul PInf (Fin y) = infinite y"
| "f_mul NInf (Fin y) = infinite (- y)"
| "f_mul (Fin x) PInf = infinite x"
| "f_mul (Fin x) NInf = infinite (- x)"
| "f_mul PInf PInf = PInf"
| "f_mul PInf NInf = NInf"
| "f_mul NInf PInf = NInf"
| "f_mul NInf NInf = PInf"
| "f_mul _ _ = NaN"

text \<open>Conversions from integers round too.\<close>

definition float_of_uint64 :: "uint64 \<Rightarrow> float64" where
  "float_of_uint64 w = rnd (of_nat (unat w))"

definition float_of_int64 :: "int64 \<Rightarrow> float64" where
  "float_of_int64 w = rnd (of_int (sint w))"

text \<open>The conversion to an unsigned integer drops the fraction; for a value that does not fit, the
  language leaves the result to the implementation: \<open>other\<close>.\<close>

definition uint64_of_float :: "(float64 \<Rightarrow> uint64) \<Rightarrow> float64 \<Rightarrow> uint64" where
  "uint64_of_float other x =
     (case x of
        Fin q \<Rightarrow>
          (let n = (if q \<ge> 0 then \<lfloor>q\<rfloor> else \<lceil>q\<rceil>)
           in if 0 \<le> n \<and> n < 2 ^ 64 then word_of_int n else other x)
      | _ \<Rightarrow> other x)"

section \<open>Rounding is monotone and exact on its results\<close>

lemma binary_exponent_bounds:
  assumes "x > 0"
  shows "2 powi binary_exponent x \<le> x" and "x < 2 powi (binary_exponent x + 1)"
proof -
  obtain a b where q: "quotient_of x = (a, b)" by (cases "quotient_of x")
  have b: "b > 0" using q by (rule quotient_of_denom_pos)
  have x: "x = of_int a / of_int b" using q by (rule quotient_of_div)
  have a: "a > 0" using assms b x by (simp add: zero_less_divide_iff)
  have pow: "(2 :: rat) ^ nat (bitlen n - 1) = 2 powi (bitlen n - 1)"
      "(2 :: rat) ^ nat (bitlen n) = 2 powi bitlen n" if "n > 0" for n
    using bitlen_bounds [OF that] that bitlen_eq_zero_iff [of n] bitlen_nonneg [of n]
    by (simp_all add: power_int_def)
  have cast: "2 powi (bitlen n - 1) \<le> (of_int n :: rat)" "(of_int n :: rat) < 2 powi bitlen n"
    if "n > 0" for n
  proof -
    have "(of_int (2 ^ nat (bitlen n - 1)) :: rat) \<le> of_int n"
      and "(of_int n :: rat) < of_int (2 ^ nat (bitlen n))"
      using bitlen_bounds [OF that] by (simp_all only: of_int_le_iff of_int_less_iff)
    then show "2 powi (bitlen n - 1) \<le> (of_int n :: rat)" "(of_int n :: rat) < 2 powi bitlen n"
      using pow [OF that] by simp_all
  qed
  have b0: "(of_int b :: rat) > 0" using b by simp
  have low: "2 powi (bitlen a - bitlen b - 1) \<le> x"
  proof -
    have "2 powi (bitlen a - bitlen b - 1) = 2 powi (bitlen a - 1) / (2 powi bitlen b :: rat)"
      by (simp add: power_int_diff [symmetric] algebra_simps)
    also have "\<dots> \<le> of_int a / of_int b"
      using cast [OF a] cast [OF b] b0 a by (intro frac_le) auto
    finally show ?thesis by (simp add: x)
  qed
  have high: "x < 2 powi (bitlen a - bitlen b + 1)"
  proof -
    have "of_int a / of_int b < (2 powi bitlen a / 2 powi (bitlen b - 1) :: rat)"
      using cast [OF a] cast [OF b] b0 a by (intro frac_less) auto
    also have "\<dots> = 2 powi (bitlen a - bitlen b + 1)"
      by (simp add: power_int_diff [symmetric] algebra_simps)
    finally show ?thesis by (simp add: x)
  qed
  show "2 powi binary_exponent x \<le> x" "x < 2 powi (binary_exponent x + 1)"
    using low high by (auto simp: binary_exponent_def q Let_def)
qed

lemma powi_le_iff: "(2 :: rat) powi m \<le> 2 powi n \<longleftrightarrow> m \<le> n"
  using power_int_increasing [of m n "2 :: rat"] power_int_le_imp_le_exp [of "2 :: rat" m n]
    power_int_strict_increasing [of n m "2 :: rat"] by force

lemma powi_less_iff: "(2 :: rat) powi m < 2 powi n \<longleftrightarrow> m < n"
  using powi_le_iff [of n m] by linarith

lemma binary_exponent_mono:
  assumes "0 < x" and "x \<le> y"
  shows "binary_exponent x \<le> binary_exponent y"
proof -
  have "2 powi binary_exponent x < (2 powi (binary_exponent y + 1) :: rat)"
    using binary_exponent_bounds [of x] binary_exponent_bounds [of y] assms by linarith
  then show ?thesis by (simp add: powi_less_iff)
qed

lemma round_half_even_of_int [simp]: "round_half_even (of_int n) = n"
  by (simp add: round_half_even_def Let_def)

lemma round_half_even_bounds: "\<lfloor>x\<rfloor> \<le> round_half_even x" "round_half_even x \<le> \<lfloor>x\<rfloor> + 1"
  by (simp_all add: round_half_even_def Let_def)

lemma round_half_even_mono:
  assumes "x \<le> y"
  shows "round_half_even x \<le> round_half_even y"
proof (cases "\<lfloor>x\<rfloor> = \<lfloor>y\<rfloor>")
  case True
  with assms show ?thesis by (auto simp: round_half_even_def Let_def)
next
  case False
  then have "\<lfloor>x\<rfloor> + 1 \<le> \<lfloor>y\<rfloor>"
    using floor_mono [OF assms] by linarith
  then show ?thesis
    using round_half_even_bounds(2) [of x] round_half_even_bounds(1) [of y] by linarith
qed

definition spacing_exponent :: "rat \<Rightarrow> int" where
  "spacing_exponent x = max (binary_exponent x) (-1022)"

lemma quantum_spacing: "quantum x = 2 powi (spacing_exponent x - 52)" "quantum x > 0"
  by (simp_all add: quantum_def spacing_exponent_def)

lemma times_quantum: "2 ^ n * quantum x = 2 powi (spacing_exponent x - 52 + int n)"
  by (simp add: quantum_spacing(1) power_int_add mult.commute)

lemma round_pos_upper:
  assumes "x > 0"
  shows "round_pos x \<le> 2 powi (spacing_exponent x + 1)"
    and "round_half_even (x / quantum x) \<le> 2 ^ 53"
proof -
  have "x < 2 powi (binary_exponent x + 1)"
    by (rule binary_exponent_bounds(2) [OF assms])
  also have "\<dots> \<le> 2 powi (spacing_exponent x + 1)"
    unfolding powi_le_iff by (simp add: spacing_exponent_def)
  finally have less: "x \<le> 2 ^ 53 * quantum x"
    using times_quantum [of 53 x] by (simp add: add.commute)
  then have "x / quantum x \<le> of_int (2 ^ 53)"
    using quantum_spacing(2) [of x] by (simp add: pos_divide_le_eq)
  from round_half_even_mono [OF this] show le: "round_half_even (x / quantum x) \<le> 2 ^ 53"
    by (simp only: round_half_even_of_int)
  then have "(of_int (round_half_even (x / quantum x)) :: rat) \<le> of_int (2 ^ 53)"
    by (simp only: of_int_le_iff)
  then have "round_pos x \<le> 2 ^ 53 * quantum x"
    using quantum_spacing(2) [of x] assms by (simp add: round_pos_def)
  then show "round_pos x \<le> 2 powi (spacing_exponent x + 1)"
    using times_quantum [of 53 x] by (simp add: add.commute)
qed

lemma round_pos_lower:
  assumes "x > 0" and "spacing_exponent x = binary_exponent x"
  shows "2 powi spacing_exponent x \<le> round_pos x"
proof -
  have "2 ^ 52 * quantum x \<le> x"
    using times_quantum [of 52 x] binary_exponent_bounds(1) [OF assms(1)] assms(2) by simp
  then have "of_int (2 ^ 52) \<le> x / quantum x"
    using quantum_spacing(2) [of x] by (simp add: pos_le_divide_eq)
  from round_half_even_mono [OF this] have "2 ^ 52 \<le> round_half_even (x / quantum x)"
    by (simp only: round_half_even_of_int)
  then have "(of_int (2 ^ 52) :: rat) \<le> of_int (round_half_even (x / quantum x))"
    by (simp only: of_int_le_iff)
  then have "2 ^ 52 * quantum x \<le> round_pos x"
    using quantum_spacing(2) [of x] assms(1) by (simp add: round_pos_def)
  then show ?thesis
    using times_quantum [of 52 x] by simp
qed

lemma round_pos_zero [simp]: "round_pos 0 = 0"
  by (simp add: round_pos_def)

lemma round_half_even_nonneg: "0 \<le> x \<Longrightarrow> 0 \<le> round_half_even x"
  using round_half_even_mono [of 0 x] round_half_even_of_int [of 0] by simp

lemma round_pos_nonneg: "0 \<le> x \<Longrightarrow> 0 \<le> round_pos x"
  using quantum_spacing(2) [of x] by (simp add: round_pos_def round_half_even_nonneg)

lemma round_pos_mono:
  assumes "0 \<le> x" and "x \<le> y"
  shows "round_pos x \<le> round_pos y"
proof (cases "x = 0")
  case True
  with assms round_pos_nonneg [of y] show ?thesis by simp
next
  case False
  with assms have x: "x > 0" and y: "y > 0" by simp_all
  have mono: "spacing_exponent x \<le> spacing_exponent y"
    using binary_exponent_mono [OF x assms(2)] by (simp add: spacing_exponent_def)
  show ?thesis
  proof (cases "spacing_exponent x = spacing_exponent y")
    case True
    then have q: "quantum x = quantum y" by (simp add: quantum_spacing(1))
    have "x / quantum y \<le> y / quantum y"
      using assms(2) quantum_spacing(2) [of y] by (simp add: divide_right_mono)
    from round_half_even_mono [OF this] show ?thesis
      using quantum_spacing(2) [of y] x y by (simp add: round_pos_def q)
  next
    case False
    with mono have less: "spacing_exponent x + 1 \<le> spacing_exponent y" by simp
    then have "spacing_exponent y = binary_exponent y"
      by (auto simp: spacing_exponent_def)
    from round_pos_lower [OF y this] round_pos_upper(1) [OF x] show ?thesis
      using powi_le_iff [of "spacing_exponent x + 1" "spacing_exponent y"] less by linarith
  qed
qed

text \<open>A number of at most 53 significant bits, not below the subnormals, is its own rounding.\<close>

lemma round_pos_exact:
  assumes "0 < n" and "n < 2 ^ 53" and "-1074 \<le> k"
  shows "round_pos (of_int n * 2 powi k) = of_int n * 2 powi k"
proof -
  let ?v = "of_int n * 2 powi k :: rat"
  have v: "?v > 0" using assms(1) by simp
  have "2 powi binary_exponent ?v \<le> ?v"
    by (rule binary_exponent_bounds(1) [OF v])
  also have "\<dots> < of_int (2 ^ 53) * 2 powi k"
    using assms(2) by (intro mult_strict_right_mono) (simp_all only: of_int_less_iff, simp)
  also have "\<dots> = 2 powi (53 + k)"
    by (simp add: power_int_add)
  finally have "spacing_exponent ?v - 52 \<le> k"
    using assms(3) by (simp add: powi_less_iff spacing_exponent_def)
  then obtain d where d: "k = spacing_exponent ?v - 52 + int d"
    by (metis zle_iff_zadd)
  then have "spacing_exponent ?v - 52 + int d = k" by simp
  then have "2 powi k = 2 ^ d * quantum ?v"
    by (simp only: times_quantum)
  then have "?v / quantum ?v = of_int n * (2 ^ d * quantum ?v) / quantum ?v"
    by simp
  also have "\<dots> = of_int (n * 2 ^ d)"
    using quantum_spacing(2) [of ?v] by simp
  finally have "round_half_even (?v / quantum ?v) = n * 2 ^ d"
    by (simp only: round_half_even_of_int)
  then have "round_pos ?v = of_int (n * 2 ^ d) * quantum ?v"
    using v by (simp add: round_pos_def)
  also have "\<dots> = of_int n * (2 ^ d * quantum ?v)"
    by simp
  also have "\<dots> = ?v"
    by (simp only: \<open>2 powi k = 2 ^ d * quantum ?v\<close> [symmetric])
  finally show ?thesis .
qed

lemma round_pos_power: "-1074 \<le> k \<Longrightarrow> round_pos (2 powi k) = 2 powi k"
  using round_pos_exact [of 1 k] by simp

lemma round_pos_idem:
  assumes "0 \<le> x"
  shows "round_pos (round_pos x) = round_pos x"
proof (cases "x = 0")
  case False
  with assms have x: "x > 0" by simp
  let ?n = "round_half_even (x / quantum x)"
  have r: "round_pos x = of_int ?n * 2 powi (spacing_exponent x - 52)"
    using x by (simp add: round_pos_def quantum_spacing(1))
  have n: "0 \<le> ?n" "?n \<le> 2 ^ 53"
    using round_pos_upper(2) [OF x] quantum_spacing(2) [of x] x
    by (auto intro!: round_half_even_nonneg)
  have k: "-1074 \<le> spacing_exponent x - 52"
    by (simp add: spacing_exponent_def)
  consider "?n = 0" | "?n = 2 ^ 53" | "0 < ?n" "?n < 2 ^ 53"
    using n by linarith
  then show ?thesis
  proof cases
    case 2
    then have "round_pos x = 2 powi (spacing_exponent x + 1)"
      using r times_quantum [of 53 x] by (simp add: quantum_spacing(1) add.commute)
    then show ?thesis
      using k by (simp add: round_pos_power)
  next
    case 3
    then show ?thesis using r round_pos_exact [OF 3 k] by simp
  qed (simp add: r)
qed simp

section \<open>What clients rely on\<close>

text \<open>The laws of a rounding of the non-negative numbers, and what follows for a proportion.\<close>

locale rounding =
  fixes r :: "rat \<Rightarrow> rat"
  assumes mono: "0 \<le> x \<Longrightarrow> x \<le> y \<Longrightarrow> r x \<le> r y"
    and zero: "r 0 = 0"
    and one: "r 1 = 1"
    and idem: "0 \<le> x \<Longrightarrow> r (r x) = r x"
begin

lemma nonneg: "0 \<le> x \<Longrightarrow> 0 \<le> r x"
  using mono [of 0 x] by (simp add: zero)

lemma difference_bounds:
  assumes "0 \<le> b" and "b \<le> a"
  shows "0 \<le> r (r a - r b)" and "r (r a - r b) \<le> r a"
proof -
  have "r b \<le> r a" and "0 \<le> r b"
    using assms by (simp_all add: mono nonneg)
  then show "0 \<le> r (r a - r b)"
    by (simp add: nonneg)
  have "r (r a - r b) \<le> r (r a)"
    using \<open>r b \<le> r a\<close> \<open>0 \<le> r b\<close> by (intro mono) simp_all
  then show "r (r a - r b) \<le> r a"
    using assms by (simp add: idem)
qed

lemma proportion_bounds:
  assumes "0 \<le> b" and "b \<le> a" and "0 < r a"
  shows "0 \<le> r (r (r a - r b) / r a) \<and> r (r (r a - r b) / r a) \<le> 1"
proof -
  have "0 \<le> r (r a - r b) / r a" and le: "r (r a - r b) / r a \<le> 1"
    using difference_bounds [OF assms(1,2)] assms(3) by simp_all
  then show ?thesis
    using mono [OF _ le] by (simp add: one nonneg)
qed

end

interpretation binary64: rounding round_pos
proof
  show "round_pos 1 = 1"
    using round_pos_power [of 0] by simp
qed (simp_all add: round_pos_mono round_pos_idem)

lemma rnd_finite:
  assumes "0 \<le> x" and "x \<le> 2 ^ 64"
  shows "rnd x = Fin (round_pos x)"
proof -
  have "round_pos x \<le> round_pos (2 ^ 64)"
    using assms by (rule round_pos_mono)
  also have "\<dots> = 2 ^ 64"
    using round_pos_power [of 64] by (simp add: power_int_def)
  also have "\<dots> < 2 ^ 1024"
    by (rule power_strict_increasing) simp_all
  finally have "\<not> round_pos x \<ge> 2 ^ 1024"
    by (simp only: not_le)
  then show ?thesis
    using assms by (cases "x = 0") (simp_all add: rnd_def)
qed

lemma round_pos_positive:
  assumes "1 \<le> x"
  shows "1 \<le> round_pos x"
  using round_pos_mono [of 1 x] assms by (simp add: binary64.one)

lemma rnd_zero [simp]: "rnd 0 = Fin 0"
  by (simp add: rnd_def)

text \<open>Integers of at most 53 bits survive the conversion to a float and back.\<close>

lemma uint64_of_float_exact:
  assumes "unat w < 2 ^ 53"
  shows "uint64_of_float other (float_of_uint64 w) = w"
proof -
  have "rnd (of_nat (unat w)) = Fin (of_nat (unat w))"
  proof (cases "unat w = 0")
    case False
    then have "round_pos (of_int (int (unat w)) * 2 powi 0) = of_int (int (unat w)) * 2 powi 0"
      using assms by (intro round_pos_exact) (simp_all del: of_nat_unat)
    moreover have "(of_nat (unat w) :: rat) \<le> 2 ^ 64"
    proof -
      have "(of_nat (unat w) :: rat) \<le> of_nat (2 ^ 64)"
        unfolding of_nat_le_iff by (rule order_trans [OF less_imp_le [OF assms]]) simp
      then show ?thesis by simp
    qed
    ultimately show ?thesis
      by (simp add: rnd_finite del: of_nat_unat)
  qed simp
  moreover have "\<lfloor>of_nat (unat w) :: rat\<rfloor> = uint w"
    by (simp only: floor_of_nat uint_nat)
  moreover have "uint w < 2 ^ 64"
    using uint_bounded [of w] by simp
  ultimately show ?thesis
    by (simp add: float_of_uint64_def uint64_of_float_def Let_def del: of_nat_unat)
qed

end
