(* ===== verification/Pool_Stats.thy ===== *)
theory Pool_Stats
  imports Docker_Pool Go_Float
begin

text \<open>
  The statistics of \<open>internal/core/domain/resource/resource.go\<close>, and what the Docker pool
  reports and runs: \<open>GetStats\<close> and \<open>ExecuteTask\<close> of \<open>docker_pool.go\<close>.

  The runtime's counters, the daemon's answers and the gRPC client's calls are parameters. \<open>ExecuteTask\<close>
  names the fields and states of an older task type; they are read as those of the present one
  (\<open>Spec.Config.Command\<close> as \<open>Spec.Command\<close>, \<open>TaskPhaseFailed\<close> as \<open>Failed\<close>).
\<close>

section \<open>Statistics of resources\<close>

record CPUStats =
  UsagePercentage :: float64
  AvailableCores :: int64

record MemoryStats =
  TotalKb :: uint64
  UsedKb :: uint64
  FreeKb :: uint64

record DiskStats =
  TotalBytes :: uint64
  UsedBytes :: uint64
  FreeBytes :: uint64

record ResourceStats =
  RCPUStats :: CPUStats
  RMemoryStats :: MemoryStats
  RDiskStats :: DiskStats

text \<open>What package \<open>runtime\<close> tells.\<close>

record go_runtime =
  NumCPU :: int64
  Sys :: uint64
  HeapIdle :: uint64

definition NewCPUStats :: "go_runtime \<Rightarrow> CPUStats" where
  "NewCPUStats rt = \<lparr>UsagePercentage = Fin 0, AvailableCores = NumCPU rt\<rparr>"

definition NewMemoryStats :: "go_runtime \<Rightarrow> MemoryStats" where
  "NewMemoryStats rt =
     \<lparr>TotalKb = Sys rt div 1024, UsedKb = (Sys rt - HeapIdle rt) div 1024, FreeKb = HeapIdle rt div 1024\<rparr>"

definition no_disk :: DiskStats where
  "no_disk = \<lparr>TotalBytes = 0, UsedBytes = 0, FreeBytes = 0\<rparr>"

definition NewResourceStats :: "go_runtime \<Rightarrow> ResourceStats" where
  "NewResourceStats rt =
     \<lparr>RCPUStats = NewCPUStats rt, RMemoryStats = NewMemoryStats rt, RDiskStats = no_disk\<rparr>"

section \<open>Statistics of the pool\<close>

record docker_info =
  NCPU :: int64
  MemTotal :: int64

record docker_stats =
  TotalUsage :: uint64
  Usage :: uint64

text \<open>\<open>stats\<close> is what asking for a container's statistics gives, and then what decoding the answer
  gives; \<open>other\<close> is the conversion of a float that does not fit.\<close>

definition Pool_GetStats ::
  "go_runtime \<Rightarrow> (float64 \<Rightarrow> uint64) \<Rightarrow> docker_info res \<Rightarrow> (string \<Rightarrow> docker_stats res res) \<Rightarrow>
   DockerHostPool \<Rightarrow> ResourceStats" where
  "Pool_GetStats rt other info stats p =
     (case info of
        Inl err \<Rightarrow> NewResourceStats rt
      | Inr info \<Rightarrow>
          (case stats (managerID p) of
             Inl err \<Rightarrow> NewResourceStats rt
           | Inr (Inl err) \<Rightarrow> NewResourceStats rt
           | Inr (Inr containerStats) \<Rightarrow>
               (let cpuUsage = float_of_uint64 (TotalUsage containerStats);
                    memoryUsage = float_of_uint64 (Usage containerStats);
                    cpuCount = float_of_int64 (NCPU info)
                in \<lparr>RCPUStats = \<lparr>UsagePercentage = f_mul (f_div cpuUsage cpuCount) (Fin 100),
                      AvailableCores = NCPU info\<rparr>,
                    RMemoryStats = \<lparr>TotalKb = MemTotal info div 1024,
                      UsedKb = uint64_of_float other memoryUsage div 1024,
                      FreeKb = (MemTotal info - uint64_of_float other memoryUsage) div 1024\<rparr>,
                    RDiskStats = \<lparr>TotalBytes = 0, UsedBytes = 0, FreeBytes = 0\<rparr>\<rparr>)))"

section \<open>Running a task on the pool\<close>

text \<open>\<open>exec\<close> is the client's call, by the endpoint it is connected to.\<close>

definition ExecuteTask ::
  "(string \<Rightarrow> string \<Rightarrow> string list \<Rightarrow> string \<Rightarrow> string gomap option \<Rightarrow> go_error option) \<Rightarrow>
   (uuid \<Rightarrow> string) \<Rightarrow> instant \<Rightarrow> DockerHostPool \<Rightarrow> Task \<Rightarrow> (go_error option \<times> Task) go" where
  "ExecuteTask exec uuid_str now p t =
     (let tid = uuid_str (MetaID (Metadata t)); command = Command (Spec t) in
      if command = [] then Returns (Some (GoError ''no command specified in task''), t)
      else
        (case workerClient p of
           None \<Rightarrow> Panics NilDereference
         | Some endpoint \<Rightarrow>
             (case exec endpoint tid command (WorkingDir (SpecConfig (Spec t))) (EnvVars (SpecConfig (Spec t))) of
                Some err \<Rightarrow>
                  Returns (Some (wrap ''failed to execute command'' err),
                    UpdateStatus now Failed tid (message err) t)
              | None \<Rightarrow> Returns (None, UpdateStatus now Running tid ''Task sent to worker'' t))))"

section \<open>Properties\<close>

text \<open>Used and free memory in kilobytes, each rounded down, add up to the total or to one less.\<close>

lemma kilobytes_add_up:
  fixes a b :: uint64
  assumes "b \<le> a"
  shows "unat (b div 1024) + unat ((a - b) div 1024) \<le> unat (a div 1024)"
    and "unat (a div 1024) \<le> unat (b div 1024) + unat ((a - b) div 1024) + 1"
proof -
  have "unat (a - b) = unat a - unat b" and "unat b \<le> unat a"
    using assms by (simp_all add: unat_sub word_le_nat_alt)
  moreover have "unat (x div 1024) = unat x div 1024" for x :: uint64
    by (simp add: unat_div)
  ultimately show "unat (b div 1024) + unat ((a - b) div 1024) \<le> unat (a div 1024)"
    and "unat (a div 1024) \<le> unat (b div 1024) + unat ((a - b) div 1024) + 1"
    by simp_all
qed

lemma default_memory_adds_up:
  assumes "HeapIdle rt \<le> Sys rt"
  shows "let m = NewMemoryStats rt in unat (UsedKb m) + unat (FreeKb m) \<le> unat (TotalKb m)
    \<and> unat (TotalKb m) \<le> unat (UsedKb m) + unat (FreeKb m) + 1"
  using kilobytes_add_up [OF assms] by (simp add: NewMemoryStats_def add.commute)

text \<open>C38: What a pool reports of its manager's memory, as long as the bytes used are fewer than 2 to the 53rd:
  free and used memory add up to the total, up to the rounding of both, unless the manager
  uses more than the host has, when the free memory wraps around to nearly 2 to the 54th kilobytes.\<close>

theorem pool_memory_adds_up:
  assumes "stats (managerID p) = Inr (Inr s)" and "unat (Usage s) < 2 ^ 53"
  shows "let m = RMemoryStats (Pool_GetStats rt other (Inr info) stats p) in
    unat (TotalKb m) = unat (MemTotal info) div 1024 \<and> unat (UsedKb m) = unat (Usage s) div 1024
    \<and> (if Usage s \<le> MemTotal info
       then unat (UsedKb m) + unat (FreeKb m) \<le> unat (TotalKb m)
         \<and> unat (TotalKb m) \<le> unat (UsedKb m) + unat (FreeKb m) + 1
       else unat (FreeKb m) = (2 ^ 64 - (unat (Usage s) - unat (MemTotal info))) div 1024)"
proof -
  let ?m = "RMemoryStats (Pool_GetStats rt other (Inr info) stats p)"
  have m: "TotalKb ?m = MemTotal info div 1024" "UsedKb ?m = Usage s div 1024"
    "FreeKb ?m = (MemTotal info - Usage s) div 1024"
    by (simp_all add: Pool_GetStats_def assms(1) Let_def uint64_of_float_exact [OF assms(2)])
  have over: "unat (MemTotal info - Usage s) = 2 ^ 64 - (unat (Usage s) - unat (MemTotal info))"
    if "\<not> Usage s \<le> MemTotal info"
    using that by (simp add: unat_sub_if_size word_le_nat_alt word_size)
  show ?thesis
    using kilobytes_add_up [of "Usage s" "MemTotal info"] over
    by (simp add: Let_def m unat_div)
qed

lemma pool_memory_adds_up_witness:
  "\<forall>rt other p. unat (FreeKb (RMemoryStats (Pool_GetStats rt other (Inr \<lparr>NCPU = 4, MemTotal = 4096\<rparr>)
      (\<lambda>_. Inr (Inr \<lparr>TotalUsage = 10, Usage = 5120\<rparr>)) p))) = 2 ^ 54 - 1"
proof (intro allI)
  fix rt other p
  show "unat (FreeKb (RMemoryStats (Pool_GetStats rt other (Inr \<lparr>NCPU = 4, MemTotal = 4096\<rparr>)
      (\<lambda>_. Inr (Inr \<lparr>TotalUsage = 10, Usage = 5120\<rparr>)) p))) = 2 ^ 54 - 1"
    using pool_memory_adds_up [of "\<lambda>_. Inr (Inr \<lparr>TotalUsage = 10, Usage = 5120\<rparr>)" p _ rt other
        "\<lparr>NCPU = 4, MemTotal = 4096\<rparr>"]
    by (simp add: Let_def)
qed

end
