(* ===== verification/Node_Stats.thy ===== *)
theory Node_Stats
  imports Go_Text Go_Float
begin

text \<open>
  Statistics of a machine and the nodes the manager schedules on: \<open>internal/adapters/stats/stats.go\<close>
  and \<open>internal/adapters/node/node.go\<close>.

  The structs of the \<open>goprocinfo\<close> library are reduced to the fields the source reads, and the load
  averages to the three numbers they are. The HTTP client with its retries and the decoding of the
  answer are parameters. \<open>GetStats\<close> of a node returns a pointer to the node's own \<open>Stats\<close> field; such
  a pointer is the selector of that field, and is read by applying it to the node as it then is.
\<close>

section \<open>Statistics\<close>

record MemInfo =
  MemTotal :: uint64
  MemAvailable :: uint64

record Disk =
  DiskAll :: uint64
  DiskUsedField :: uint64
  DiskFreeField :: uint64

record CPUStat =
  User :: uint64
  Nice :: uint64
  System :: uint64
  Idle :: uint64
  IOWait :: uint64
  IRQ :: uint64
  SoftIRQ :: uint64
  Steal :: uint64

record LoadAvg =
  Last1Min :: float64
  Last5Min :: float64
  Last15Min :: float64

record Stats =
  MemStats :: "MemInfo option"
  DiskStats :: "Disk option"
  CpuStats :: "CPUStat option"
  LoadStats :: "LoadAvg option"
  StatsTaskCount :: int

definition zero_mem :: MemInfo where
  "zero_mem = \<lparr>MemTotal = 0, MemAvailable = 0\<rparr>"

definition zero_disk :: Disk where
  "zero_disk = \<lparr>DiskAll = 0, DiskUsedField = 0, DiskFreeField = 0\<rparr>"

definition zero_cpu :: CPUStat where
  "zero_cpu = \<lparr>User = 0, Nice = 0, System = 0, Idle = 0, IOWait = 0, IRQ = 0, SoftIRQ = 0, Steal = 0\<rparr>"

definition zero_load :: LoadAvg where
  "zero_load = \<lparr>Last1Min = Fin 0, Last5Min = Fin 0, Last15Min = Fin 0\<rparr>"

definition zero_Stats :: Stats where
  "zero_Stats =
     \<lparr>MemStats = None, DiskStats = None, CpuStats = None, LoadStats = None, StatsTaskCount = 0\<rparr>"

definition with_mem :: "Stats \<Rightarrow> (MemInfo \<Rightarrow> 'a go) \<Rightarrow> 'a go" where
  "with_mem s f = (case MemStats s of None \<Rightarrow> Panics NilDereference | Some m \<Rightarrow> f m)"

definition with_disk :: "Stats \<Rightarrow> (Disk \<Rightarrow> 'a go) \<Rightarrow> 'a go" where
  "with_disk s f = (case DiskStats s of None \<Rightarrow> Panics NilDereference | Some d \<Rightarrow> f d)"

definition MemUsedKb :: "Stats \<Rightarrow> uint64 go" where
  "MemUsedKb s = with_mem s (\<lambda>m. Returns (MemTotal m - MemAvailable m))"

definition MemUsedPercent :: "Stats \<Rightarrow> uint64 go" where
  "MemUsedPercent s =
     with_mem s (\<lambda>m. if MemTotal m = 0 then Panics DivideByZero
                     else Returns (MemAvailable m div MemTotal m))"

definition MemAvailableKb :: "Stats \<Rightarrow> uint64 go" where
  "MemAvailableKb s = with_mem s (\<lambda>m. Returns (MemAvailable m))"

definition MemTotalKb :: "Stats \<Rightarrow> uint64 go" where
  "MemTotalKb s = with_mem s (\<lambda>m. Returns (MemTotal m))"

definition DiskTotal :: "Stats \<Rightarrow> uint64 go" where
  "DiskTotal s = with_disk s (\<lambda>d. Returns (DiskAll d))"

definition DiskFree :: "Stats \<Rightarrow> uint64 go" where
  "DiskFree s = with_disk s (\<lambda>d. Returns (DiskFreeField d))"

definition DiskUsed :: "Stats \<Rightarrow> uint64 go" where
  "DiskUsed s = with_disk s (\<lambda>d. Returns (DiskUsedField d))"

text \<open>The share of processor time that was not idle since the start of the machine.\<close>

definition cpu_idle :: "CPUStat \<Rightarrow> uint64" where
  "cpu_idle c = Idle c + IOWait c"

definition cpu_busy :: "CPUStat \<Rightarrow> uint64" where
  "cpu_busy c = User c + Nice c + System c + IRQ c + SoftIRQ c + Steal c"

definition CpuUsage :: "Stats \<Rightarrow> float64 go" where
  "CpuUsage s =
     (case CpuStats s of
        None \<Rightarrow> Panics NilDereference
      | Some c \<Rightarrow>
          (let idle = cpu_idle c; total = idle + cpu_busy c
           in Returns
                (if total = 0 \<and> idle = 0 then Fin 0
                 else f_div (f_sub (float_of_uint64 total) (float_of_uint64 idle)) (float_of_uint64 total))))"

text \<open>Reading \<open>/proc\<close>: an error gives a struct of zeros, never an error.\<close>

definition GetMemoryInfo :: "MemInfo res \<Rightarrow> MemInfo" where
  "GetMemoryInfo r = (case r of Inl _ \<Rightarrow> zero_mem | Inr m \<Rightarrow> m)"

definition GetDiskInfo :: "Disk res \<Rightarrow> Disk" where
  "GetDiskInfo r = (case r of Inl _ \<Rightarrow> zero_disk | Inr d \<Rightarrow> d)"

definition GetCpuStats :: "CPUStat res \<Rightarrow> CPUStat" where
  "GetCpuStats r = (case r of Inl _ \<Rightarrow> zero_cpu | Inr c \<Rightarrow> c)"

definition GetLoadAvg :: "LoadAvg res \<Rightarrow> LoadAvg" where
  "GetLoadAvg r = (case r of Inl _ \<Rightarrow> zero_load | Inr l \<Rightarrow> l)"

definition GetStats :: "MemInfo res \<Rightarrow> Disk res \<Rightarrow> CPUStat res \<Rightarrow> LoadAvg res \<Rightarrow> Stats" where
  "GetStats m d c l =
     \<lparr>MemStats = Some (GetMemoryInfo m), DiskStats = Some (GetDiskInfo d),
      CpuStats = Some (GetCpuStats c), LoadStats = Some (GetLoadAvg l), StatsTaskCount = 0\<rparr>"

section \<open>Nodes\<close>

record Node =
  NodeName :: string
  NodeIp :: string
  NodeApi :: string
  NodeMemory :: int64
  MemoryAllocated :: int64
  NodeDisk :: int64
  DiskAllocated :: int64
  NodeStats :: Stats
  Role :: string
  NodeTaskCount :: int

definition NewNode :: "string \<Rightarrow> string \<Rightarrow> string \<Rightarrow> Node" where
  "NewNode name api role =
     \<lparr>NodeName = name, NodeIp = '''', NodeApi = api, NodeMemory = 0, MemoryAllocated = 0,
      NodeDisk = 0, DiskAllocated = 0, NodeStats = zero_Stats, Role = role, NodeTaskCount = 0\<rparr>"

text \<open>An answer over HTTP: its status and what its body decodes to.\<close>

record http_answer =
  StatusCode :: int
  Decoded :: "Stats res"

definition Node_GetStats ::
  "(string \<Rightarrow> http_answer res) \<Rightarrow> 'a Node_scheme \<Rightarrow> ('a Node_scheme \<Rightarrow> Stats) res \<times> 'a Node_scheme" where
  "Node_GetStats get n =
     (case get (NodeApi n @ ''/stats'') of
        Inl err \<Rightarrow>
          (Inl (GoError (''Unable to connect to '' @ NodeApi n @ ''. Permanent failure.'' @ [CHR 10])), n)
      | Inr resp \<Rightarrow>
          if StatusCode resp \<noteq> 200 then
            (Inl (GoError (''Error retrieving stats from '' @ NodeApi n @ '': <nil>'')), n)
          else
            (case Decoded resp of
               Inl err \<Rightarrow>
                 (Inl (GoError (''error decoding message while getting stats for node '' @ NodeName n)), n)
             | Inr st \<Rightarrow>
                 (case (MemStats st, DiskStats st) of
                    (Some m, Some d) \<Rightarrow>
                      (Inr NodeStats, n\<lparr>NodeMemory := MemTotal m, NodeDisk := DiskAll d, NodeStats := st\<rparr>)
                  | _ \<Rightarrow> (Inl (GoError (''error getting stats from node '' @ NodeName n)), n))))"

section \<open>Properties\<close>

lemma word_div_le:
  fixes a b :: uint64
  assumes "b \<noteq> 0" and "a \<le> b"
  shows "a div b = (if a = b then 1 else 0)"
proof (cases "a = b")
  case True
  with assms(1) show ?thesis
    by (simp add: word_arith_nat_div unat_eq_zero)
next
  case False
  with assms(2) have "a < b" by simp
  then have "unat a div unat b = 0"
    by (simp add: word_less_nat_alt)
  then have "a div b = 0"
    by (simp add: word_arith_nat_div)
  with False show ?thesis by simp
qed

text \<open>The used-memory percentage is not one: it panics when no memory total could be read,
  and otherwise, for an available amount within the total, it is 1 if all memory is available and
  0 in every other case, because it divides the available amount by the total as integers.\<close>

theorem mem_used_percent_is_a_flag:
  "MemUsedPercent (GetStats (Inl err) d c l) = Panics DivideByZero
   \<and> (MemTotal m \<noteq> 0 \<and> MemAvailable m \<le> MemTotal m \<longrightarrow>
        MemUsedPercent (GetStats (Inr m) d c l)
          = Returns (if MemAvailable m = MemTotal m then 1 else 0))"
  by (simp add: MemUsedPercent_def with_mem_def GetStats_def GetMemoryInfo_def zero_mem_def
      word_div_le)

lemma mem_used_percent_is_a_flag_witness:
  "MemUsedPercent (GetStats (Inr \<lparr>MemTotal = 16000, MemAvailable = 4000\<rparr>) (Inr zero_disk) (Inr zero_cpu) (Inr zero_load))
     = Returns 0"
  using mem_used_percent_is_a_flag [of "GoError ''''" "Inr zero_disk" "Inr zero_cpu" "Inr zero_load"
      "\<lparr>MemTotal = 16000, MemAvailable = 4000\<rparr>"]
  by simp

lemma uint_sum_list:
  fixes ws :: "uint64 list"
  shows "sum_list (map uint ws) < 2 ^ 64 \<Longrightarrow> uint (sum_list ws) = sum_list (map uint ws)"
proof (induction ws)
  case (Cons w ws)
  have "0 \<le> sum_list (map uint ws)" and w: "0 \<le> uint w"
    by (auto intro!: sum_list_nonneg)
  from Cons.prems have less: "uint w + sum_list (map uint ws) < 2 ^ 64"
    by simp
  with w have "sum_list (map uint ws) < 2 ^ 64"
    by linarith
  from Cons.IH [OF this] less
  have "uint w + uint (sum_list ws) < 2 ^ 64" and "uint (sum_list ws) = sum_list (map uint ws)"
    by simp_all
  then show ?case
    using uint_add_lem [of w "sum_list ws"] by simp
qed simp

lemma counters: "0 \<le> uint (User c) \<and> 0 \<le> uint (Nice c) \<and> 0 \<le> uint (System c) \<and> 0 \<le> uint (Idle c)
  \<and> 0 \<le> uint (IOWait c) \<and> 0 \<le> uint (IRQ c) \<and> 0 \<le> uint (SoftIRQ c) \<and> 0 \<le> uint (Steal c)"
  by simp

text \<open>The proportion the source computes from two counters.\<close>

lemma proportion_of_words:
  fixes i t :: uint64
  assumes "uint i \<le> uint t" and "t \<noteq> 0"
  shows "\<exists>u. f_div (f_sub (float_of_uint64 t) (float_of_uint64 i)) (float_of_uint64 t) = Fin u
     \<and> 0 \<le> u \<and> u \<le> 1 \<and> (t = i \<longrightarrow> u = 0)"
proof -
  define I T :: rat where "I = of_int (uint i)" and "T = of_int (uint t)"
  have conv: "float_of_uint64 w = rnd (of_int (uint w))" for w
    by (simp add: float_of_uint64_def)
  have IT: "0 \<le> I" "I \<le> T" "T \<le> 2 ^ 64" "1 \<le> T"
  proof -
    have "uint t < 2 ^ 64"
      using uint_lt2p [of t] by simp
    then have "(of_int (uint t) :: rat) \<le> of_int (2 ^ 64)"
      by (simp only: of_int_le_iff less_imp_le)
    then show "T \<le> 2 ^ 64" by (simp add: T_def)
    have "uint t \<noteq> 0"
      using assms(2) by (simp add: uint_0_iff)
    then have "1 \<le> uint t"
      using uint_ge_0 [of t] by linarith
    then have "(of_int 1 :: rat) \<le> of_int (uint t)"
      by (simp only: of_int_le_iff)
    then show "1 \<le> T" by (simp add: T_def)
    show "0 \<le> I" and "I \<le> T"
      by (simp_all only: I_def T_def of_int_0_le_iff uint_ge_0 of_int_le_iff assms(1))
  qed
  let ?A = "round_pos T" and ?B = "round_pos I"
  have A: "float_of_uint64 t = Fin ?A" and B: "float_of_uint64 i = Fin ?B"
    using IT by (simp_all only: conv I_def [symmetric] T_def [symmetric])
      (simp_all add: rnd_finite)
  have A1: "1 \<le> ?A" and Alarge: "?A \<le> 2 ^ 64"
    using IT round_pos_mono [of T "2 ^ 64"] round_pos_power [of 64]
    by (simp_all add: round_pos_positive power_int_def)
  have BA: "0 \<le> ?B" "?B \<le> ?A"
    using IT by (simp_all add: round_pos_mono round_pos_nonneg)
  have D: "rnd (?A - ?B) = Fin (round_pos (?A - ?B))"
    using BA Alarge by (intro rnd_finite) auto
  have "f_div (f_sub (float_of_uint64 t) (float_of_uint64 i)) (float_of_uint64 t)
      = rnd (round_pos (?A - ?B) / ?A)"
    using A1 by (simp add: A B f_sub_def D)
  also have "\<dots> = Fin (round_pos (round_pos (?A - ?B) / ?A))"
  proof (rule rnd_finite)
    show "0 \<le> round_pos (?A - ?B) / ?A"
      using binary64.difference_bounds [OF IT(1,2)] A1 by simp
    have "round_pos (?A - ?B) / ?A \<le> 1"
      using binary64.difference_bounds [OF IT(1,2)] A1 by simp
    then show "round_pos (?A - ?B) / ?A \<le> 2 ^ 64"
      by (rule order_trans) simp
  qed
  finally have "f_div (f_sub (float_of_uint64 t) (float_of_uint64 i)) (float_of_uint64 t)
      = Fin (round_pos (round_pos (?A - ?B) / ?A))" .
  moreover have "0 \<le> round_pos (round_pos (?A - ?B) / ?A) \<and> round_pos (round_pos (?A - ?B) / ?A) \<le> 1"
    using IT A1 by (intro binary64.proportion_bounds) auto
  moreover have "round_pos (round_pos (?A - ?B) / ?A) = 0" if "t = i"
    using that by (simp add: I_def T_def)
  ultimately show ?thesis by blast
qed

text \<open>C37: The processor usage is a proportion: no rounding takes it out of the unit interval, as long as the eight counters together do not exceed what 64 bits hold.\<close>

theorem cpu_usage_is_a_proportion:
  assumes "CpuStats s = Some c"
    and "uint (User c) + uint (Nice c) + uint (System c) + uint (Idle c) + uint (IOWait c) + uint (IRQ c)
           + uint (SoftIRQ c) + uint (Steal c) < 2 ^ 64"
  shows "\<exists>u. CpuUsage s = Returns (Fin u) \<and> 0 \<le> u \<and> u \<le> 1 \<and> (cpu_busy c = 0 \<longrightarrow> u = 0)"
proof -
  have parts: "cpu_idle c = sum_list [Idle c, IOWait c]"
    "cpu_idle c + cpu_busy c = sum_list [Idle c, IOWait c, User c, Nice c, System c, IRQ c, SoftIRQ c, Steal c]"
    by (simp_all add: cpu_idle_def cpu_busy_def add.assoc)
  have i: "uint (cpu_idle c) = uint (Idle c) + uint (IOWait c)"
  proof -
    have "uint (Idle c) + uint (IOWait c) < 2 ^ 64"
      using counters [of c] assms(2) by linarith
    then show ?thesis
      using uint_sum_list [of "[Idle c, IOWait c]"] by (simp add: parts(1))
  qed
  have t: "uint (cpu_idle c + cpu_busy c) = uint (Idle c) + uint (IOWait c) + uint (User c) + uint (Nice c)
      + uint (System c) + uint (IRQ c) + uint (SoftIRQ c) + uint (Steal c)"
    using uint_sum_list [of "[Idle c, IOWait c, User c, Nice c, System c, IRQ c, SoftIRQ c, Steal c]"]
      assms(2) by (simp add: parts(2))
  have le: "uint (cpu_idle c) \<le> uint (cpu_idle c + cpu_busy c)"
    using counters [of c] i t by linarith
  show ?thesis
  proof (cases "cpu_idle c + cpu_busy c = 0")
    case True
    with le have "cpu_idle c = 0"
      by (simp add: uint_0_iff)
    with True show ?thesis
      using assms(1) by (simp add: CpuUsage_def Let_def)
  next
    case False
    then have "CpuUsage s = Returns (f_div (f_sub (float_of_uint64 (cpu_idle c + cpu_busy c))
        (float_of_uint64 (cpu_idle c))) (float_of_uint64 (cpu_idle c + cpu_busy c)))"
      using assms(1) by (simp add: CpuUsage_def Let_def)
    moreover have "cpu_idle c + cpu_busy c = cpu_idle c" if "cpu_busy c = 0"
      using that by simp
    ultimately show ?thesis
      using proportion_of_words [OF le False] by auto
  qed
qed

lemma cpu_usage_is_a_proportion_witness:
  "\<exists>u. CpuUsage (GetStats (Inr zero_mem) (Inr zero_disk) (Inr (zero_cpu\<lparr>Idle := 900, User := 100\<rparr>)) (Inr zero_load))
      = Returns (Fin u) \<and> 0 \<le> u \<and> u \<le> 1"
  using cpu_usage_is_a_proportion [of
      "GetStats (Inr zero_mem) (Inr zero_disk) (Inr (zero_cpu\<lparr>Idle := 900, User := 100\<rparr>)) (Inr zero_load)"
      "zero_cpu\<lparr>Idle := 900, User := 100\<rparr>"]
  by (auto simp: GetStats_def GetCpuStats_def zero_cpu_def)

end
