(* ===== verification/Scheduler.thy ===== *)
theory Scheduler
  imports Node_Stats "HOL-Library.Signed_Division"
begin

text \<open>
  The three schedulers of \<open>internal/adapters/scheduler/scheduler.go\<close>: which nodes are candidates, the
  score each scheduler gives them and the choice of a node by its score.

  \<open>math.Pow\<close> is a parameter of the scores; what is used of it is a hypothesis where it is. The
  scheduler takes its task type from a package outside the repository; the disk and memory a task asks
  for are arguments. A node may have further fields (\<open>'a Node_scheme\<close>): the manager keeps the address of
  a node with it.
\<close>

section \<open>Numbers\<close>

definition tenth :: float64 where
  "tenth = Fin (3602879701896397 / 36028797018963968)"

type_synonym scores = "float64 gomap"

text \<open>Indexing a map with a missing key gives zero.\<close>

definition score_of :: "scores \<Rightarrow> 'a Node_scheme \<Rightarrow> float64" where
  "score_of scores n = (case map_of scores (NodeName n) of None \<Rightarrow> Fin 0 | Some s \<Rightarrow> s)"

section \<open>Candidates\<close>

definition checkDisk :: "int64 \<Rightarrow> int64 \<Rightarrow> bool" where
  "checkDisk task_disk diskAvailable \<longleftrightarrow> task_disk \<le>s diskAvailable"

definition selectCandidateNodes :: "int64 \<Rightarrow> 'a Node_scheme list \<Rightarrow> 'a Node_scheme list" where
  "selectCandidateNodes task_disk nodes =
     filter (\<lambda>n. checkDisk task_disk (NodeDisk n - DiskAllocated n)) nodes"

section \<open>Choosing by score\<close>

text \<open>The loops of the three \<open>Pick\<close> methods: the first candidate, then each that is strictly better.\<close>

fun pick_from :: "scores \<Rightarrow> 'a Node_scheme \<Rightarrow> float64 \<Rightarrow> 'a Node_scheme list \<Rightarrow> 'a Node_scheme" where
  "pick_from scores best lowest [] = best"
| "pick_from scores best lowest (n # nodes) =
     (if f_less (score_of scores n) lowest then pick_from scores n (score_of scores n) nodes
      else pick_from scores best lowest nodes)"

definition RoundRobin_Pick :: "scores \<Rightarrow> 'a Node_scheme list \<Rightarrow> 'a Node_scheme option" where
  "RoundRobin_Pick scores candidates =
     (case candidates of
        [] \<Rightarrow> None
      | n # nodes \<Rightarrow> Some (pick_from scores n (score_of scores n) nodes))"

definition Greedy_Pick :: "scores \<Rightarrow> 'a Node_scheme list \<Rightarrow> 'a Node_scheme option" where
  "Greedy_Pick candidates nodes =
     (case nodes of
        [] \<Rightarrow> None
      | n # ns \<Rightarrow> Some (pick_from candidates n (score_of candidates n) ns))"

definition Epvm_Pick :: "scores \<Rightarrow> 'a Node_scheme list \<Rightarrow> 'a Node_scheme option" where
  "Epvm_Pick scores candidates =
     (case candidates of
        [] \<Rightarrow> None
      | n # nodes \<Rightarrow> Some (pick_from scores n (score_of scores n) nodes))"

section \<open>Round robin\<close>

record RoundRobin =
  RRName :: string
  LastWorker :: nat

definition RoundRobin_SelectCandidateNodes :: "'a Node_scheme list \<Rightarrow> 'a Node_scheme list" where
  "RoundRobin_SelectCandidateNodes nodes = nodes"

fun rr_scores :: "nat \<Rightarrow> nat \<Rightarrow> 'a Node_scheme list \<Rightarrow> scores \<Rightarrow> scores" where
  "rr_scores newWorker idx [] m = m"
| "rr_scores newWorker idx (n # nodes) m =
     rr_scores newWorker (Suc idx) nodes
       (AList.update (NodeName n) (if idx = newWorker then tenth else Fin 1) m)"

definition RoundRobin_Score :: "'a Node_scheme list \<Rightarrow> RoundRobin \<Rightarrow> scores \<times> RoundRobin" where
  "RoundRobin_Score nodes r =
     (if LastWorker r + 1 < length nodes
      then (rr_scores (LastWorker r + 1) 0 nodes [], r\<lparr>LastWorker := LastWorker r + 1\<rparr>)
      else (rr_scores 0 0 nodes [], r\<lparr>LastWorker := 0\<rparr>))"

definition Greedy_SelectCandidateNodes :: "int64 \<Rightarrow> 'a Node_scheme list \<Rightarrow> 'a Node_scheme list" where
  "Greedy_SelectCandidateNodes = selectCandidateNodes"

definition Epvm_SelectCandidateNodes :: "int64 \<Rightarrow> 'a Node_scheme list \<Rightarrow> 'a Node_scheme list" where
  "Epvm_SelectCandidateNodes = selectCandidateNodes"

section \<open>Scores from statistics\<close>

text \<open>
  The processor usage of a node between two readings of its statistics. The two readings are pointers
  (see \<open>Node_GetStats\<close>) and both are read after the second call. \<open>get1\<close> and \<open>get2\<close> are what the
  node answers then.
\<close>

definition read_cpu :: "Stats \<Rightarrow> CPUStat go" where
  "read_cpu s = (case CpuStats s of None \<Rightarrow> Panics NilDereference | Some c \<Rightarrow> Returns c)"

text \<open>\<open>math.Pow(2, 0.8)\<close>, which both schedulers divide the usage by.\<close>

definition cpu_capacity :: "(float64 \<Rightarrow> float64 \<Rightarrow> float64) \<Rightarrow> float64" where
  "cpu_capacity pow = pow (Fin 2) (rnd (8 / 10))"

definition calculateLoad :: "float64 \<Rightarrow> float64 \<Rightarrow> float64" where
  "calculateLoad usage capacity = f_div usage capacity"

definition calculateCpuUsage ::
  "(string \<Rightarrow> http_answer res) \<Rightarrow> (string \<Rightarrow> http_answer res) \<Rightarrow> 'a Node_scheme \<Rightarrow>
   (float64 res \<times> 'a Node_scheme) go" where
  "calculateCpuUsage get1 get2 n =
     (case Node_GetStats get1 n of
        (Inl err, n) \<Rightarrow> Returns (Inl err, n)
      | (Inr stat1, n) \<Rightarrow>
          (case Node_GetStats get2 n of
             (Inl err, n) \<Rightarrow> Returns (Inl err, n)
           | (Inr stat2, n) \<Rightarrow>
               go_bind (read_cpu (stat1 n)) (\<lambda>cpu1.
               go_bind (read_cpu (stat2 n)) (\<lambda>cpu2.
                 let stat1Idle = cpu_idle cpu1;
                     stat2Idle = cpu_idle cpu2;
                     stat1Total = stat1Idle + cpu_busy cpu1;
                     stat2Total = stat2Idle + cpu_busy cpu2;
                     total = stat2Total - stat1Total;
                     idle = stat2Idle - stat1Idle
                 in Returns
                      (Inr (if total = 0 \<and> idle = 0 then Fin 0
                            else f_div (f_sub (float_of_uint64 total) (float_of_uint64 idle))
                                   (float_of_uint64 total)), n)))))"

text \<open>The loops over the nodes; a node whose statistics cannot be read is skipped. \<open>get\<close> answers the
  first and the second reading of the node at an index.\<close>

fun greedy_scores ::
  "(float64 \<Rightarrow> float64 \<Rightarrow> float64) \<Rightarrow> (nat \<Rightarrow> bool \<Rightarrow> string \<Rightarrow> http_answer res) \<Rightarrow> nat \<Rightarrow>
   'a Node_scheme list \<Rightarrow> scores \<Rightarrow> (scores \<times> 'a Node_scheme list) go" where
  "greedy_scores pow get idx [] m = Returns (m, [])"
| "greedy_scores pow get idx (n # nodes) m =
     go_bind (calculateCpuUsage (get idx False) (get idx True) n) (\<lambda>(r, n).
     go_bind (greedy_scores pow get (Suc idx) nodes
       (case r of
          Inl err \<Rightarrow> m
        | Inr cpuUsage \<Rightarrow>
            AList.update (NodeName n) (calculateLoad cpuUsage (cpu_capacity pow)) m))
       (\<lambda>(m, nodes). Returns (m, n # nodes)))"

definition Greedy_Score ::
  "(float64 \<Rightarrow> float64 \<Rightarrow> float64) \<Rightarrow> (nat \<Rightarrow> bool \<Rightarrow> string \<Rightarrow> http_answer res) \<Rightarrow>
   'a Node_scheme list \<Rightarrow> (scores \<times> 'a Node_scheme list) go" where
  "Greedy_Score pow get nodes = greedy_scores pow get 0 nodes []"

definition LIEB :: float64 where
  "LIEB = rnd (153960071783900203869 / 10 ^ 20)"

definition maxJobs :: float64 where
  "maxJobs = Fin 4"

text \<open>The cost of one more task on a node, from its processor load and its memory in use.\<close>

definition epvm_cost ::
  "(float64 \<Rightarrow> float64 \<Rightarrow> float64) \<Rightarrow> int64 \<Rightarrow> 'a Node_scheme \<Rightarrow> float64 \<Rightarrow> uint64 \<Rightarrow> float64" where
  "epvm_cost pow task_memory n cpuLoad memUsed =
     (let memory = float_of_int64 (NodeMemory n);
          memoryAllocated = f_add (float_of_uint64 memUsed) (float_of_int64 (MemoryAllocated n));
          memoryPercentAllocated = f_div memoryAllocated memory;
          newMemPercent = calculateLoad
            (f_add memoryAllocated (float_of_int64 (word_of_int (sint task_memory sdiv 1000)))) memory;
          jobs = pow LIEB (f_div (rnd (of_int (NodeTaskCount n))) maxJobs);
          one_more = pow LIEB (f_div (rnd (of_int (NodeTaskCount n + 1))) maxJobs);
          memCost = f_sub (f_sub (f_add (pow LIEB newMemPercent) one_more)
                      (pow LIEB memoryPercentAllocated)) jobs;
          cpuCost = f_sub (f_sub (f_add (pow LIEB cpuLoad) one_more) (pow LIEB cpuLoad)) jobs
      in f_add memCost cpuCost)"

fun epvm_scores ::
  "(float64 \<Rightarrow> float64 \<Rightarrow> float64) \<Rightarrow> (nat \<Rightarrow> bool \<Rightarrow> string \<Rightarrow> http_answer res) \<Rightarrow> int64 \<Rightarrow> nat \<Rightarrow>
   'a Node_scheme list \<Rightarrow> scores \<Rightarrow> (scores \<times> 'a Node_scheme list) go" where
  "epvm_scores pow get task_memory idx [] m = Returns (m, [])"
| "epvm_scores pow get task_memory idx (n # nodes) m =
     go_bind (calculateCpuUsage (get idx False) (get idx True) n) (\<lambda>(r, n).
     go_bind (case r of
          Inl err \<Rightarrow> Returns m
        | Inr cpuUsage \<Rightarrow>
            go_bind (MemUsedKb (NodeStats n)) (\<lambda>used.
              Returns (AList.update (NodeName n)
                (epvm_cost pow task_memory n (calculateLoad cpuUsage (cpu_capacity pow)) used) m)))
       (\<lambda>m. go_bind (epvm_scores pow get task_memory (Suc idx) nodes m)
         (\<lambda>(m, nodes). Returns (m, n # nodes))))"

definition Epvm_Score ::
  "(float64 \<Rightarrow> float64 \<Rightarrow> float64) \<Rightarrow> (nat \<Rightarrow> bool \<Rightarrow> string \<Rightarrow> http_answer res) \<Rightarrow> int64 \<Rightarrow>
   'a Node_scheme list \<Rightarrow> (scores \<times> 'a Node_scheme list) go" where
  "Epvm_Score pow get task_memory nodes = epvm_scores pow get task_memory 0 nodes []"

text \<open>One selection, as \<open>SelectWorker\<close> of the manager makes it.\<close>

definition rr_select :: "'a Node_scheme list \<Rightarrow> RoundRobin \<Rightarrow> 'a Node_scheme option \<times> RoundRobin" where
  "rr_select nodes r =
     (let candidates = RoundRobin_SelectCandidateNodes nodes;
          (scores, r) = RoundRobin_Score candidates r
      in (RoundRobin_Pick scores candidates, r))"

section \<open>The processor usage is never seen\<close>

lemma Node_GetStats_pointer: "Node_GetStats get n = (Inr p, n') \<Longrightarrow> p = NodeStats"
  by (auto simp: Node_GetStats_def split: sum.splits if_splits option.splits)

lemma calculateCpuUsage_zero:
  assumes "calculateCpuUsage get1 get2 n = Returns (r, n')"
  shows "(\<exists>err. r = Inl err) \<or> r = Inr (Fin 0)"
proof (cases "Node_GetStats get1 n")
  case (Pair r1 n1)
  show ?thesis
  proof (cases r1)
    case (Inl err)
    with assms Pair show ?thesis by (auto simp: calculateCpuUsage_def)
  next
    case r1: (Inr p1)
    obtain r2 n2 where two: "Node_GetStats get2 n1 = (r2, n2)" by fastforce
    show ?thesis
    proof (cases r2)
      case (Inl err)
      with assms Pair r1 two show ?thesis by (auto simp: calculateCpuUsage_def)
    next
      case (Inr p2)
      have "p1 = p2"
        using Node_GetStats_pointer Pair two r1 Inr by metis
      with assms Pair r1 two Inr show ?thesis
        by (cases "read_cpu (p2 n2)") (auto simp: calculateCpuUsage_def Let_def)
    qed
  qed
qed

lemma calculateCpuUsage_name:
  "calculateCpuUsage get1 get2 n = Returns (r, n') \<Longrightarrow> NodeName n' = NodeName n"
  by (auto simp: calculateCpuUsage_def Node_GetStats_def go_bind_Returns_iff Let_def
      split: sum.splits if_splits option.splits)

definition all_zero :: "scores \<Rightarrow> bool" where
  "all_zero m \<longleftrightarrow> (\<forall>k s. map_of m k = Some s \<longrightarrow> s = Fin 0)"

lemma greedy_scores_zero:
  assumes "cpu_capacity pow = Fin c" and "c \<noteq> 0"
  shows "greedy_scores pow get idx nodes m = Returns (m', nodes') \<Longrightarrow> all_zero m \<Longrightarrow>
    all_zero m' \<and> map NodeName nodes' = map NodeName nodes"
proof (induction nodes arbitrary: idx m m' nodes')
  case Nil
  then show ?case by simp
next
  case (Cons n nodes)
  from Cons.prems(1) obtain r n1 where use: "calculateCpuUsage (get idx False) (get idx True) n = Returns (r, n1)"
    by (auto simp: go_bind_Returns_iff)
  let ?m = "case r of Inl err \<Rightarrow> m
    | Inr u \<Rightarrow> AList.update (NodeName n1) (calculateLoad u (cpu_capacity pow)) m"
  obtain nodes1 where rest: "greedy_scores pow get (Suc idx) nodes ?m = Returns (m', nodes1)"
    and nodes': "nodes' = n1 # nodes1"
    using Cons.prems(1) use by (auto simp: go_bind_Returns_iff)
  have "all_zero ?m"
    using calculateCpuUsage_zero [OF use] Cons.prems(2) assms
    by (auto simp: all_zero_def calculateLoad_def split: if_splits)
  from Cons.IH [OF rest this] show ?case
    using calculateCpuUsage_name [OF use] nodes' by simp
qed

lemma pick_from_zero: "all_zero scores \<Longrightarrow> pick_from scores best (Fin 0) nodes = best"
proof (induction nodes)
  case (Cons n nodes)
  then have "score_of scores n = Fin 0"
    by (auto simp: score_of_def all_zero_def split: option.split)
  with Cons show ?case by simp
qed simp

text \<open>C24: Greedy scheduling does not look at the load: both readings of a node's statistics are the
  same struct by the time they are compared, so the usage is always zero, every score is zero
  (as is the score of a node that cannot be reached) and the first candidate is chosen, whatever the
  nodes answer.\<close>

theorem greedy_picks_first_candidate:
  fixes n :: "'a Node_scheme"
  assumes "cpu_capacity pow = Fin c" and "c \<noteq> 0"
    and "Greedy_Score pow get (n # nodes) = Returns (scores, n' # nodes')"
  shows "NodeName n' = NodeName n \<and> Greedy_Pick scores (n' # nodes') = Some n'
    \<and> (\<forall>p. score_of scores (p :: 'a Node_scheme) = Fin 0)"
proof -
  have "all_zero scores \<and> map NodeName (n' # nodes') = map NodeName (n # nodes)"
    using greedy_scores_zero [OF assms(1,2), of get 0 "n # nodes" "[]"] assms(3)
    by (simp add: Greedy_Score_def all_zero_def)
  then have zero: "all_zero scores" and names: "NodeName n' = NodeName n"
    by simp_all
  have "score_of scores p = Fin 0" for p :: "'a Node_scheme"
    using zero by (auto simp: score_of_def all_zero_def split: option.split)
  with zero names show ?thesis
    by (simp add: Greedy_Pick_def pick_from_zero)
qed

text \<open>A machine that is busy all the time, then an idle one.\<close>

definition busy_answers :: "nat \<Rightarrow> bool \<Rightarrow> string \<Rightarrow> http_answer res" where
  "busy_answers i second url =
     Inr \<lparr>StatusCode = 200,
          Decoded = Inr (GetStats (Inr zero_mem) (Inr zero_disk)
            (Inr (zero_cpu\<lparr>User := if i = 0 \<and> second then 300 else 0, Idle := if i = 1 \<and> second then 300 else 0\<rparr>))
            (Inr zero_load))\<rparr>"

lemma greedy_picks_first_candidate_witness:
  "\<exists>scores n' nodes'.
     Greedy_Score (\<lambda>_ _. Fin 1.75) busy_answers [NewNode ''busy'' '''' '''', NewNode ''idle'' '''' '''']
       = Returns (scores, n' # nodes')
     \<and> NodeName n' = ''busy'' \<and> Greedy_Pick scores (n' # nodes') = Some n'"
proof -
  have "\<exists>scores n' nodes'.
     Greedy_Score (\<lambda>_ _. Fin 1.75) busy_answers [NewNode ''busy'' '''' '''', NewNode ''idle'' '''' '''']
       = Returns (scores, n' # nodes')"
    by (simp add: Greedy_Score_def calculateCpuUsage_def Node_GetStats_def busy_answers_def read_cpu_def
        GetStats_def GetMemoryInfo_def GetDiskInfo_def GetCpuStats_def Let_def)
  then obtain scores n' nodes' where run:
    "Greedy_Score (\<lambda>_ _. Fin 1.75) busy_answers [NewNode ''busy'' '''' '''', NewNode ''idle'' '''' '''']
       = Returns (scores, n' # nodes')"
    by blast
  have "NodeName n' = NodeName (NewNode ''busy'' '''' '''')
      \<and> Greedy_Pick scores (n' # nodes') = Some n' \<and> (\<forall>p :: Node. score_of scores p = Fin 0)"
    by (rule greedy_picks_first_candidate [OF _ _ run, of "1.75"])
      (simp_all add: cpu_capacity_def)
  with run show ?thesis
    by (auto simp: NewNode_def)
qed

section \<open>What is picked\<close>

definition comparable :: "float64 \<Rightarrow> bool" where
  "comparable x \<longleftrightarrow> x \<noteq> NaN"

lemma f_less_irrefl [simp]: "\<not> f_less x x"
  by (cases x) auto

lemma f_less_trans: "f_less x y \<Longrightarrow> f_less y z \<Longrightarrow> f_less x z"
  by (cases x; cases y; cases z) auto

lemma f_not_less_trans:
  "comparable x \<Longrightarrow> comparable y \<Longrightarrow> comparable z \<Longrightarrow> \<not> f_less y x \<Longrightarrow> \<not> f_less z y \<Longrightarrow> \<not> f_less z x"
  by (cases x; cases y; cases z) (auto simp: comparable_def)

lemma f_less_not_less: "f_less x y \<Longrightarrow> \<not> f_less y x"
  by (cases x; cases y) auto

lemma pick_from_minimal:
  assumes "lowest = score_of sc best" and "\<forall>n\<in>set (best # nodes). comparable (score_of sc n)"
  shows "pick_from sc best lowest nodes \<in> set (best # nodes)
    \<and> (\<forall>n\<in>set (best # nodes). \<not> f_less (score_of sc n) (score_of sc (pick_from sc best lowest nodes)))"
  using assms
proof (induction nodes arbitrary: best lowest)
  case Nil
  then show ?case by simp
next
  case (Cons n nodes)
  let ?p = "pick_from sc best lowest (n # nodes)"
  let ?b = "if f_less (score_of sc n) lowest then n else best"
  have p: "?p = pick_from sc ?b (score_of sc ?b) nodes"
    using Cons.prems(1) by simp
  have ih: "?p \<in> set (?b # nodes)" "\<forall>n\<in>set (?b # nodes). \<not> f_less (score_of sc n) (score_of sc ?p)"
    using Cons.IH [of "score_of sc ?b" ?b] Cons.prems(2) unfolding p by (auto split: if_splits)
  have mem: "?p \<in> set (best # n # nodes)"
    using ih(1) by (auto split: if_splits)
  have comp: "comparable (score_of sc ?p)" "comparable (score_of sc best)" "comparable (score_of sc n)"
    using Cons.prems(2) mem by auto
  have "\<not> f_less (score_of sc best) (score_of sc ?p)" and "\<not> f_less (score_of sc n) (score_of sc ?p)"
    using ih(2) comp Cons.prems(1) f_not_less_trans f_less_not_less
    by (smt (verit) list.set_intros(1))+
  with ih mem show ?case
    by auto
qed

text \<open>Every Pick returns one of the candidates, of a least score, when no score is NaN, and
  none only if there is none. A node the scoring skipped, because it could not be reached, reads
  as zero: it beats every node that was reached and scored above zero.\<close>

theorem pick_prefers_unreachable_nodes:
  assumes "\<forall>n\<in>set nodes. comparable (score_of scores n)" and "nodes \<noteq> []"
  shows "\<exists>p. Greedy_Pick scores nodes = Some p \<and> Epvm_Pick scores nodes = Some p
     \<and> RoundRobin_Pick scores nodes = Some p \<and> p \<in> set nodes
     \<and> (\<forall>n\<in>set nodes. \<not> f_less (score_of scores n) (score_of scores p))
     \<and> ((\<exists>n\<in>set nodes. map_of scores (NodeName n) = None)
         \<and> (\<forall>n\<in>set nodes. \<forall>s. map_of scores (NodeName n) = Some s \<longrightarrow> f_less (Fin 0) s)
         \<longrightarrow> map_of scores (NodeName p) = None)"
proof -
  obtain n ns where nodes: "nodes = n # ns"
    using assms(2) by (cases nodes) auto
  let ?p = "pick_from scores n (score_of scores n) ns"
  have p: "?p \<in> set nodes" "\<forall>m\<in>set nodes. \<not> f_less (score_of scores m) (score_of scores ?p)"
    using pick_from_minimal [of "score_of scores n" scores n ns] assms(1) unfolding nodes by blast+
  have "map_of scores (NodeName ?p) = None"
    if "m \<in> set nodes" "map_of scores (NodeName m) = None"
      and above: "\<forall>n\<in>set nodes. \<forall>s. map_of scores (NodeName n) = Some s \<longrightarrow> f_less (Fin 0) s" for m
  proof (rule ccontr)
    assume "map_of scores (NodeName ?p) \<noteq> None"
    then obtain s where s: "map_of scores (NodeName ?p) = Some s" by blast
    then have "f_less (Fin 0) s"
      using above p(1) by blast
    moreover have "score_of scores m = Fin 0" and "score_of scores ?p = s"
      using that(2) s by (simp_all add: score_of_def)
    ultimately show False
      using p(2) that(1) by metis
  qed
  then show ?thesis
    using p by (intro exI [of _ ?p])
      (auto simp: nodes Greedy_Pick_def Epvm_Pick_def RoundRobin_Pick_def)
qed

lemma pick_prefers_unreachable_nodes_witness:
  "\<exists>p. Greedy_Pick [(''idle'', tenth)] [NewNode ''idle'' '''' ''worker'', NewNode ''dead'' '''' ''worker''] = Some p
     \<and> NodeName p = ''dead''"
proof -
  let ?nodes = "[NewNode ''idle'' '''' ''worker'', NewNode ''dead'' '''' ''worker'']"
  have "\<forall>n\<in>set ?nodes. comparable (score_of [(''idle'', tenth)] n)"
    by (simp add: comparable_def score_of_def NewNode_def tenth_def)
  then show ?thesis
    using pick_prefers_unreachable_nodes [of ?nodes "[(''idle'', tenth)]"]
    by (auto simp: NewNode_def tenth_def split: if_splits)
qed

text \<open>The reference for the three loops: the first candidate that no candidate is better than.\<close>

definition first_least :: "scores \<Rightarrow> 'a Node_scheme list \<Rightarrow> 'a Node_scheme option" where
  "first_least scores nodes =
     List.find (\<lambda>n. \<forall>m\<in>set nodes. \<not> f_less (score_of scores m) (score_of scores n)) nodes"

lemma pick_from_first_least:
  assumes "\<forall>n\<in>set (best # nodes). comparable (score_of sc n)"
  shows "first_least sc (best # nodes) = Some (pick_from sc best (score_of sc best) nodes)"
  using assms
proof (induction nodes arbitrary: best)
  case Nil
  then show ?case by (simp add: first_least_def)
next
  case (Cons n nodes)
  let ?s = "score_of sc"
  let ?P = "\<lambda>x. \<forall>m\<in>set (best # n # nodes). \<not> f_less (?s m) (?s x)"
  have comp: "comparable (?s x)" if "x \<in> set (best # n # nodes)" for x
    using Cons.prems that by blast
  show ?case
  proof (cases "f_less (?s n) (?s best)")
    case True
    let ?Q = "\<lambda>x. \<forall>m\<in>set (n # nodes). \<not> f_less (?s m) (?s x)"
    have "?P = ?Q"
    proof
      show "?P x = ?Q x" for x
        using True f_less_trans [of "?s n" "?s best" "?s x"] by auto
    qed
    then have "List.find ?P (n # nodes) = List.find ?Q (n # nodes)"
      by (rule arg_cong)
    moreover have "List.find ?P (best # n # nodes) = List.find ?P (n # nodes)"
      using True by (subst List.find.simps(2)) auto
    ultimately have "List.find ?P (best # n # nodes) = List.find ?Q (n # nodes)"
      by (rule trans [rotated])
    also have "\<dots> = Some (pick_from sc n (?s n) nodes)"
      using Cons.IH [of n] Cons.prems by (simp add: first_least_def)
    finally show ?thesis
      using True by (simp add: first_least_def)
  next
    case False
    let ?Q = "\<lambda>x. \<forall>m\<in>set (best # nodes). \<not> f_less (?s m) (?s x)"
    have PQ: "?P x = ?Q x" if "x \<in> set (best # nodes)" for x
      using f_not_less_trans [of "?s x" "?s best" "?s n"] False comp that by auto
    have "\<not> ?P n" if beaten: "\<not> ?P best"
    proof -
      obtain m where "m \<in> set (best # n # nodes)" and "f_less (?s m) (?s best)"
        using beaten by blast
      then show ?thesis
        using f_not_less_trans [of "?s best" "?s n" "?s m"] False comp by auto
    qed
    then have "List.find ?P (best # n # nodes) = List.find ?P (best # nodes)"
      unfolding List.find.simps by presburger
    also have "\<dots> = List.find ?Q (best # nodes)"
      using PQ by (intro find_cong refl) simp
    also have "\<dots> = Some (pick_from sc best (?s best) nodes)"
      using Cons.IH [of best] Cons.prems by (simp add: first_least_def)
    finally show ?thesis
      using False by (simp add: first_least_def)
  qed
qed

text \<open>C22: The Pick methods of the three schedulers are the same function, the search for the first
  candidate of a least score, when no score is NaN; none is picked only if there is none.\<close>

theorem picks_are_first_least:
  assumes "\<forall>n\<in>set nodes. comparable (score_of scores n)"
  shows "Greedy_Pick scores nodes = first_least scores nodes
    \<and> Epvm_Pick scores nodes = first_least scores nodes
    \<and> RoundRobin_Pick scores nodes = first_least scores nodes
    \<and> (first_least scores nodes = None \<longleftrightarrow> nodes = [])"
proof (cases nodes)
  case Nil
  then show ?thesis
    by (simp add: first_least_def Greedy_Pick_def Epvm_Pick_def RoundRobin_Pick_def)
next
  case (Cons n ns)
  then show ?thesis
    using pick_from_first_least [of n ns scores] assms
    by (simp add: Greedy_Pick_def Epvm_Pick_def RoundRobin_Pick_def)
qed

lemma picks_are_first_least_witness:
  "\<exists>p. Epvm_Pick [(''a'', Fin 3), (''b'', Fin 1), (''c'', Fin 1)]
      [NewNode ''a'' '''' '''', NewNode ''b'' '''' '''', NewNode ''c'' '''' ''''] = Some p \<and> NodeName p = ''b''"
proof -
  let ?nodes = "[NewNode ''a'' '''' '''', NewNode ''b'' '''' '''', NewNode ''c'' '''' '''']"
    and ?sc = "[(''a'', Fin 3), (''b'', Fin 1), (''c'', Fin 1)]"
  have sc: "\<forall>n\<in>set ?nodes. comparable (score_of ?sc n)"
    by (simp add: comparable_def score_of_def NewNode_def)
  have "Epvm_Pick ?sc ?nodes = first_least ?sc ?nodes"
    using picks_are_first_least [OF sc] by blast
  moreover have "first_least ?sc ?nodes = Some (NewNode ''b'' '''' '''')"
    by (simp add: first_least_def score_of_def NewNode_def)
  ultimately show ?thesis by (simp add: NewNode_def)
qed

section \<open>Round robin is fair\<close>


lemma rr_scores_other:
  "x \<notin> NodeName ` set nodes \<Longrightarrow> map_of (rr_scores w i nodes m) x = map_of m x"
  by (induction nodes arbitrary: i m) auto

lemma rr_scores_at:
  "distinct (map NodeName nodes) \<Longrightarrow> j < length nodes \<Longrightarrow>
     map_of (rr_scores w i nodes m) (NodeName (nodes ! j))
       = Some (if i + j = w then tenth else Fin 1)"
proof (induction nodes arbitrary: i j m)
  case Nil
  then show ?case by simp
next
  case (Cons n nodes)
  show ?case
  proof (cases j)
    case 0
    with Cons.prems show ?thesis by (simp add: rr_scores_other)
  next
    case (Suc k)
    with Cons show ?thesis by simp
  qed
qed

lemma rr_pick:
  assumes "distinct (map NodeName nodes)" and "w < length nodes"
  shows "RoundRobin_Pick (rr_scores w 0 nodes []) nodes = Some (nodes ! w)"
proof -
  let ?sc = "rr_scores w 0 nodes []"
  have score: "score_of ?sc (nodes ! j) = (if j = w then tenth else Fin 1)" if "j < length nodes" for j
    using rr_scores_at [OF assms(1) that, of w 0 "[]"] by (simp add: score_of_def)
  have "comparable (score_of ?sc n)" if "n \<in> set nodes" for n
    using that score by (auto simp: in_set_conv_nth comparable_def tenth_def split: if_splits)
  moreover obtain n ns where nodes: "nodes = n # ns"
    using assms(2) by (cases nodes) auto
  ultimately have p: "pick_from ?sc n (score_of ?sc n) ns \<in> set nodes"
    "\<forall>m\<in>set nodes. \<not> f_less (score_of ?sc m) (score_of ?sc (pick_from ?sc n (score_of ?sc n) ns))"
    using pick_from_minimal [of "score_of ?sc n" ?sc n ns] by auto
  obtain j where j: "j < length nodes" "pick_from ?sc n (score_of ?sc n) ns = nodes ! j"
    using p(1) by (auto simp: in_set_conv_nth)
  have "\<not> f_less tenth (score_of ?sc (nodes ! j))"
    using p(2) assms(2) score [of w] j(2) by (metis nth_mem)
  then have "j = w"
    using score [OF j(1)] by (auto simp: tenth_def split: if_splits)
  with j(2) nodes show ?thesis
    by (simp add: RoundRobin_Pick_def)
qed

lemma rr_select_next:
  assumes "distinct (map NodeName nodes)" and "LastWorker r < length nodes"
  shows "rr_select nodes r =
    (let w = (LastWorker r + 1) mod length nodes in (Some (nodes ! w), r\<lparr>LastWorker := w\<rparr>))"
proof (cases "LastWorker r + 1 < length nodes")
  case True
  then show ?thesis
    using rr_pick [OF assms(1) True]
    by (simp add: rr_select_def RoundRobin_SelectCandidateNodes_def RoundRobin_Score_def)
next
  case False
  with assms(2) have "LastWorker r + 1 = length nodes" and "0 < length nodes"
    by linarith+
  then show ?thesis
    using rr_pick [OF assms(1), of 0]
    by (simp add: rr_select_def RoundRobin_SelectCandidateNodes_def RoundRobin_Score_def)
qed

fun rr_run :: "'a Node_scheme list \<Rightarrow> nat \<Rightarrow> RoundRobin \<Rightarrow> 'a Node_scheme option list" where
  "rr_run nodes 0 r = []"
| "rr_run nodes (Suc k) r = (let (n, r) = rr_select nodes r in n # rr_run nodes k r)"

lemma rr_run_cycle:
  "distinct (map NodeName nodes) \<Longrightarrow> LastWorker r < length nodes \<Longrightarrow>
     rr_run nodes k r
       = map (\<lambda>i. Some (nodes ! ((LastWorker r + 1 + i) mod length nodes))) [0..<k]"
proof (induction k arbitrary: r)
  case 0
  then show ?case by simp
next
  case (Suc k)
  let ?n = "length nodes" and ?w = "(LastWorker r + 1) mod length nodes"
  have "?w < ?n"
    using Suc.prems(2) by (intro mod_less_divisor) linarith
  then have "rr_run nodes k (r\<lparr>LastWorker := ?w\<rparr>)
      = map (\<lambda>i. Some (nodes ! ((?w + 1 + i) mod ?n))) [0..<k]"
    using Suc.IH [OF Suc.prems(1), of "r\<lparr>LastWorker := ?w\<rparr>"] by simp
  moreover have "(?w + 1 + i) mod ?n = (LastWorker r + 1 + Suc i) mod ?n" for i
    by (metis add.assoc add_Suc_right add.commute mod_add_left_eq plus_1_eq_Suc)
  ultimately have "rr_run nodes k (r\<lparr>LastWorker := ?w\<rparr>)
      = map (\<lambda>i. Some (nodes ! ((LastWorker r + 1 + Suc i) mod ?n))) [0..<k]"
    by simp
  moreover have "[0..<Suc k] = 0 # map Suc [0..<k]"
    by (simp add: upt_conv_Cons map_Suc_upt del: upt_Suc)
  ultimately show ?case
    using rr_select_next [OF Suc.prems] by (simp add: Let_def o_def del: upt_Suc)
qed

lemma mset_rotate: "mset (rotate n xs) = mset xs"
proof -
  have "mset (rotate1 ys) = mset ys" for ys :: "'a list"
    by (cases ys) simp_all
  then show ?thesis by (induction n) simp_all
qed

text \<open>C20: Over nodes with different names the round-robin scheduler is fair: starting from any
  position it selects the nodes in cyclic order, so every round of as many selections as there
  are nodes selects each node exactly once.\<close>

theorem round_robin_is_fair:
  assumes "distinct (map NodeName nodes)" and "LastWorker r < length nodes"
  shows "rr_run nodes k r
      = map (\<lambda>i. Some (nodes ! ((LastWorker r + 1 + i) mod length nodes))) [0..<k]
    \<and> mset (rr_run nodes (length nodes) r) = mset (map Some nodes)"
proof
  show "rr_run nodes k r
      = map (\<lambda>i. Some (nodes ! ((LastWorker r + 1 + i) mod length nodes))) [0..<k]"
    by (rule rr_run_cycle [OF assms])
  let ?n = "length nodes" and ?c = "LastWorker r + 1"
  have "rr_run nodes ?n r = rotate ?c (map Some nodes)"
    unfolding rr_run_cycle [OF assms]
  proof (rule nth_equalityI)
    show "length (map (\<lambda>i. Some (nodes ! ((?c + i) mod ?n))) [0..<?n])
        = length (rotate ?c (map Some nodes))"
      by simp
    show "map (\<lambda>i. Some (nodes ! ((?c + i) mod ?n))) [0..<?n] ! i = rotate ?c (map Some nodes) ! i"
      if "i < length (map (\<lambda>i. Some (nodes ! ((?c + i) mod ?n))) [0..<?n])" for i
    proof -
      have i: "i < ?n" using that by simp
      then have "(?c + i) mod ?n < ?n"
        by (intro mod_less_divisor) linarith
      then show ?thesis
        using i nth_rotate [of i "map Some nodes" ?c] by (simp add: add.commute del: rotate_Suc)
    qed
  qed
  then show "mset (rr_run nodes ?n r) = mset (map Some nodes)"
    by (simp only: mset_rotate)
qed

lemma round_robin_is_fair_witness:
  "let nodes = [NewNode ''a'' '''' ''worker'', NewNode ''b'' '''' ''worker'', NewNode ''c'' '''' ''worker''] in
     map (map_option NodeName) (rr_run nodes 4 \<lparr>RRName = ''roundrobin'', LastWorker = 0\<rparr>)
       = [Some ''b'', Some ''c'', Some ''a'', Some ''b'']"
proof -
  let ?nodes = "[NewNode ''a'' '''' ''worker'', NewNode ''b'' '''' ''worker'', NewNode ''c'' '''' ''worker'']"
  let ?r = "\<lparr>RRName = ''roundrobin'', LastWorker = 0\<rparr>"
  have "distinct (map NodeName ?nodes)" and "LastWorker ?r < length ?nodes"
    by (simp_all add: NewNode_def)
  from round_robin_is_fair [OF this, of 4]
  have "rr_run ?nodes 4 ?r
      = map (\<lambda>i. Some (?nodes ! ((LastWorker ?r + 1 + i) mod length ?nodes))) [0..<4]"
    by blast
  then show ?thesis
    by (simp add: NewNode_def upt_rec)
qed

section \<open>Nodes without statistics\<close>

text \<open>The greedy and EPVM schedulers offer exactly the nodes whose free disk, as a signed
  64-bit number, is enough; before any statistics have been read no node is offered for a task
  that asks for disk, because a new node has none.\<close>

theorem new_nodes_are_no_candidates:
  "Greedy_SelectCandidateNodes disk nodes = Epvm_SelectCandidateNodes disk nodes
   \<and> set (Greedy_SelectCandidateNodes disk nodes)
       = {n \<in> set nodes. sint disk \<le> sint (NodeDisk n - DiskAllocated n)}
   \<and> (0 < sint disk \<longrightarrow>
        Greedy_SelectCandidateNodes disk (map (\<lambda>name. NewNode name (''http://'' @ name) ''worker'') names) = [])"
  by (auto simp: Greedy_SelectCandidateNodes_def Epvm_SelectCandidateNodes_def
      selectCandidateNodes_def checkDisk_def word_sle_eq NewNode_def)

lemma new_nodes_are_no_candidates_witness:
  "Greedy_SelectCandidateNodes 10 (map (\<lambda>name. NewNode name (''http://'' @ name) ''worker'') [''w1:8080'']) = []"
  using new_nodes_are_no_candidates [of 10 "[] :: Node list" "[''w1:8080'']"] by simp

end
