(* ===== verification/Manager.thy ===== *)
theory Manager
  imports Scheduler Dispatch Worker_Service
begin

text \<open>
  The manager, \<open>internal/adapters/manager/manager.go\<close>: the queue of task events, the choice of a worker,
  sending events to workers over HTTP, taking over the states the workers report, and restarts.

  The source reads \<open>ID\<close> and \<open>State\<close> of a task directly, which the task type does not have; they are
  read as \<open>Metadata.ID\<close> and \<open>Status.State\<close>, as the rest of the file spells them. The queue package is
  FIFO as it documents. The HTTP exchanges, JSON encoding, \<open>math.Pow\<close> and the fields of a task only the
  scheduler's own task type has are parameters of the environment; the requests made are kept in order.
  The body of each endless loop (\<open>ProcessTasks\<close>, \<open>UpdateTasks\<close>, \<open>DoHealthChecks\<close>, \<open>UpdateNodeStats\<close>)
  is an operation here; the loops themselves are in \<open>Manager_Runs\<close>. Logging is left out.
\<close>

section \<open>Stores behind the interface\<close>

type_synonym 'e event_ops = "string \<Rightarrow> addr \<Rightarrow> TaskEvent list \<Rightarrow> 'e \<Rightarrow> 'e res go"

datatype 'db any_event_store =
    NilEventStore
  | MemoryEventStore InMemoryTaskEventStore
  | BoltEventStore 'db

definition any_event_ops ::
  "(value \<Rightarrow> string) \<Rightarrow> 'db bolt \<Rightarrow> TaskEvent json \<Rightarrow> 'db any_event_store event_ops" where
  "any_event_ops fmt_v b j k a evs s =
     (case s of
        MemoryEventStore i \<Rightarrow>
          Returns (map_sum (\<lambda>e. e) MemoryEventStore (InMemoryTaskEventStore_Put fmt_v k (VTaskEvent a) i))
      | BoltEventStore db \<Rightarrow>
          go_bind (EventStore_Put b j ''events'' evs k (VTaskEvent a) db)
            (\<lambda>r. Returns (map_sum (\<lambda>e. e) BoltEventStore r))
      | NilEventStore \<Rightarrow> Panics NilDereference)"

section \<open>State\<close>

text \<open>A value in the queue: \<open>AddTask\<close> puts events in, a failed post puts a task in.\<close>

datatype queued =
    QueuedEvent TaskEvent
  | QueuedTask Task

datatype scheduler =
    GreedyScheduler string
  | RoundRobinScheduler RoundRobin
  | EpvmScheduler string

text \<open>A node with the address of the pointer to it: its place in \<open>WorkerNodes\<close>.\<close>

record node_cell = Node +
  node_addr :: addr

datatype request =
    GetRequest string
  | PostRequest string string
  | DeleteRequest string

record ('d, 'e, 'w) manager =
  Pending :: "queued list"
  MTaskDb :: 'd
  MCells :: "Task list"
  MEventDb :: 'e
  MEvents :: "TaskEvent list"
  MWorkers :: "string list"
  WorkerTaskMap :: "uuid list gomap"
  TaskWorkerMap :: "(uuid \<times> string) list"
  MLastWorker :: int
  WorkerNodes :: "node_cell list"
  MScheduler :: scheduler
  MWorker :: "(dispatcher \<times> 'w worker_service) option"
  requests :: "request list"

text \<open>
  An answer to a post: its status and what decoding its body into a task gives (also when it ends
  in an error); an answer to a request for tasks: its status and the pointers decoded, some
  of which may be nil.
\<close>

record post_answer =
  PostStatus :: int
  PostDecode :: "Task \<Rightarrow> Task \<times> go_error option"

record tasks_answer =
  TasksStatus :: int
  TasksDecoded :: "Task option list"

record ('d, 'e, 'w, 'q) manager_env =
  task_ops :: "'d store_ops"
  event_ops :: "'e event_ops"
  uuid_String :: "uuid \<Rightarrow> string"
  encode_event :: "TaskEvent \<Rightarrow> string res"
  http_post :: "string \<Rightarrow> string \<Rightarrow> post_answer res"
  http_tasks :: "string \<Rightarrow> tasks_answer res"
  new_request :: "string \<Rightarrow> go_error option"
  http_stats :: "nat \<Rightarrow> bool \<Rightarrow> string \<Rightarrow> http_answer res"
  math_pow :: "float64 \<Rightarrow> float64 \<Rightarrow> float64"
  task_disk :: "Task \<Rightarrow> int64"
  task_memory :: "Task \<Rightarrow> int64"
  worker_env :: "('w, 'q) service_env"
  worker_health :: "Task \<Rightarrow> health_event list"
  fresh_uuid :: uuid

definition zero_Task :: Task where
  "zero_Task =
     \<lparr>Metadata = \<lparr>MetaID = uuid_Nil, MetaName = '''', Namespace = '''', Labels = None, CreatedAt = 0\<rparr>,
      Spec =
        \<lparr>SpecConfig =
           \<lparr>SanboxID = '''', SandboxName = '''', Image = '''', EnvVars = None,
            SandboxMetadata = None, SandboxTypeField = '''',
            Resources = \<lparr>CPU = '''', Memory = '''', Disk = ''''\<rparr>,
            Network = \<lparr>ExposedPorts = None, PortBindings = None\<rparr>,
            Storage = \<lparr>Volumes = None\<rparr>, WorkingDir = ''''\<rparr>,
         Command = [], Timeout = 0\<rparr>,
      Status = zero_status\<rparr>"

section \<open>The constructor\<close>

fun worker_maps :: "string list \<Rightarrow> uuid list gomap \<Rightarrow> uuid list gomap" where
  "worker_maps [] m = m"
| "worker_maps (worker # ws) m = worker_maps ws (AList.update worker [] m)"

fun worker_nodes :: "addr \<Rightarrow> string list \<Rightarrow> node_cell list" where
  "worker_nodes a [] = []"
| "worker_nodes a (worker # ws) =
     Node.extend (NewNode worker (''http://'' @ worker) ''worker'') (node_cell.fields a)
       # worker_nodes (Suc a) ws"

definition new_scheduler :: "string \<Rightarrow> scheduler" where
  "new_scheduler schedulerType =
     (if schedulerType = ''greedy'' then GreedyScheduler ''greedy''
      else if schedulerType = ''roundrobin'' then
        RoundRobinScheduler \<lparr>RRName = ''roundrobin'', LastWorker = 0\<rparr>
      else EpvmScheduler ''epvm'')"

definition initial_manager ::
  "string list \<Rightarrow> string \<Rightarrow> 'd \<Rightarrow> 'e \<Rightarrow> ('d, 'e, 'w) manager" where
  "initial_manager ws schedulerType ts es =
     \<lparr>Pending = [], MTaskDb = ts, MCells = [], MEventDb = es, MEvents = [], MWorkers = ws,
      WorkerTaskMap = worker_maps ws [], TaskWorkerMap = [], MLastWorker = 0,
      WorkerNodes = worker_nodes 0 ws, MScheduler = new_scheduler schedulerType, MWorker = None,
      requests = []\<rparr>"

text \<open>
  \<open>Inl\<close> is the message of \<open>log.Fatalf\<close>, which ends the process. \<open>open_file\<close> is what opening a database
  gives. The error of opening the task store is overwritten by that of the event store.
\<close>

definition NewManager ::
  "'db bolt \<Rightarrow> (string \<Rightarrow> 'db res) \<Rightarrow> string list \<Rightarrow> string \<Rightarrow> string \<Rightarrow>
   ('db any_store, 'db any_event_store, 'w) manager res go" where
  "NewManager b open_file ws schedulerType dbType =
     (if dbType = ''memory'' then
        Returns (Inr (initial_manager ws schedulerType (MemoryTaskStore NewInMemoryTaskStore)
          (MemoryEventStore NewInMemoryTaskEventStore)))
      else if dbType = ''persistent'' then
        go_bind (NewTaskStore b (open_file ''tasks.db'') ''tasks.db'' ''tasks'') (\<lambda>ts.
        go_bind (NewEventStore b (open_file ''events.db'') ''events.db'' ''events'') (\<lambda>es.
          Returns (case es of
              Inl err \<Rightarrow> Inl (GoError (''unable to create task store: '' @ message err))
            | Inr edb \<Rightarrow>
                Inr (initial_manager ws schedulerType
                  (case ts of Inl _ \<Rightarrow> NilBoltTaskStore | Inr tdb \<Rightarrow> BoltTaskStore tdb)
                  (BoltEventStore edb)))))
      else Returns (Inr (initial_manager ws schedulerType NilStore NilEventStore)))"

section \<open>Choosing a worker\<close>

text \<open>The calls through the interface \<open>scheduler.Scheduler\<close>.\<close>

definition SelectCandidateNodes ::
  "scheduler \<Rightarrow> int64 \<Rightarrow> node_cell list \<Rightarrow> node_cell list" where
  "SelectCandidateNodes s disk nodes =
     (case s of
        GreedyScheduler _ \<Rightarrow> Greedy_SelectCandidateNodes disk nodes
      | RoundRobinScheduler _ \<Rightarrow> RoundRobin_SelectCandidateNodes nodes
      | EpvmScheduler _ \<Rightarrow> Epvm_SelectCandidateNodes disk nodes)"

definition Score ::
  "('d, 'e, 'w, 'q) manager_env \<Rightarrow> scheduler \<Rightarrow> Task \<Rightarrow> node_cell list \<Rightarrow>
   (scores \<times> scheduler \<times> node_cell list) go" where
  "Score e s t nodes =
     (case s of
        GreedyScheduler _ \<Rightarrow>
          go_bind (Greedy_Score (math_pow e) (http_stats e) nodes) (\<lambda>(sc, ns). Returns (sc, s, ns))
      | RoundRobinScheduler r \<Rightarrow>
          (let (sc, r) = RoundRobin_Score nodes r in Returns (sc, RoundRobinScheduler r, nodes))
      | EpvmScheduler _ \<Rightarrow>
          go_bind (Epvm_Score (math_pow e) (http_stats e) (task_memory e t) nodes)
            (\<lambda>(sc, ns). Returns (sc, s, ns)))"

definition Pick :: "scheduler \<Rightarrow> scores \<Rightarrow> node_cell list \<Rightarrow> node_cell option" where
  "Pick s sc nodes =
     (case s of
        GreedyScheduler _ \<Rightarrow> Greedy_Pick sc nodes
      | RoundRobinScheduler _ \<Rightarrow> RoundRobin_Pick sc nodes
      | EpvmScheduler _ \<Rightarrow> Epvm_Pick sc nodes)"

definition task_id :: "Task \<Rightarrow> uuid" where
  "task_id t = MetaID (Metadata t)"

definition write_node :: "node_cell \<Rightarrow> node_cell list \<Rightarrow> node_cell list" where
  "write_node n nodes = nodes[node_addr n := n]"

text \<open>The score map is never nil, so the second error of the source cannot occur.\<close>

definition SelectWorker ::
  "('d, 'e, 'w, 'q) manager_env \<Rightarrow> Task \<Rightarrow> ('d, 'e, 'w) manager \<Rightarrow>
   (node_cell option res \<times> ('d, 'e, 'w) manager) go" where
  "SelectWorker e t m =
     (let candidates = SelectCandidateNodes (MScheduler m) (task_disk e t) (WorkerNodes m) in
      if candidates = [] then
        Returns (Inl (GoError (''No available candidates match resource request for task '' @
          uuid_String e (task_id t))), m)
      else
        go_bind (Score e (MScheduler m) t candidates) (\<lambda>(sc, s, candidates).
          Returns (Inr (Pick s sc candidates),
            m\<lparr>MScheduler := s, WorkerNodes := fold write_node candidates (WorkerNodes m)\<rparr>)))"

section \<open>Sending work\<close>

definition stopTask ::
  "('d, 'e, 'w, 'q) manager_env \<Rightarrow> string \<Rightarrow> string \<Rightarrow> ('d, 'e, 'w) manager \<Rightarrow> ('d, 'e, 'w) manager" where
  "stopTask e worker taskID m =
     (let url = ''http://'' @ worker @ ''/tasks/'' @ taskID in
      case new_request e url of
        Some err \<Rightarrow> m
      | None \<Rightarrow> m\<lparr>requests := requests m @ [DeleteRequest url]\<rparr>)"

text \<open>An event about a task that has a worker.\<close>

definition existing_task ::
  "('d, 'e, 'w, 'q) manager_env \<Rightarrow> TaskEvent \<Rightarrow> string \<Rightarrow> ('d, 'e, 'w) manager \<Rightarrow> ('d, 'e, 'w) manager go"
where
  "existing_task e te taskWorker m =
     (let key = uuid_String e (task_id (EventTask te)) in
      go_bind (op_Get (task_ops e) key (MCells m) (MTaskDb m)) (\<lambda>r. Returns (case r of
          Inl err \<Rightarrow> m
        | Inr (a, cs) \<Rightarrow>
            (let m = m\<lparr>MCells := cs\<rparr>; persistedTask = cs ! a in
             if EventState te = Completed
                \<and> ValidStateTransition (State (Status persistedTask)) (EventState te)
             then stopTask e taskWorker key m
             else m))))"

text \<open>
  Posting the event to the node chosen: \<open>a\<close> is the cell of the variable \<open>t\<close>, whose address the store
  was given. A failed encoding is only logged, and nothing is sent as the body.
\<close>

definition post_event ::
  "('d, 'e, 'w, 'q) manager_env \<Rightarrow> TaskEvent \<Rightarrow> node_cell \<Rightarrow> addr \<Rightarrow> ('d, 'e, 'w) manager \<Rightarrow>
   ('d, 'e, 'w) manager" where
  "post_event e te w a m =
     (let body = (case encode_event e te of Inl err \<Rightarrow> '''' | Inr text \<Rightarrow> text);
          url = ''http://'' @ NodeName w @ ''/tasks'';
          m = m\<lparr>requests := requests m @ [PostRequest url body]\<rparr> in
      case http_post e url body of
        Inl err \<Rightarrow> m\<lparr>Pending := Pending m @ [QueuedTask (MCells m ! a)]\<rparr>
      | Inr resp \<Rightarrow>
          if PostStatus resp \<noteq> 201 then m
          else
            (let (t, err) = PostDecode resp zero_Task;
                 m = m\<lparr>MCells := (MCells m)[a := t]\<rparr>
             in case err of
                  Some _ \<Rightarrow> m
                | None \<Rightarrow>
                    m\<lparr>WorkerNodes := (WorkerNodes m)[node_addr w :=
                       (WorkerNodes m ! node_addr w)\<lparr>NodeTaskCount :=
                          NodeTaskCount (WorkerNodes m ! node_addr w) + 1\<rparr>]\<rparr>))"

text \<open>The bookkeeping for a task and the node chosen for it.\<close>

definition assign ::
  "uuid \<Rightarrow> string \<Rightarrow> ('d, 'e, 'w) manager \<Rightarrow> ('d, 'e, 'w) manager" where
  "assign tid name m =
     m\<lparr>WorkerTaskMap := AList.update name
          ((case map_of (WorkerTaskMap m) name of None \<Rightarrow> [] | Some ids \<Rightarrow> ids) @ [tid]) (WorkerTaskMap m),
       TaskWorkerMap := AList.update tid name (TaskWorkerMap m)\<rparr>"

definition place_task ::
  "('d, 'e, 'w, 'q) manager_env \<Rightarrow> TaskEvent \<Rightarrow> node_cell \<Rightarrow> ('d, 'e, 'w) manager \<Rightarrow>
   ('d, 'e, 'w) manager go" where
  "place_task e te w m =
     (let t = EventTask te;
          m = assign (task_id t) (NodeName w) m;
          t = with_state Scheduled t;
          a = length (MCells m);
          m = m\<lparr>MCells := MCells m @ [t]\<rparr>
      in go_bind (op_Put (task_ops e) (uuid_String e (task_id t)) a (MCells m) (MTaskDb m)) (\<lambda>r.
           Returns (post_event e te w a (case r of Inl err \<Rightarrow> m | Inr db \<Rightarrow> m\<lparr>MTaskDb := db\<rparr>))))"

text \<open>An event about a task without a worker.\<close>

definition new_task ::
  "('d, 'e, 'w, 'q) manager_env \<Rightarrow> TaskEvent \<Rightarrow> ('d, 'e, 'w) manager \<Rightarrow> ('d, 'e, 'w) manager go" where
  "new_task e te m =
     go_bind (SelectWorker e (EventTask te) m) (\<lambda>(r, m).
       case r of
         Inl err \<Rightarrow> Returns m
       | Inr None \<Rightarrow> Panics NilDereference
       | Inr (Some w) \<Rightarrow> place_task e te w m)"

definition SendWork ::
  "('d, 'e, 'w, 'q) manager_env \<Rightarrow> ('d, 'e, 'w) manager \<Rightarrow> ('d, 'e, 'w) manager go" where
  "SendWork e m =
     (case Pending m of
        [] \<Rightarrow> Returns m
      | QueuedTask t # q \<Rightarrow> Panics FailedTypeAssertion
      | QueuedEvent te # q \<Rightarrow>
          (let m = m\<lparr>Pending := q, MEvents := MEvents m @ [te]\<rparr> in
           go_bind (event_ops e (uuid_String e (EventID te)) (length (MEvents m) - 1) (MEvents m) (MEventDb m))
             (\<lambda>r. let m = (case r of Inl err \<Rightarrow> m | Inr db \<Rightarrow> m\<lparr>MEventDb := db\<rparr>) in
                case map_of (TaskWorkerMap m) (task_id (EventTask te)) of
                  Some taskWorker \<Rightarrow> existing_task e te taskWorker m
                | None \<Rightarrow> new_task e te m)))"

definition Manager_AddTask :: "TaskEvent \<Rightarrow> ('d, 'e, 'w) manager \<Rightarrow> ('d, 'e, 'w) manager" where
  "Manager_AddTask te m = m\<lparr>Pending := Pending m @ [QueuedEvent te]\<rparr>"

section \<open>Taking over what the workers report\<close>

definition take_over :: "Task \<Rightarrow> Task \<Rightarrow> Task" where
  "take_over t persisted =
     (let persisted = (if State (Status persisted) \<noteq> State (Status t)
                       then with_state (State (Status t)) persisted else persisted)
      in persisted\<lparr>Status := (Status persisted)
           \<lparr>StartTime := StartTime (Status t), FinishTime := FinishTime (Status t),
            ContainerID := ContainerID (Status t)\<rparr>\<rparr>)"

definition update_task ::
  "('d, 'e, 'w, 'q) manager_env \<Rightarrow> Task option \<Rightarrow> ('d, 'e, 'w) manager \<Rightarrow> ('d, 'e, 'w) manager go" where
  "update_task e reported m =
     (case reported of
        None \<Rightarrow> Panics NilDereference
      | Some t \<Rightarrow>
          go_bind (op_Get (task_ops e) (uuid_String e (task_id t)) (MCells m) (MTaskDb m)) (\<lambda>r.
            case r of
              Inl err \<Rightarrow> Returns m
            | Inr (a, cs) \<Rightarrow>
                (let persisted = take_over t (cs ! a);
                     m = m\<lparr>MCells := cs[a := persisted]\<rparr>
                 in go_bind (op_Put (task_ops e) (uuid_String e (task_id persisted)) a (MCells m) (MTaskDb m))
                      (\<lambda>r. Returns (case r of Inl err \<Rightarrow> m | Inr db \<Rightarrow> m\<lparr>MTaskDb := db\<rparr>)))))"

fun update_all ::
  "('d, 'e, 'w, 'q) manager_env \<Rightarrow> Task option list \<Rightarrow> ('d, 'e, 'w) manager \<Rightarrow> ('d, 'e, 'w) manager go"
where
  "update_all e [] m = Returns m"
| "update_all e (t # ts) m = go_bind (update_task e t m) (update_all e ts)"

fun poll_workers ::
  "('d, 'e, 'w, 'q) manager_env \<Rightarrow> string list \<Rightarrow> ('d, 'e, 'w) manager \<Rightarrow> ('d, 'e, 'w) manager go" where
  "poll_workers e [] m = Returns m"
| "poll_workers e (worker # ws) m =
     (let url = ''http://'' @ worker @ ''/tasks'';
          m = m\<lparr>requests := requests m @ [GetRequest url]\<rparr> in
      case http_tasks e url of
        Inl err \<Rightarrow> poll_workers e ws m
      | Inr resp \<Rightarrow>
          if TasksStatus resp \<noteq> 200 then poll_workers e ws m
          else go_bind (update_all e (TasksDecoded resp) m) (poll_workers e ws))"

definition updateTasks ::
  "('d, 'e, 'w, 'q) manager_env \<Rightarrow> ('d, 'e, 'w) manager \<Rightarrow> ('d, 'e, 'w) manager go" where
  "updateTasks e m = poll_workers e (MWorkers m) m"

text \<open>One round of \<open>UpdateNodeStats\<close>; the node's answers are numbered by its place.\<close>

definition UpdateNodeStats_round ::
  "('d, 'e, 'w, 'q) manager_env \<Rightarrow> ('d, 'e, 'w) manager \<Rightarrow> ('d, 'e, 'w) manager" where
  "UpdateNodeStats_round e m =
     m\<lparr>WorkerNodes := map (\<lambda>n. snd (Node_GetStats (http_stats e (node_addr n) False) n)) (WorkerNodes m)\<rparr>"

section \<open>Health checks and restarts\<close>

definition Manager_GetTasks ::
  "('d, 'e, 'w, 'q) manager_env \<Rightarrow> ('d, 'e, 'w) manager \<Rightarrow> (addr list \<times> ('d, 'e, 'w) manager) go" where
  "Manager_GetTasks e m =
     go_bind (op_List (task_ops e) (MCells m) (MTaskDb m)) (\<lambda>r. Returns (case r of
         Inl err \<Rightarrow> ([], m)
       | Inr (as, cs) \<Rightarrow> (as, m\<lparr>MCells := cs\<rparr>)))"

text \<open>
  The two calls on \<open>m.worker\<close>. On a nil pointer both run until they read a field of it:
  \<open>CheckTaskHealth\<close> for a running task, \<open>AddTask\<close> for a task that is not in a final state.
\<close>

definition worker_CheckTaskHealth ::
  "('d, 'e, 'w, 'q) manager_env \<Rightarrow> Task \<Rightarrow> ('d, 'e, 'w) manager \<Rightarrow> ('d, 'e, 'w) manager go" where
  "worker_CheckTaskHealth e t m =
     (case MWorker m of
        None \<Rightarrow> if State (Status t) \<noteq> Running then Returns m else Panics NilDereference
      | Some (d, w) \<Rightarrow>
          go_bind (CheckTaskHealth (worker_env e) t (worker_health e t) w)
            (\<lambda>w. Returns (m\<lparr>MWorker := Some (d, w)\<rparr>)))"

definition worker_AddTask ::
  "('d, 'e, 'w, 'q) manager_env \<Rightarrow> Task \<Rightarrow> ('d, 'e, 'w) manager \<Rightarrow> ('d, 'e, 'w) manager go" where
  "worker_AddTask e t m =
     (case MWorker m of
        None \<Rightarrow>
          if State (Status t) = Completed \<or> State (Status t) = Failed then Returns m
          else Panics NilDereference
      | Some (d, w) \<Rightarrow> Returns (m\<lparr>MWorker := Some (snd (AddTask (fresh_uuid e) t d), w)\<rparr>))"

definition restarted :: "Task \<Rightarrow> Task" where
  "restarted t =
     (let t = with_state Scheduled t
      in t\<lparr>Status := (Status t)\<lparr>RestartCount := RestartCount (Status t) + 1\<rparr>\<rparr>)"

definition restartTask ::
  "('d, 'e, 'w, 'q) manager_env \<Rightarrow> addr \<Rightarrow> ('d, 'e, 'w) manager \<Rightarrow> ('d, 'e, 'w) manager go" where
  "restartTask e a m =
     (let t = restarted (MCells m ! a);
          m = m\<lparr>MCells := (MCells m)[a := t]\<rparr>
      in go_bind (op_Put (task_ops e) (uuid_String e (task_id t)) a (MCells m) (MTaskDb m)) (\<lambda>r.
           worker_AddTask e t (case r of Inl err \<Rightarrow> m | Inr db \<Rightarrow> m\<lparr>MTaskDb := db\<rparr>)))"

text \<open>\<open>checkTaskHealth\<close> always returns nil, so a running task is never restarted here.\<close>

definition checkTaskHealth ::
  "('d, 'e, 'w, 'q) manager_env \<Rightarrow> Task \<Rightarrow> ('d, 'e, 'w) manager \<Rightarrow>
   (go_error option \<times> ('d, 'e, 'w) manager) go" where
  "checkTaskHealth e t m = go_bind (worker_CheckTaskHealth e t m) (\<lambda>m. Returns (None, m))"

definition check_task ::
  "('d, 'e, 'w, 'q) manager_env \<Rightarrow> addr \<Rightarrow> ('d, 'e, 'w) manager \<Rightarrow> ('d, 'e, 'w) manager go" where
  "check_task e a m =
     (let t = MCells m ! a in
      if State (Status t) = Running \<and> sint (RestartCount (Status t)) < 3 then
        go_bind (checkTaskHealth e t m) (\<lambda>(err, m).
          if err \<noteq> None \<and> sint (RestartCount (Status (MCells m ! a))) < 3 then restartTask e a m
          else Returns m)
      else if State (Status t) = Failed \<and> sint (RestartCount (Status t)) < 3 then restartTask e a m
      else Returns m)"

fun check_all ::
  "('d, 'e, 'w, 'q) manager_env \<Rightarrow> addr list \<Rightarrow> ('d, 'e, 'w) manager \<Rightarrow> ('d, 'e, 'w) manager go" where
  "check_all e [] m = Returns m"
| "check_all e (a # as) m = go_bind (check_task e a m) (check_all e as)"

definition doHealthChecks ::
  "('d, 'e, 'w, 'q) manager_env \<Rightarrow> ('d, 'e, 'w) manager \<Rightarrow> ('d, 'e, 'w) manager go" where
  "doHealthChecks e m = go_bind (Manager_GetTasks e m) (\<lambda>(as, m). check_all e as m)"

text \<open>The host port of some port of a map; \<open>iter\<close> is the order in which the map is ranged over.\<close>

definition getHostPort ::
  "(string list gomap \<Rightarrow> string list gomap) \<Rightarrow> string list gomap \<Rightarrow> string option go" where
  "getHostPort iter ports =
     (case iter ports of
        [] \<Rightarrow> Returns None
      | (k, []) # _ \<Rightarrow> Panics IndexOutOfRange
      | (k, p # _) # _ \<Rightarrow> Returns (Some p))"

end
