(* ===== verification/Manager_Properties.thy ===== *)
theory Manager_Properties
  imports Manager Worker_Properties
begin

text \<open>
  What the manager's operations keep and change: the bookkeeping of tasks and workers, the fate of
  queued values, the stored tasks, and what its health checks do.
\<close>

section \<open>An environment, for the witnesses\<close>

text \<open>A worker that answers a post with a running task, or is down; the
  manager keeps its tasks in memory, and \<open>reports\<close> is what workers answer when asked for theirs.\<close>

definition demo_events :: "TaskEvent json" where
  "demo_events = \<lparr>Marshal = (\<lambda>_. Inr ''{}''), Unmarshal = (\<lambda>_. Inl (GoError ''syntax error''))\<rparr>"

definition demo_manager_env ::
  "bool \<Rightarrow> Task option list \<Rightarrow>
   (map_db any_store, map_db any_event_store, InMemoryTaskStore, unit) manager_env" where
  "demo_manager_env down reports =
     \<lparr>task_ops = any_task_ops (\<lambda>_. '''') (\<lambda>m. m) map_bolt any_json,
      event_ops = any_event_ops (\<lambda>_. '''') map_bolt demo_events,
      uuid_String = (\<lambda>i. show_nat (unat i)), encode_event = (\<lambda>_. Inr ''{}''),
      http_post = (\<lambda>_ _. if down then Inl (GoError ''connection refused'')
        else Inr \<lparr>PostStatus = 201, PostDecode = (\<lambda>_. (demo_task Running ''c1'', None))\<rparr>),
      http_tasks = (\<lambda>_. if down then Inl (GoError ''connection refused'')
        else Inr \<lparr>TasksStatus = 200, TasksDecoded = reports\<rparr>),
      new_request = (\<lambda>_. None), http_stats = (\<lambda>_ _ _. Inl (GoError ''connection refused'')),
      math_pow = (\<lambda>_ _. Fin 1.75), task_disk = (\<lambda>_. 0), task_memory = (\<lambda>_. 0),
      worker_env = demo_env, worker_health = (\<lambda>_. []), fresh_uuid = 1\<rparr>"

definition demo_event :: TaskEvent where
  "demo_event = \<lparr>EventID = 9, EventState = State.Pending, Timestamp = 0, EventTask = demo_task State.Pending ''''\<rparr>"

definition demo_manager :: "(map_db any_store, map_db any_event_store, InMemoryTaskStore) manager" where
  "demo_manager = initial_manager [''w1''] ''roundrobin'' (MemoryTaskStore NewInMemoryTaskStore)
     (MemoryEventStore NewInMemoryTaskEventStore)"

section \<open>What the steps leave alone\<close>

lemma Node_GetStats_keeps:
  "NodeName (snd (Node_GetStats get n)) = NodeName n"
  "Node.more (snd (Node_GetStats get n)) = Node.more n"
  by (auto simp: Node_GetStats_def split: sum.splits option.splits)

lemma calculateCpuUsage_node:
  assumes "calculateCpuUsage get1 get2 n = Returns (r, n')"
  shows "NodeName n' = NodeName n \<and> Node.more n' = Node.more n"
  using assms Node_GetStats_keeps [of get1 n] Node_GetStats_keeps [of get2 "snd (Node_GetStats get1 n)"]
  by (auto simp: calculateCpuUsage_def go_bind_Returns_iff Let_def split: prod.splits sum.splits)

lemma node_addr_more: "Node.more n = Node.more n' \<Longrightarrow> node_addr n = node_addr (n' :: node_cell)"
  by (cases n; cases n') simp

definition node_key :: "node_cell \<Rightarrow> string \<times> addr" where
  "node_key n = (NodeName n, node_addr n)"

lemma calculateCpuUsage_key:
  "calculateCpuUsage get1 get2 n = Returns (r, n') \<Longrightarrow> node_key n' = node_key n"
  by (auto simp: node_key_def dest!: calculateCpuUsage_node node_addr_more)

lemma greedy_scores_keys:
  "greedy_scores pow get idx nodes m = Returns (m', nodes') \<Longrightarrow> map node_key nodes' = map node_key nodes"
  by (induction nodes arbitrary: idx m m' nodes')
    (auto simp: go_bind_Returns_iff calculateCpuUsage_key)

lemma epvm_scores_keys:
  "epvm_scores pow get mem idx nodes m = Returns (m', nodes') \<Longrightarrow> map node_key nodes' = map node_key nodes"
  by (induction nodes arbitrary: idx m m' nodes')
    (auto simp: go_bind_Returns_iff calculateCpuUsage_key)

lemma Score_keys:
  "Score e s t nodes = Returns (sc, s', nodes') \<Longrightarrow> map node_key nodes' = map node_key nodes"
  by (auto simp: Score_def go_bind_Returns_iff Greedy_Score_def Epvm_Score_def
      greedy_scores_keys epvm_scores_keys split: scheduler.splits prod.splits)

lemma pick_from_in: "pick_from sc best low nodes \<in> set (best # nodes)"
proof (induction nodes arbitrary: best low)
  case (Cons n nodes)
  show ?case
    using Cons [of n "score_of sc n"] Cons [of best low] by auto
qed simp

lemma Pick_in: "Pick s sc nodes = Some n \<Longrightarrow> n \<in> set nodes"
  using pick_from_in
  by (auto simp: Pick_def Greedy_Pick_def RoundRobin_Pick_def Epvm_Pick_def
      split: scheduler.splits list.splits)

lemma Pick_nonempty: "nodes \<noteq> [] \<Longrightarrow> Pick s sc nodes \<noteq> None"
  by (auto simp: Pick_def Greedy_Pick_def RoundRobin_Pick_def Epvm_Pick_def
      split: scheduler.splits list.splits)

lemma candidates_subset: "set (SelectCandidateNodes s disk nodes) \<subseteq> set nodes"
  by (auto simp: SelectCandidateNodes_def Greedy_SelectCandidateNodes_def Epvm_SelectCandidateNodes_def
      RoundRobin_SelectCandidateNodes_def selectCandidateNodes_def split: scheduler.splits)

lemma key_names: "map node_key xs = map node_key ys \<Longrightarrow> NodeName ` set xs = NodeName ` set ys"
  by (metis (no_types, lifting) fst_conv image_cong image_image image_set node_key_def)

lemma write_nodes_names: "NodeName ` set (fold write_node ns nodes) \<subseteq> NodeName ` set ns \<union> NodeName ` set nodes"
proof (induction ns arbitrary: nodes)
  case (Cons n ns)
  have "set (write_node n nodes) \<subseteq> insert n (set nodes)"
    by (simp add: write_node_def set_update_subset_insert)
  then have "NodeName ` set (write_node n nodes) \<subseteq> insert (NodeName n) (NodeName ` set nodes)"
    by blast
  with Cons.IH [of "write_node n nodes"] show ?case by auto
qed simp

text \<open>Selecting a worker changes the scheduler and the nodes' statistics only; the node is there
  unless there was no candidate.\<close>

lemma SelectWorker_facts:
  assumes "SelectWorker e t m = Returns (r, m')"
  shows "\<exists>s ns. m' = m\<lparr>MScheduler := s, WorkerNodes := ns\<rparr>
      \<and> NodeName ` set ns \<subseteq> NodeName ` set (WorkerNodes m)"
    and "r \<noteq> Inr None"
    and "r = Inr (Some w) \<Longrightarrow> NodeName w \<in> NodeName ` set (WorkerNodes m)"
proof -
  let ?cs = "SelectCandidateNodes (MScheduler m) (task_disk e t) (WorkerNodes m)"
  have "(\<exists>s ns. m' = m\<lparr>MScheduler := s, WorkerNodes := ns\<rparr>
        \<and> NodeName ` set ns \<subseteq> NodeName ` set (WorkerNodes m))
      \<and> r \<noteq> Inr None \<and> (r = Inr (Some w) \<longrightarrow> NodeName w \<in> NodeName ` set (WorkerNodes m))"
  proof (cases "?cs = []")
    case True
    then have "m' = m" and "\<exists>err. r = Inl err"
      using assms by (auto simp: SelectWorker_def)
    then show ?thesis
      by (auto intro!: exI [of _ "MScheduler m"] exI [of _ "WorkerNodes m"])
  next
    case False
    then obtain sc s cs where sc: "Score e (MScheduler m) t ?cs = Returns (sc, s, cs)"
      and r: "r = Inr (Pick s sc cs)"
      and m': "m' = m\<lparr>MScheduler := s, WorkerNodes := fold write_node cs (WorkerNodes m)\<rparr>"
      using assms by (auto simp: SelectWorker_def go_bind_Returns_iff)
    have keys: "map node_key cs = map node_key ?cs"
      by (rule Score_keys [OF sc])
    then have names: "NodeName ` set cs \<subseteq> NodeName ` set (WorkerNodes m)"
      using key_names [OF keys] candidates_subset [of "MScheduler m" "task_disk e t" "WorkerNodes m"] by auto
    have "cs \<noteq> []"
      using keys False by (metis map_is_Nil_conv)
    moreover have "NodeName ` set (fold write_node cs (WorkerNodes m)) \<subseteq> NodeName ` set (WorkerNodes m)"
      using write_nodes_names [of cs "WorkerNodes m"] names by blast
    ultimately show ?thesis
      using m' r names Pick_nonempty [of cs s sc] Pick_in [of s sc cs w]
      by (intro conjI exI [of _ s] exI [of _ "fold write_node cs (WorkerNodes m)"]) auto
  qed
  then show "\<exists>s ns. m' = m\<lparr>MScheduler := s, WorkerNodes := ns\<rparr>
      \<and> NodeName ` set ns \<subseteq> NodeName ` set (WorkerNodes m)"
    and "r \<noteq> Inr None"
    and "r = Inr (Some w) \<Longrightarrow> NodeName w \<in> NodeName ` set (WorkerNodes m)"
    by auto
qed

section \<open>The queue\<close>

fun send_all ::
  "('d, 'e, 'w, 'q) manager_env list \<Rightarrow> ('d, 'e, 'w) manager \<Rightarrow> ('d, 'e, 'w) manager go" where
  "send_all [] m = Returns m"
| "send_all (e # es) m = go_bind (SendWork e m) (send_all es)"

lemma existing_task_keeps:
  assumes "existing_task e te w m = Returns m'"
  shows "\<exists>cs rs. m' = m\<lparr>MCells := cs, requests := requests m @ rs\<rparr>
       \<and> rs \<in> {[], [DeleteRequest (''http://'' @ w @ ''/tasks/'' @ uuid_String e (task_id (EventTask te)))]}"
proof -
  let ?url = "''http://'' @ w @ ''/tasks/'' @ uuid_String e (task_id (EventTask te))"
  have "\<exists>r. m' = (case r of
      Inl (err :: go_error) \<Rightarrow> m
    | Inr (a, cs) \<Rightarrow>
        (if EventState te = Completed \<and> ValidStateTransition (State (Status (cs ! a))) (EventState te)
         then stopTask e w (uuid_String e (task_id (EventTask te))) (m\<lparr>MCells := cs\<rparr>)
         else m\<lparr>MCells := cs\<rparr>))"
    using assms unfolding existing_task_def Let_def
    by (elim go_bind_ReturnsE) (simp only: go.inject, rule exI, erule sym)
  then obtain r where r: "m' = (case r of
      Inl (err :: go_error) \<Rightarrow> m
    | Inr (a, cs) \<Rightarrow>
        (if EventState te = Completed \<and> ValidStateTransition (State (Status (cs ! a))) (EventState te)
         then stopTask e w (uuid_String e (task_id (EventTask te))) (m\<lparr>MCells := cs\<rparr>)
         else m\<lparr>MCells := cs\<rparr>))" ..
  have stop: "stopTask e w (uuid_String e (task_id (EventTask te))) m1
      = m1\<lparr>requests := requests m1 @ (if new_request e ?url = None then [DeleteRequest ?url] else [])\<rparr>" for m1
    by (simp add: stopTask_def Let_def split: option.split)
  show ?thesis
  proof (cases r)
    case (Inl err)
    have "m' = m\<lparr>MCells := MCells m, requests := requests m @ []\<rparr>"
      unfolding r Inl by (rule manager.equality) simp_all
    then show ?thesis by (intro exI conjI) (assumption, simp)
  next
    case (Inr p)
    then obtain a cs where p: "r = Inr (a, cs)" by (cases p) auto
    let ?rs = "if EventState te = Completed \<and> ValidStateTransition (State (Status (cs ! a))) (EventState te)
      \<and> new_request e ?url = None then [DeleteRequest ?url] else []"
    have "m' = m\<lparr>MCells := cs, requests := requests m @ ?rs\<rparr>"
      unfolding r p by (rule manager.equality) (auto simp: stop)
    then show ?thesis by (intro exI conjI) (assumption, simp)
  qed
qed

lemma post_event_Pending:
  "Pending (post_event e te w a m) = Pending m
   \<or> Pending (post_event e te w a m) = Pending m @ [QueuedTask (MCells m ! a)]"
  by (auto simp: post_event_def Let_def split: sum.splits prod.splits option.splits)

lemma post_event_failed:
  assumes "\<forall>url body. \<exists>err. http_post e url body = Inl err"
  shows "Pending (post_event e te w a m) = Pending m @ [QueuedTask (MCells m ! a)]"
proof -
  obtain f where "\<And>url body. http_post e url body = Inl (f url body)"
    using assms by metis
  then show ?thesis by (simp add: post_event_def Let_def)
qed

lemma place_task_Returns:
  assumes "place_task e te w m = Returns m'"
  obtains db where "m' = post_event e te w (length (MCells m))
    ((assign (task_id (EventTask te)) (NodeName w) m)
      \<lparr>MCells := MCells m @ [with_state Scheduled (EventTask te)], MTaskDb := db\<rparr>)"
proof -
  let ?m = "assign (task_id (EventTask te)) (NodeName w) m"
  let ?n = "?m\<lparr>MCells := MCells ?m @ [with_state Scheduled (EventTask te)]\<rparr>"
  have "\<exists>r. m' = post_event e te w (length (MCells ?m))
      (case r of Inl (err :: go_error) \<Rightarrow> ?n | Inr db \<Rightarrow> ?n\<lparr>MTaskDb := db\<rparr>)"
    using assms unfolding place_task_def Let_def
    by (elim go_bind_ReturnsE) (simp only: go.inject, rule exI, erule sym)
  then obtain r where m': "m' = post_event e te w (length (MCells ?m))
      (case r of Inl (err :: go_error) \<Rightarrow> ?n | Inr db \<Rightarrow> ?n\<lparr>MTaskDb := db\<rparr>)" ..
  have "(case r of Inl (err :: go_error) \<Rightarrow> ?n | Inr db \<Rightarrow> ?n\<lparr>MTaskDb := db\<rparr>)
      = ?m\<lparr>MCells := MCells m @ [with_state Scheduled (EventTask te)],
           MTaskDb := (case r of Inl err \<Rightarrow> MTaskDb m | Inr db \<Rightarrow> db)\<rparr>"
    by (rule manager.equality) (cases r; simp add: assign_def)+
  moreover have "MCells ?m = MCells m"
    by (simp add: assign_def)
  ultimately show thesis
    using m' that by simp
qed

lemma new_task_cases:
  assumes "new_task e te m = Returns m'"
  obtains (refused) err s ns where "SelectWorker e (EventTask te) m = Returns (Inl err, m')"
      and "m' = m\<lparr>MScheduler := s, WorkerNodes := ns\<rparr>"
      and "NodeName ` set ns \<subseteq> NodeName ` set (WorkerNodes m)"
  | (posted) w s ns db where
      "SelectWorker e (EventTask te) m = Returns (Inr (Some w), m\<lparr>MScheduler := s, WorkerNodes := ns\<rparr>)"
      and "NodeName ` set ns \<subseteq> NodeName ` set (WorkerNodes m)"
      and "NodeName w \<in> NodeName ` set (WorkerNodes m)"
      and "m' = post_event e te w (length (MCells m))
        ((assign (task_id (EventTask te)) (NodeName w) (m\<lparr>MScheduler := s, WorkerNodes := ns\<rparr>))
          \<lparr>MCells := MCells m @ [with_state Scheduled (EventTask te)], MTaskDb := db\<rparr>)"
proof -
  from assms obtain r m1 where sel: "SelectWorker e (EventTask te) m = Returns (r, m1)"
    and rest: "(case r of Inl err \<Rightarrow> Returns m1 | Inr None \<Rightarrow> Panics NilDereference
      | Inr (Some w) \<Rightarrow> place_task e te w m1) = Returns m'"
    unfolding new_task_def by (auto elim!: go_bind_ReturnsE)
  obtain s ns where m1: "m1 = m\<lparr>MScheduler := s, WorkerNodes := ns\<rparr>"
    and names: "NodeName ` set ns \<subseteq> NodeName ` set (WorkerNodes m)"
    using SelectWorker_facts(1) [OF sel] by blast
  show thesis
  proof (cases r)
    case (Inl err)
    with rest have "m' = m1" by simp
    with sel Inl m1 names show thesis by (intro refused [where err = err and s = s and ns = ns]) simp_all
  next
    case (Inr o')
    then obtain w where w: "r = Inr (Some w)"
      using SelectWorker_facts(2) [OF sel] by (cases o') auto
    with rest have "place_task e te w m1 = Returns m'" by simp
    then obtain db where "m' = post_event e te w (length (MCells m1))
        ((assign (task_id (EventTask te)) (NodeName w) m1)
          \<lparr>MCells := MCells m1 @ [with_state Scheduled (EventTask te)], MTaskDb := db\<rparr>)"
      by (rule place_task_Returns)
    then show thesis
      using sel w m1 names SelectWorker_facts(3) [OF sel w]
      by (intro posted [where w = w and s = s and ns = ns and db = db]) simp_all
  qed
qed

text \<open>The event taken off the queue and stored.\<close>

lemma SendWork_cases:
  assumes "SendWork e m = Returns m'"
  obtains (idle) "Pending m = []" and "m' = m"
  | (event) te q edb where "Pending m = QueuedEvent te # q"
      and "(case map_of (TaskWorkerMap m) (task_id (EventTask te)) of
          Some w \<Rightarrow> existing_task e te w (m\<lparr>Pending := q, MEvents := MEvents m @ [te], MEventDb := edb\<rparr>)
        | None \<Rightarrow> new_task e te (m\<lparr>Pending := q, MEvents := MEvents m @ [te], MEventDb := edb\<rparr>)) = Returns m'"
proof (cases "Pending m")
  case Nil
  with assms have "m' = m" by (simp add: SendWork_def)
  with Nil show thesis by (rule idle)
next
  case (Cons x q)
  show thesis
  proof (cases x)
    case (QueuedTask t)
    with assms Cons show thesis by (simp add: SendWork_def)
  next
    case (QueuedEvent te)
    let ?m = "m\<lparr>Pending := q, MEvents := MEvents m @ [te]\<rparr>"
    let ?after = "\<lambda>r. case r of Inl (err :: go_error) \<Rightarrow> ?m | Inr db \<Rightarrow> ?m\<lparr>MEventDb := db\<rparr>"
    have same: "TaskWorkerMap (?after r) = TaskWorkerMap m" for r
      by (cases r) simp_all
    have "go_bind (event_ops e (uuid_String e (EventID te)) (length (MEvents ?m) - 1) (MEvents ?m) (MEventDb ?m))
        (\<lambda>r. case map_of (TaskWorkerMap (?after r)) (task_id (EventTask te)) of
            Some w \<Rightarrow> existing_task e te w (?after r) | None \<Rightarrow> new_task e te (?after r)) = Returns m'"
      using assms by (simp only: SendWork_def Cons QueuedEvent Let_def list.case queued.case)
    then obtain r where "(case map_of (TaskWorkerMap m) (task_id (EventTask te)) of
          Some w \<Rightarrow> existing_task e te w (?after r) | None \<Rightarrow> new_task e te (?after r)) = Returns m'"
      unfolding same go_bind_Returns_iff by blast
    moreover have "(case r of Inl (err :: go_error) \<Rightarrow> ?m | Inr db \<Rightarrow> ?m\<lparr>MEventDb := db\<rparr>)
        = m\<lparr>Pending := q, MEvents := MEvents m @ [te],
            MEventDb := (case r of Inl err \<Rightarrow> MEventDb m | Inr db \<Rightarrow> db)\<rparr>"
      by (cases r) simp_all
    ultimately have "(case map_of (TaskWorkerMap m) (task_id (EventTask te)) of
        Some w \<Rightarrow> existing_task e te w (m\<lparr>Pending := q, MEvents := MEvents m @ [te],
          MEventDb := (case r of Inl err \<Rightarrow> MEventDb m | Inr db \<Rightarrow> db)\<rparr>)
      | None \<Rightarrow> new_task e te (m\<lparr>Pending := q, MEvents := MEvents m @ [te],
          MEventDb := (case r of Inl err \<Rightarrow> MEventDb m | Inr db \<Rightarrow> db)\<rparr>)) = Returns m'"
      by (elim subst) (rule refl)
    then show thesis
      using Cons QueuedEvent
      by (intro event [where te = te and q = q
        and edb = "case r of Inl (err :: go_error) \<Rightarrow> MEventDb m | Inr db \<Rightarrow> db"]) simp_all
  qed
qed

lemma SendWork_Pending:
  assumes "SendWork e m = Returns m'" and "Pending m = x # q"
  shows "Pending m' = q \<or> (\<exists>t. Pending m' = q @ [QueuedTask t])"
  using assms(1)
proof (cases rule: SendWork_cases)
  case (event te q' edb)
  with assms(2) have q: "q' = q" by simp
  show ?thesis
  proof (cases "map_of (TaskWorkerMap m) (task_id (EventTask te))")
    case (Some w)
    with event(2) have "existing_task e te w (m\<lparr>Pending := q, MEvents := MEvents m @ [te], MEventDb := edb\<rparr>) = Returns m'"
      by (simp add: q)
    from existing_task_keeps [OF this] show ?thesis by auto
  next
    case None
    with event(2) have "new_task e te (m\<lparr>Pending := q, MEvents := MEvents m @ [te], MEventDb := edb\<rparr>) = Returns m'"
      by (simp add: q)
    then show ?thesis
    proof (cases rule: new_task_cases)
      case (posted w s ns db)
      let ?n = "(assign (task_id (EventTask te)) (NodeName w)
          (m\<lparr>Pending := q, MEvents := MEvents m @ [te], MEventDb := edb, MScheduler := s, WorkerNodes := ns\<rparr>))
          \<lparr>MCells := MCells m @ [with_state Scheduled (EventTask te)], MTaskDb := db\<rparr>"
      have "Pending ?n = q"
        by (simp add: assign_def)
      then show ?thesis
        using post_event_Pending [of e te w "length (MCells m)" ?n] posted(4) by auto
    qed simp
  qed
qed (use assms(2) in simp)

lemma queued_task_panics:
  "k < length (Pending m) \<Longrightarrow> Pending m ! k = QueuedTask t \<Longrightarrow> length es = Suc k \<Longrightarrow>
     \<exists>p. send_all es m = Panics p"
proof (induction k arbitrary: m es)
  case 0
  then show ?case
    by (cases es; cases "Pending m") (auto simp: SendWork_def)
next
  case (Suc k)
  then obtain e es' x q where es: "es = e # es'" and m: "Pending m = x # q"
    by (cases es; cases "Pending m") auto
  show ?case
  proof (cases "SendWork e m")
    case (Panics p)
    then show ?thesis by (simp add: es)
  next
    case (Returns m')
    then have "Pending m' = q \<or> (\<exists>t. Pending m' = q @ [QueuedTask t])"
      using SendWork_Pending m by blast
    then have "k < length (Pending m')" and "Pending m' ! k = QueuedTask t"
      using Suc.prems m by (auto simp: nth_append)
    with Suc.IH [of m' es'] Suc.prems es Returns show ?thesis by simp
  qed
qed

lemma demo_send:
  "\<exists>m. SendWork (demo_manager_env down reports) (Manager_AddTask demo_event demo_manager) = Returns m
     \<and> map_of (TaskWorkerMap m) 7 = Some ''w1''
     \<and> Pending m = (if down then [QueuedTask (with_state Scheduled (EventTask demo_event))] else [])
     \<and> MTaskDb m = MemoryTaskStore \<lparr>Db = [(show_nat 7, 0)]\<rparr>
     \<and> MCells m = [if down then with_state Scheduled (EventTask demo_event) else demo_task Running ''c1'']"
  by (simp add: SendWork_def Manager_AddTask_def demo_manager_def initial_manager_def demo_manager_env_def
      any_event_ops_def InMemoryTaskEventStore_Put_def new_task_def SelectWorker_def new_scheduler_def
      SelectCandidateNodes_def RoundRobin_SelectCandidateNodes_def NewNode_def Node.defs Score_def
      RoundRobin_Score_def Let_def Pick_def RoundRobin_Pick_def write_node_def place_task_def assign_def
      any_task_ops_def mem_ops_def InMemoryTaskStore_Put_def post_event_def task_id_def demo_event_def
      demo_task_def NewTask_def with_state_def NewInMemoryTaskStore_def node_cell.defs)

text \<open>C17: If the workers cannot be reached, the event of a new task is either dropped without a
  trace, because no node is a candidate, or its task is put in the queue in place of the event: then
  the manager is bound to panic when its turn comes, however the workers answer by then.\<close>

theorem failed_post_stops_manager:
  assumes "SendWork e m = Returns m'" and "Pending m = QueuedEvent te # q"
    and "map_of (TaskWorkerMap m) (task_id (EventTask te)) = None"
    and "\<forall>url body. \<exists>err. http_post e url body = Inl err"
  shows "Pending m' = q \<and> requests m' = requests m
    \<or> Pending m' = q @ [QueuedTask (with_state Scheduled (EventTask te))]
      \<and> (\<forall>es. length es = Suc (length q) \<longrightarrow> (\<exists>p. send_all es m' = Panics p))"
  using assms(1)
proof (cases rule: SendWork_cases)
  case (event te' q' edb)
  with assms(2,3)
  have "new_task e te (m\<lparr>Pending := q, MEvents := MEvents m @ [te], MEventDb := edb\<rparr>) = Returns m'"
    by simp
  then show ?thesis
  proof (cases rule: new_task_cases)
    case (refused err s ns)
    then show ?thesis by simp
  next
    case (posted w s ns db)
    have "Pending m' = q @ [QueuedTask (with_state Scheduled (EventTask te))]"
      by (simp add: posted(4) post_event_failed [OF assms(4)] assign_def)
    then show ?thesis
      using queued_task_panics [of "length q" m' "with_state Scheduled (EventTask te)"] by auto
  qed
qed (use assms(2) in simp)

lemma failed_post_stops_manager_witness:
  "\<exists>m. SendWork (demo_manager_env True []) (Manager_AddTask demo_event demo_manager) = Returns m
     \<and> Pending m = [QueuedTask (with_state Scheduled (EventTask demo_event))]
     \<and> (\<forall>es. length es = 1 \<longrightarrow> (\<exists>p. send_all es m = Panics p))"
proof -
  obtain m where m: "SendWork (demo_manager_env True []) (Manager_AddTask demo_event demo_manager) = Returns m"
    "Pending m = [QueuedTask (with_state Scheduled (EventTask demo_event))]"
    using demo_send [of True "[]"] by auto
  have "\<forall>es. length es = 1 \<longrightarrow> (\<exists>p. send_all es m = Panics p)"
    using failed_post_stops_manager [OF m(1), of demo_event "[]"] m(2)
    by (simp add: Manager_AddTask_def demo_manager_def initial_manager_def demo_manager_env_def)
  with m show ?thesis by blast
qed

section \<open>Runs\<close>

text \<open>The operations the manager's goroutines and its clients interleave.\<close>

datatype ('d, 'e, 'w, 'q) manager_op =
    Adds TaskEvent
  | Sends "('d, 'e, 'w, 'q) manager_env"
  | Updates "('d, 'e, 'w, 'q) manager_env"
  | Checks "('d, 'e, 'w, 'q) manager_env"
  | Collects "('d, 'e, 'w, 'q) manager_env"

fun manager_run ::
  "('d, 'e, 'w, 'q) manager_op list \<Rightarrow> ('d, 'e, 'w) manager \<Rightarrow> ('d, 'e, 'w) manager go" where
  "manager_run [] m = Returns m"
| "manager_run (Adds te # ops) m = manager_run ops (Manager_AddTask te m)"
| "manager_run (Sends e # ops) m = go_bind (SendWork e m) (manager_run ops)"
| "manager_run (Updates e # ops) m = go_bind (updateTasks e m) (manager_run ops)"
| "manager_run (Checks e # ops) m = go_bind (doHealthChecks e m) (manager_run ops)"
| "manager_run (Collects e # ops) m = manager_run ops (UpdateNodeStats_round e m)"

section \<open>The bookkeeping of tasks and workers\<close>

definition booked :: "string set \<Rightarrow> ('d, 'e, 'w) manager \<Rightarrow> bool" where
  "booked W m \<longleftrightarrow>
     dom (map_of (WorkerTaskMap m)) = W
     \<and> NodeName ` set (WorkerNodes m) \<subseteq> W
     \<and> (\<forall>w ids. map_of (WorkerTaskMap m) w = Some ids \<longrightarrow> distinct ids)
     \<and> (\<forall>tid w. map_of (TaskWorkerMap m) tid = Some w \<longleftrightarrow>
          (\<exists>ids. map_of (WorkerTaskMap m) w = Some ids \<and> tid \<in> set ids))
     \<and> MWorker m = None"

text \<open>What \<open>booked\<close> depends on.\<close>

definition books_of ::
  "('d, 'e, 'w) manager \<Rightarrow>
   uuid list gomap \<times> (uuid \<times> string) list \<times> string list \<times> (dispatcher \<times> 'w worker_service) option" where
  "books_of m = (WorkerTaskMap m, TaskWorkerMap m, MWorkers m, MWorker m)"

lemma booked_cong:
  assumes "books_of m' = books_of m" and "NodeName ` set (WorkerNodes m') \<subseteq> NodeName ` set (WorkerNodes m)"
    and "booked W m"
  shows "booked W m'"
proof -
  have "NodeName ` set (WorkerNodes m) \<subseteq> W"
    using assms(3) by (simp add: booked_def)
  with assms(2) have "NodeName ` set (WorkerNodes m') \<subseteq> W"
    by (rule subset_trans)
  with assms(1,3) show ?thesis
    unfolding booked_def books_of_def by auto
qed

lemma worker_maps_lookup:
  "map_of (worker_maps ws m) w = (if w \<in> set ws then Some [] else map_of m w)"
  by (induction ws arbitrary: m) simp_all

lemma worker_nodes_names: "NodeName ` set (worker_nodes a ws) = set ws"
  by (induction ws arbitrary: a) (auto simp: NewNode_def Node.defs)

lemma NewManager_initial:
  "NewManager b open_file ws st db = Returns (Inr m) \<Longrightarrow> \<exists>ts es. m = initial_manager ws st ts es"
  by (auto simp: NewManager_def elim!: go_bind_ReturnsE split: if_splits sum.splits)
    (rule exI, rule exI, rule refl)+

lemma NewManager_booked: "NewManager b open_file ws st db = Returns (Inr m) \<Longrightarrow> booked (set ws) m"
  using worker_nodes_names [of 0 ws]
  by (auto dest!: NewManager_initial simp: initial_manager_def booked_def worker_maps_lookup dom_def
      split: if_splits)

lemma assign_booked:
  assumes "booked W m" and "map_of (TaskWorkerMap m) tid = None" and "w \<in> W"
  shows "booked W (assign tid w m)"
proof -
  obtain ids where ids: "map_of (WorkerTaskMap m) w = Some ids"
    using assms(1,3) unfolding booked_def by blast
  have "tid \<notin> set ids" and "distinct ids"
    using assms(1,2) ids unfolding booked_def by (metis option.distinct(1), blast)
  moreover have "tid \<notin> set ids'" if "map_of (WorkerTaskMap m) w' = Some ids'" for w' ids'
    using assms(1,2) that unfolding booked_def by (metis option.distinct(1))
  moreover have "dom (map_of (AList.update w (ids @ [tid]) (WorkerTaskMap m))) = W"
    using assms(1,3) unfolding booked_def by (auto simp: dom_def split: if_splits)
  moreover have "(map_of (AList.update tid w (TaskWorkerMap m)) tid' = Some w') \<longleftrightarrow>
      (\<exists>ids'. map_of (AList.update w (ids @ [tid]) (WorkerTaskMap m)) w' = Some ids' \<and> tid' \<in> set ids')"
    for tid' w'
  proof -
    have "(map_of (TaskWorkerMap m) tid' = Some w') \<longleftrightarrow>
        (\<exists>ids'. map_of (WorkerTaskMap m) w' = Some ids' \<and> tid' \<in> set ids')"
      using assms(1) unfolding booked_def by blast
    then show ?thesis
      using ids calculation(3) by auto
  qed
  ultimately show ?thesis
    using assms(1) ids unfolding booked_def assign_def by auto
qed

lemma post_event_books:
  "books_of (post_event e te w a m) = books_of m"
  "NodeName ` set (WorkerNodes (post_event e te w a m)) \<subseteq> NodeName ` set (WorkerNodes m)"
proof -
  have count: "NodeName ` set (ns[i := (ns ! i)\<lparr>NodeTaskCount := c\<rparr>]) \<subseteq> NodeName ` set ns"
    for ns :: "node_cell list" and i c
  proof (cases "i < length ns")
    case True
    then have "set (ns[i := (ns ! i)\<lparr>NodeTaskCount := c\<rparr>]) \<subseteq> insert ((ns ! i)\<lparr>NodeTaskCount := c\<rparr>) (set ns)"
      and "ns ! i \<in> set ns"
      by (simp_all add: set_update_subset_insert)
    then show ?thesis by fastforce
  qed (simp add: not_less list_update_beyond)
  show "books_of (post_event e te w a m) = books_of m"
    by (simp add: post_event_def books_of_def Let_def split: sum.split prod.split option.split)
  show "NodeName ` set (WorkerNodes (post_event e te w a m)) \<subseteq> NodeName ` set (WorkerNodes m)"
    using count [of "WorkerNodes m"]
    by (simp add: post_event_def Let_def split: sum.split prod.split option.split)
qed

lemma SendWork_booked:
  assumes "SendWork e m = Returns m'" and "booked W m"
  shows "booked W m'"
  using assms(1)
proof (cases rule: SendWork_cases)
  case (event te q edb)
  let ?m = "m\<lparr>Pending := q, MEvents := MEvents m @ [te], MEventDb := edb\<rparr>"
  have start: "booked W ?m"
    by (rule booked_cong [OF _ _ assms(2)]) (simp_all add: books_of_def)
  show ?thesis
  proof (cases "map_of (TaskWorkerMap m) (task_id (EventTask te))")
    case (Some w)
    with event(2) have "existing_task e te w ?m = Returns m'" by simp
    from existing_task_keeps [OF this] show ?thesis
      by (auto intro!: booked_cong [OF _ _ start] simp: books_of_def)
  next
    case None
    with event(2) have "new_task e te ?m = Returns m'" by simp
    then show ?thesis
    proof (cases rule: new_task_cases)
      case (refused err s ns)
      then show ?thesis
        by (intro booked_cong [OF _ _ start]) (simp_all add: books_of_def)
    next
      case (posted w s ns db)
      let ?n = "?m\<lparr>MScheduler := s, WorkerNodes := ns\<rparr>"
      have n: "booked W ?n"
        by (rule booked_cong [OF _ _ start]) (use posted(2) in \<open>simp_all add: books_of_def\<close>)
      have "NodeName w \<in> W"
        using posted(3) assms(2) by (auto simp: booked_def)
      then have "booked W (assign (task_id (EventTask te)) (NodeName w) ?n)"
        using None by (intro assign_booked [OF n]) simp_all
      then have "booked W ((assign (task_id (EventTask te)) (NodeName w) ?n)
          \<lparr>MCells := MCells ?m @ [with_state Scheduled (EventTask te)], MTaskDb := db\<rparr>)"
        by (rule booked_cong [rotated 2]) (simp_all add: books_of_def)
      then show ?thesis
        unfolding posted(4) by (rule booked_cong [OF post_event_books])
    qed
  qed
qed (use assms(2) in simp)

text \<open>Polling the workers and checking the health of tasks write to tasks and requests only.\<close>

definition untouched where
  "untouched m = (Pending m, MEventDb m, MEvents m, MWorkers m, WorkerTaskMap m, TaskWorkerMap m,
     MLastWorker m, WorkerNodes m, MScheduler m, MWorker m)"

lemma untouched_books:
  "untouched m' = untouched m \<Longrightarrow> books_of m' = books_of m \<and> WorkerNodes m' = WorkerNodes m"
  by (simp add: untouched_def books_of_def)

lemma update_task_untouched:
  assumes "update_task e t m = Returns m'"
  shows "untouched m' = untouched m"
  using assms unfolding update_task_def Let_def
  by (auto simp: untouched_def elim!: go_bind_ReturnsE split: option.splits sum.splits prod.splits)

lemma update_all_untouched:
  "update_all e ts m = Returns m' \<Longrightarrow> untouched m' = untouched m"
  by (induction ts arbitrary: m) (auto elim!: go_bind_ReturnsE dest!: update_task_untouched)

lemma poll_workers_untouched:
  "poll_workers e ws m = Returns m' \<Longrightarrow> untouched m' = untouched m"
proof (induction ws arbitrary: m)
  case (Cons w ws)
  let ?m = "m\<lparr>requests := requests m @ [GetRequest (''http://'' @ w @ ''/tasks'')]\<rparr>"
  have m: "untouched ?m = untouched m"
    by (simp add: untouched_def)
  from Cons.prems have "poll_workers e ws ?m = Returns m'
      \<or> (\<exists>ts. go_bind (update_all e ts ?m) (poll_workers e ws) = Returns m')"
    by (auto simp: Let_def split: sum.splits if_splits)
  then show ?case
    using Cons.IH m by (auto elim!: go_bind_ReturnsE dest!: update_all_untouched)
qed simp

lemma worker_AddTask_untouched:
  "worker_AddTask e t m = Returns m' \<Longrightarrow> MWorker m = None \<Longrightarrow> m' = m"
  by (auto simp: worker_AddTask_def split: if_splits)

lemma check_task_untouched:
  assumes "check_task e a m = Returns m'" and "MWorker m = None"
  shows "untouched m' = untouched m"
proof -
  have restart: "untouched m2 = untouched m" if "restartTask e a m = Returns m2" for m2
    using that assms(2) unfolding restartTask_def Let_def
    by (auto simp: untouched_def elim!: go_bind_ReturnsE dest!: worker_AddTask_untouched split: sum.splits)
  show ?thesis
    using assms restart
    by (auto simp: check_task_def Let_def checkTaskHealth_def worker_CheckTaskHealth_def split: if_splits)
qed

lemma check_all_untouched:
  "check_all e as m = Returns m' \<Longrightarrow> MWorker m = None \<Longrightarrow>
     untouched m' = untouched m"
proof (induction as arbitrary: m)
  case (Cons a as)
  then obtain m1 where m1: "check_task e a m = Returns m1" and "check_all e as m1 = Returns m'"
    by (auto elim!: go_bind_ReturnsE)
  moreover have "untouched m1 = untouched m"
    by (rule check_task_untouched [OF m1 Cons.prems(2)])
  moreover from this have "MWorker m1 = None"
    using Cons.prems(2) by (simp add: untouched_def)
  ultimately show ?case using Cons.IH by auto
qed simp

lemma doHealthChecks_untouched:
  assumes "doHealthChecks e m = Returns m'" and "MWorker m = None"
  shows "untouched m' = untouched m"
proof -
  from assms(1) obtain as m1 where m1: "Manager_GetTasks e m = Returns (as, m1)" and all: "check_all e as m1 = Returns m'"
    unfolding doHealthChecks_def by (auto elim!: go_bind_ReturnsE)
  have "untouched m1 = untouched m"
    using m1 unfolding Manager_GetTasks_def
    by (auto simp: untouched_def elim!: go_bind_ReturnsE split: sum.splits prod.splits)
  moreover from this have "MWorker m1 = None"
    using assms(2) by (simp add: untouched_def)
  ultimately show ?thesis using check_all_untouched [OF all] by simp
qed

lemma UpdateNodeStats_names:
  "NodeName ` set (WorkerNodes (UpdateNodeStats_round e m)) = NodeName ` set (WorkerNodes m)"
  by (simp add: UpdateNodeStats_round_def image_image Node_GetStats_keeps)

lemma manager_run_booked:
  "manager_run ops m = Returns m' \<Longrightarrow> booked W m \<Longrightarrow> booked W m'"
proof (induction ops m rule: manager_run.induct)
  case (2 te ops m)
  have "booked W (Manager_AddTask te m)"
    by (rule booked_cong [OF _ _ 2(3)]) (simp_all add: books_of_def Manager_AddTask_def)
  with 2 show ?case by simp
next
  case (3 e ops m)
  then show ?case
    by (auto elim!: go_bind_ReturnsE dest: SendWork_booked)
next
  case (4 e ops m)
  then obtain m1 where m1: "updateTasks e m = Returns m1" and "manager_run ops m1 = Returns m'"
    by (auto elim!: go_bind_ReturnsE)
  moreover have "booked W m1"
    using untouched_books [OF poll_workers_untouched [OF m1 [unfolded updateTasks_def]]] by (intro booked_cong [OF _ _ 4(3)]) auto
  ultimately show ?case using 4(1) by blast
next
  case (5 e ops m)
  then obtain m1 where m1: "doHealthChecks e m = Returns m1" and "manager_run ops m1 = Returns m'"
    by (auto elim!: go_bind_ReturnsE)
  moreover have "booked W m1"
    using untouched_books [OF doHealthChecks_untouched [OF m1]] 5(3)
    by (intro booked_cong [OF _ _ 5(3)]) (auto simp: booked_def)
  ultimately show ?case using 5(1) by blast
next
  case (6 e ops m)
  have "booked W (UpdateNodeStats_round e m)"
    by (rule booked_cong [OF _ _ 6(3)]) (simp add: UpdateNodeStats_round_def books_of_def,
        simp add: UpdateNodeStats_names)
  with 6 show ?case by simp
qed simp

text \<open>C3: Whatever the goroutines of a manager and its clients do, the two maps of a manager, from
  its constructor on, are inverse to each other: a task is listed under exactly one of the workers given to
  it, the one it is mapped to, and once. No other worker gets an entry, and the field for the worker
  service stays nil.\<close>

theorem manager_books_agree:
  assumes "NewManager b open_file ws st db = Returns (Inr m)" and "manager_run ops m = Returns m'"
  shows "dom (map_of (WorkerTaskMap m')) = set ws
    \<and> (\<forall>tid w. map_of (TaskWorkerMap m') tid = Some w \<longleftrightarrow>
         (\<exists>ids. map_of (WorkerTaskMap m') w = Some ids \<and> tid \<in> set ids))
    \<and> (\<forall>w ids. map_of (WorkerTaskMap m') w = Some ids \<longrightarrow> distinct ids)
    \<and> MWorker m' = None"
  using manager_run_booked [OF assms(2) NewManager_booked [OF assms(1)]] unfolding booked_def by blast


lemma manager_books_agree_witness:
  "\<exists>m m'. NewManager map_bolt (\<lambda>_. Inr []) [''w1''] ''roundrobin'' ''memory''
       = Returns (Inr (m :: (map_db any_store, map_db any_event_store, InMemoryTaskStore) manager))
     \<and> manager_run [Adds demo_event, Sends (demo_manager_env False [])] m = Returns m'
     \<and> map_of (TaskWorkerMap m') 7 = Some ''w1''
     \<and> (\<exists>ids. map_of (WorkerTaskMap m') ''w1'' = Some ids \<and> distinct ids \<and> 7 \<in> set ids)"
proof -
  have new: "NewManager map_bolt (\<lambda>_. Inr []) [''w1''] ''roundrobin'' ''memory'' = Returns (Inr demo_manager)"
    by (simp add: NewManager_def demo_manager_def)
  obtain m where m: "SendWork (demo_manager_env False []) (Manager_AddTask demo_event demo_manager) = Returns m"
    "map_of (TaskWorkerMap m) 7 = Some ''w1''"
    using demo_send [of False "[]"] by auto
  have run: "manager_run [Adds demo_event, Sends (demo_manager_env False [])] demo_manager = Returns m"
    by (simp add: m(1))
  show ?thesis
    using new run m(2) manager_books_agree [OF new run] by blast
qed

end
