(* ===== verification/Manager_Updates.thy ===== *)
theory Manager_Updates
  imports Manager_Properties
begin

text \<open>
  The manager and its task store: the store behind the interface keeps the contract of \<open>Task_Db\<close>,
  what polling the workers and checking the health of tasks do to the tasks stored, and what the answer
  to a post does to the task that was put.
\<close>

section \<open>Polling the workers\<close>

text \<open>The manager with a working store whose keys are never empty.\<close>

definition managing ::
  "'d store_ops \<Rightarrow> (Task list \<Rightarrow> 'd \<Rightarrow> bool) \<Rightarrow> ('d, 'e, 'w, 'q) manager_env \<Rightarrow> ('d, 'e, 'w) manager \<Rightarrow> bool"
where
  "managing ops ok e m \<longleftrightarrow>
     task_ops e = ops \<and> ok (MCells m) (MTaskDb m) \<and> (\<forall>u. uuid_String e u \<noteq> '''')"

text \<open>Every task is stored under its own identifier.\<close>

definition filed :: "('d, 'e, 'w, 'q) manager_env \<Rightarrow> (string \<Rightarrow> Task option) \<Rightarrow> bool" where
  "filed e v \<longleftrightarrow> (\<forall>k t. v k = Some t \<longrightarrow> uuid_String e (task_id t) = k)"

text \<open>
  What one report \<open>t\<close> makes of the tasks stored, when a put keeps \<open>f\<close> of a task: nothing if the manager does not
  know the task; otherwise its state, times and container become those of the report, and nothing is asked of the state.
\<close>

definition report ::
  "(Task \<Rightarrow> Task res) \<Rightarrow> ('d, 'e, 'w, 'q) manager_env \<Rightarrow> Task \<Rightarrow> (string \<Rightarrow> Task option) \<Rightarrow>
   string \<Rightarrow> Task option" where
  "report f e t v =
     (case v (uuid_String e (task_id t)) of
        None \<Rightarrow> v
      | Some s \<Rightarrow>
          kept f (uuid_String e (task_id t))
            (s\<lparr>Status := (Status s)
                \<lparr>State := State (Status t), StartTime := StartTime (Status t),
                 FinishTime := FinishTime (Status t), ContainerID := ContainerID (Status t)\<rparr>\<rparr>) v)"

definition tasks_url :: "string \<Rightarrow> string" where
  "tasks_url worker = ''http://'' @ worker @ ''/tasks''"

definition reports :: "('d, 'e, 'w, 'q) manager_env \<Rightarrow> string \<Rightarrow> Task option list" where
  "reports e worker =
     (case http_tasks e (tasks_url worker) of
        Inl err \<Rightarrow> []
      | Inr resp \<Rightarrow> if TasksStatus resp = 200 then TasksDecoded resp else [])"

lemma take_over_report:
  "take_over t s = s\<lparr>Status := (Status s)
     \<lparr>State := State (Status t), StartTime := StartTime (Status t),
      FinishTime := FinishTime (Status t), ContainerID := ContainerID (Status t)\<rparr>\<rparr>"
  by (simp add: take_over_def with_state_def Let_def)

lemma task_id_take_over [simp]: "task_id (take_over t s) = task_id s"
  by (simp add: take_over_report task_id_def)

lemma report_take_over:
  "report f e t v =
     (case v (uuid_String e (task_id t)) of
        None \<Rightarrow> v | Some s \<Rightarrow> kept f (uuid_String e (task_id t)) (take_over t s) v)"
  unfolding report_def take_over_report by (rule refl)

lemma report_filed:
  assumes "filed e v" and "\<And>t u. f t = Inr u \<Longrightarrow> task_id u = task_id t"
  shows "filed e (report f e t v)"
proof (cases "v (uuid_String e (task_id t))")
  case None
  with assms(1) show ?thesis by (simp add: report_def)
next
  case (Some s)
  then have "uuid_String e (task_id (take_over t s)) = uuid_String e (task_id t)"
    using assms(1) by (simp add: filed_def)
  with Some assms show ?thesis
    by (cases "f (take_over t s)") (auto simp: report_take_over filed_def split: if_splits)
qed

context task_db
begin

abbreviation view where
  "view m \<equiv> val (MCells m) (MTaskDb m)"

lemma keeps_id: "managing ops inv e m \<Longrightarrow> keeps (MTaskDb m) t = Inr u \<Longrightarrow> task_id u = task_id t"
  using keeps_fields by (auto simp: managing_def decoded_as_def task_id_def)

lemma update_task_view:
  assumes "managing ops inv e m" and "filed e (view m)"
  obtains m' where "update_task e (Some t) m = Returns m'" and "managing ops inv e m'"
    and "view m' = report (keeps (MTaskDb m)) e t (view m)" and "requests m' = requests m"
    and "keeps (MTaskDb m') = keeps (MTaskDb m)"
proof -
  let ?k = "uuid_String e (task_id t)"
  have inv: "inv (MCells m) (MTaskDb m)" and ops: "task_ops e = ops" and key: "?k \<noteq> ''''"
    using assms(1) by (simp_all add: managing_def)
  show thesis
  proof (cases "view m ?k")
    case None
    then obtain err where "op_Get ops ?k (MCells m) (MTaskDb m) = Returns (Inl err)"
      using get_None [OF inv] by blast
    then have "update_task e (Some t) m = Returns m"
      by (simp add: update_task_def ops)
    moreover have "report (keeps (MTaskDb m)) e t (view m) = view m"
      using None by (simp add: report_def)
    ultimately show thesis
      using assms(1) by (intro that [of m]) simp_all
  next
    case (Some s)
    then obtain a cs where a: "op_Get ops ?k (MCells m) (MTaskDb m) = Returns (Inr (a, cs))"
      "extends (MCells m) cs" "a < length cs" "cs ! a = s" "\<forall>k'. refs (MTaskDb m) k' = Some a \<longrightarrow> k' = ?k"
      using get_Some [OF inv] by blast
    note inv' = inv_extends [OF inv a(2)]
    have id: "uuid_String e (task_id s) = ?k"
      using assms(2) Some by (simp add: filed_def)
    show thesis
    proof (cases "keeps (MTaskDb m) (take_over t s)")
      case (Inl err)
      note no = write_refused [OF inv' a(3) Inl]
      have "update_task e (Some t) m = Returns (m\<lparr>MCells := cs[a := take_over t s]\<rparr>)"
        using a(1,4) no(1) id by (simp add: update_task_def ops Let_def)
      then show thesis
        using assms(1) no(2,3) val_extends [OF inv a(2)] Some Inl
        by (intro that [of "m\<lparr>MCells := cs[a := take_over t s]\<rparr>"])
          (simp_all add: managing_def report_take_over)
    next
      case (Inr u)
      obtain d where d: "op_Put ops ?k a (cs[a := take_over t s]) (MTaskDb m) = Returns (Inr d)"
        "inv (cs[a := take_over t s]) d"
        "val (cs[a := take_over t s]) d = (val cs (MTaskDb m))(?k \<mapsto> u)" "keeps d = keeps (MTaskDb m)"
        using write_put [OF inv' a(3) key a(5) Inr] by blast
      have "update_task e (Some t) m
          = Returns (m\<lparr>MCells := cs[a := take_over t s], MTaskDb := d\<rparr>)"
        using a(1,4) d(1) id by (simp add: update_task_def ops Let_def)
      moreover have "val (cs[a := take_over t s]) d = report (keeps (MTaskDb m)) e t (view m)"
        using d(3) val_extends [OF inv a(2)] Some Inr by (simp add: report_take_over)
      ultimately show thesis
        using assms(1) d(2,4)
        by (intro that [of "m\<lparr>MCells := cs[a := take_over t s], MTaskDb := d\<rparr>"]) (simp_all add: managing_def)
    qed
  qed
qed

lemma update_all_view:
  assumes "managing ops inv e m" and "filed e (view m)"
  shows "if None \<in> set ts then update_all e ts m = Panics NilDereference
    else \<exists>m'. update_all e ts m = Returns m' \<and> managing ops inv e m' \<and> filed e (view m')
      \<and> view m' = fold (report (keeps (MTaskDb m)) e) (map the ts) (view m) \<and> requests m' = requests m
      \<and> keeps (MTaskDb m') = keeps (MTaskDb m)"
  using assms
proof (induction ts arbitrary: m)
  case (Cons x ts)
  show ?case
  proof (cases x)
    case None
    then show ?thesis by (simp add: update_task_def)
  next
    case (Some t)
    obtain m1 where m1: "update_task e (Some t) m = Returns m1" "managing ops inv e m1"
      "view m1 = report (keeps (MTaskDb m)) e t (view m)" "requests m1 = requests m"
      "keeps (MTaskDb m1) = keeps (MTaskDb m)"
      by (rule update_task_view [OF Cons.prems, of t])
    moreover from this have "filed e (view m1)"
      using report_filed [OF Cons.prems(2)] keeps_id [OF Cons.prems(1)] by simp
    ultimately show ?thesis
      using Cons.IH [of m1] Some by auto
  qed
qed simp

lemma poll_workers_view:
  assumes "managing ops inv e m" and "filed e (view m)"
  shows "if None \<in> set (concat (map (reports e) ws)) then poll_workers e ws m = Panics NilDereference
    else \<exists>m'. poll_workers e ws m = Returns m' \<and> managing ops inv e m' \<and> filed e (view m')
      \<and> view m' = fold (report (keeps (MTaskDb m)) e) (map the (concat (map (reports e) ws))) (view m)
      \<and> keeps (MTaskDb m') = keeps (MTaskDb m)
      \<and> requests m' = requests m @ map (\<lambda>w. GetRequest (tasks_url w)) ws"
  using assms
proof (induction ws arbitrary: m)
  case (Cons w ws)
  let ?m = "m\<lparr>requests := requests m @ [GetRequest (tasks_url w)]\<rparr>"
  let ?ts = "reports e w"
  have m: "managing ops inv e ?m" "filed e (view ?m)"
    using Cons.prems by (simp_all add: managing_def)
  have poll: "poll_workers e (w # ws) m = go_bind (update_all e ?ts ?m) (poll_workers e ws)"
    by (auto simp: Let_def tasks_url_def reports_def split: sum.split)
  show ?case
  proof (cases "None \<in> set ?ts")
    case True
    then show ?thesis
      using update_all_view [OF m, of ?ts] poll by simp
  next
    case False
    then obtain m1 where "update_all e ?ts ?m = Returns m1" "managing ops inv e m1" "filed e (view m1)"
      "view m1 = fold (report (keeps (MTaskDb m)) e) (map the ?ts) (view m)" "requests m1 = requests ?m"
      "keeps (MTaskDb m1) = keeps (MTaskDb m)"
      using update_all_view [OF m, of ?ts] by auto
    then show ?thesis
      using Cons.IH [of m1] False poll by auto
  qed
qed simp

end

text \<open>C7: Polling the workers merges, for each report in the order of the workers and of their answers,
  the state, start and finish time and container of the report into the stored task, whatever state the task was in, and
  puts it back under its key; the rest of the task stays, tasks the manager does not know are skipped. What a put
  leaves is the task itself in a memory store; in a persistent one it is the decoding of its encoding, or nothing if
  it cannot be encoded. A nil entry in an answer makes the manager panic. The store is assumed to be in order: no two keys of a memory
  store share a cell, the bucket of a bolt store exists and its entries decode, and every task is stored under its
  own identifier; a poll leaves it so.\<close>

theorem poll_takes_over_reports:
  assumes "task_ops e = any_task_ops fmt_v iter b j"
    and "any_inv iter b j (MCells m) (MTaskDb m)" and "\<forall>u. uuid_String e u \<noteq> ''''"
    and "filed e (any_val b j (MCells m) (MTaskDb m))"
  shows "let rs = concat (map (reports e) (MWorkers m)); f = any_keeps j (MTaskDb m);
      store = (\<lambda>t v.
        let k = uuid_String e (MetaID (Metadata t)) in
        case v k of
          None \<Rightarrow> v
        | Some s \<Rightarrow> kept f k (s\<lparr>Status := (Status s)
            \<lparr>State := State (Status t), StartTime := StartTime (Status t),
             FinishTime := FinishTime (Status t), ContainerID := ContainerID (Status t)\<rparr>\<rparr>) v) in
    if None \<in> set rs then updateTasks e m = Panics NilDereference
    else \<exists>m'. updateTasks e m = Returns m' \<and> any_inv iter b j (MCells m') (MTaskDb m')
      \<and> filed e (any_val b j (MCells m') (MTaskDb m'))
      \<and> any_val b j (MCells m') (MTaskDb m')
          = fold store (map the rs) (any_val b j (MCells m) (MTaskDb m))
      \<and> requests m' = requests m @ map (\<lambda>w. GetRequest (tasks_url w)) (MWorkers m)"
proof -
  have "managing (any_task_ops fmt_v iter b j) (any_inv iter b j) e m"
    using assms(1-3) by (simp add: managing_def)
  note poll = any_db.poll_workers_view [OF this assms(4), of "MWorkers m"]
  have "report (any_keeps j (MTaskDb m)) e = (\<lambda>t v.
      case v (uuid_String e (MetaID (Metadata t))) of
        None \<Rightarrow> v
      | Some s \<Rightarrow> kept (any_keeps j (MTaskDb m)) (uuid_String e (MetaID (Metadata t))) (s\<lparr>Status := (Status s)
          \<lparr>State := State (Status t), StartTime := StartTime (Status t),
           FinishTime := FinishTime (Status t), ContainerID := ContainerID (Status t)\<rparr>\<rparr>) v)"
    unfolding report_def task_id_def by (intro ext) (rule refl)
  with poll show ?thesis
    by (auto simp: updateTasks_def Let_def managing_def)
qed

section \<open>Health checks\<close>

definition at_risk :: "Task \<Rightarrow> bool" where
  "at_risk t \<longleftrightarrow>
     (State (Status t) = Running \<or> State (Status t) = Failed) \<and> sint (RestartCount (Status t)) < 3"

lemma restartTask_panics:
  assumes "MWorker m = None"
  shows "\<exists>p. restartTask e a m = Panics p"
proof (cases "restartTask e a m")
  case (Returns m')
  then show ?thesis
    using assms
    by (auto simp: restartTask_def Let_def worker_AddTask_def restarted_def with_state_def
        elim!: go_bind_ReturnsE split: sum.splits)
qed blast

lemma check_task_without_worker:
  assumes "MWorker m = None"
  shows "if at_risk (MCells m ! a) then \<exists>p. check_task e a m = Panics p else check_task e a m = Returns m"
  using restartTask_panics [OF assms, of e a] assms
  by (auto simp: check_task_def Let_def at_risk_def checkTaskHealth_def worker_CheckTaskHealth_def)

lemma check_all_without_worker:
  assumes "MWorker m = None"
  shows "if \<exists>a\<in>set as. at_risk (MCells m ! a) then \<exists>p. check_all e as m = Panics p
    else check_all e as m = Returns m"
proof (induction as)
  case (Cons a as)
  then show ?case
    using check_task_without_worker [OF assms, of a e]
    by (cases "at_risk (MCells m ! a)") auto
qed simp

context task_db
begin

lemma doHealthChecks_without_worker:
  assumes "managing ops inv e m" and "MWorker m = None"
  shows "if \<exists>k t. view m k = Some t \<and> at_risk t then \<exists>p. doHealthChecks e m = Panics p
    else \<exists>m'. doHealthChecks e m = Returns m' \<and> view m' = view m"
proof -
  have inv: "inv (MCells m) (MTaskDb m)" and ops: "task_ops e = ops"
    using assms(1) by (simp_all add: managing_def)
  obtain as cs where as: "op_List ops (MCells m) (MTaskDb m) = Returns (Inr (as, cs))"
    "extends (MCells m) cs" "\<forall>a\<in>set as. a < length cs \<and> (\<exists>k. view m k = Some (cs ! a))"
    "\<forall>k t. view m k = Some t \<longrightarrow> t \<in> (\<lambda>a. cs ! a) ` set as"
    using list_ok [OF inv] by blast
  let ?m = "m\<lparr>MCells := cs\<rparr>"
  have "doHealthChecks e m = check_all e as ?m"
    by (simp add: doHealthChecks_def Manager_GetTasks_def ops as(1))
  moreover have "(\<exists>a\<in>set as. at_risk (cs ! a)) \<longleftrightarrow> (\<exists>k t. view m k = Some t \<and> at_risk t)"
    using as(3,4) by fastforce
  moreover have "view ?m = view m"
    using val_extends [OF inv as(2)] by simp
  ultimately show ?thesis
    using check_all_without_worker [of ?m as e] assms(2) by (auto split: if_splits)
qed

end

lemma any_List_extends:
  assumes "op_List (any_task_ops fmt_v iter b j) m d = Returns (Inr (as, cs))"
  shows "\<exists>ts. cs = m @ ts"
  using assms
  by (cases d) (auto simp: any_task_ops_def mem_ops_def bolt_ops_def TaskStore_List_def bolt_View_def
      Let_def split: option.splits if_splits sum.splits)

text \<open>C15: A manager that its constructor made has no worker service, so in every run of it, whatever is sent and
  answered and whatever state its store is in, its health checks change no stored task: either they panic, exactly when listing the tasks
  does or a task the store lists is running or failed with fewer than three restarts, or they return with the store,
  the objects it was given, and everything else as they were.\<close>

theorem health_checks_panic_or_do_nothing:
  assumes "NewManager b open_file ws st db = Returns (Inr m)" and "manager_run ops m = Returns m'"
    and "task_ops e = any_task_ops fmt_v iter b j"
  shows "case Manager_GetTasks e m' of
      Panics p \<Rightarrow> doHealthChecks e m' = Panics p
    | Returns (as, u) \<Rightarrow>
        (\<exists>ts. u = m'\<lparr>MCells := MCells m' @ ts\<rparr>)
        \<and> (if \<exists>a\<in>set as. (State (Status (MCells u ! a)) = Running \<or> State (Status (MCells u ! a)) = Failed)
                \<and> sint (RestartCount (Status (MCells u ! a))) < 3
           then \<exists>p. doHealthChecks e m' = Panics p
           else doHealthChecks e m' = Returns u)"
proof (cases "Manager_GetTasks e m'")
  case (Panics p)
  then show ?thesis by (simp add: doHealthChecks_def)
next
  case (Returns r)
  obtain as u where r: "r = (as, u)"
    by (cases r)
  have ext: "\<exists>ts. u = m'\<lparr>MCells := MCells m' @ ts\<rparr>"
  proof -
    obtain x where x: "op_List (task_ops e) (MCells m') (MTaskDb m') = Returns x"
      "(case x of Inl err \<Rightarrow> ([], m') | Inr (as, cs) \<Rightarrow> (as, m'\<lparr>MCells := cs\<rparr>)) = (as, u)"
      using Returns unfolding r by (auto simp: Manager_GetTasks_def go_bind_Returns_iff)
    show ?thesis
    proof (cases x)
      case (Inl err)
      with x(2) show ?thesis by (auto intro: exI [of _ "[]"])
    next
      case (Inr p)
      obtain bs cs where p: "p = (bs, cs)"
        by (cases p)
      from any_List_extends [OF x(1) [unfolded assms(3) Inr p]] x(2) show ?thesis
        by (auto simp: Inr p)
    qed
  qed
  have "MWorker m' = None"
    using manager_run_booked [OF assms(2) NewManager_booked [OF assms(1)]] by (simp add: booked_def)
  with ext have "MWorker u = None"
    by auto
  from check_all_without_worker [OF this, of as e] show ?thesis
    using Returns r ext by (simp add: doHealthChecks_def at_risk_def)
qed

section \<open>The answer to a post\<close>

lemma post_event_tasks:
  "MTaskDb (post_event e te w a m) = MTaskDb m"
  "MCells (post_event e te w a m) =
     (case http_post e (tasks_url (NodeName w)) (case encode_event e te of Inl err \<Rightarrow> '''' | Inr text \<Rightarrow> text) of
        Inl err \<Rightarrow> MCells m
      | Inr resp \<Rightarrow>
          if PostStatus resp = 201 then (MCells m)[a := fst (PostDecode resp zero_Task)] else MCells m)"
  by (simp_all add: post_event_def Let_def tasks_url_def split: sum.split prod.split option.split)

text \<open>What is left in the variable of the task put, once its event has been posted.\<close>

definition after_post ::
  "('d, 'e, 'w, 'q) manager_env \<Rightarrow> TaskEvent \<Rightarrow> node_cell \<Rightarrow> Task" where
  "after_post e te w =
     (case http_post e (tasks_url (NodeName w)) (case encode_event e te of Inl err \<Rightarrow> '''' | Inr text \<Rightarrow> text) of
        Inl err \<Rightarrow> with_state Scheduled (EventTask te)
      | Inr resp \<Rightarrow>
          if PostStatus resp = 201 then fst (PostDecode resp zero_Task)
          else with_state Scheduled (EventTask te))"

lemma post_event_after:
  assumes "MCells m = cs @ [with_state Scheduled (EventTask te)]"
  shows "MCells (post_event e te w (length cs) m) = cs @ [after_post e te w]"
  by (cases "http_post e (tasks_url (NodeName w)) (case encode_event e te of Inl err \<Rightarrow> '''' | Inr text \<Rightarrow> text)")
    (simp_all add: post_event_tasks(2) after_post_def assms)

lemma mem_put_appended:
  assumes "mem_inv iter m i" and "InMemoryTaskStore_Put fmt_v k (VTask (length m)) i = Inr i'"
  shows "mem_val (m @ [t]) i' = (mem_val m i)(k \<mapsto> t)"
proof
  fix k'
  have i': "mem_refs i' = (mem_refs i)(k \<mapsto> length m)"
    using assms(2) by (auto simp: InMemoryTaskStore_Put_def mem_refs_def fun_eq_iff)
  have "a < length m" if "mem_refs i k' = Some a" for a
    using mem_db.refs_bound [OF assms(1) that] .
  then show "mem_val (m @ [t]) i' k' = ((mem_val m i)(k \<mapsto> t)) k'"
    unfolding mem_val_def i' by (cases "mem_refs i k'") (simp_all add: nth_append)
qed

lemma place_task_view:
  assumes "task_ops e = any_task_ops fmt_v iter b j"
    and "any_inv iter b j (MCells m) (MTaskDb m)" and "\<forall>u. uuid_String e u \<noteq> ''''"
  shows "\<exists>m'. place_task e te w m = Returns m' \<and> any_inv iter b j (MCells m') (MTaskDb m')
    \<and> any_val b j (MCells m') (MTaskDb m')
      = kept (case MTaskDb m of MemoryTaskStore _ \<Rightarrow> (\<lambda>_. Inr (after_post e te w)) | _ \<Rightarrow> bolt_keeps j)
          (uuid_String e (task_id (EventTask te))) (with_state Scheduled (EventTask te))
          (any_val b j (MCells m) (MTaskDb m))"
proof -
  let ?k = "uuid_String e (task_id (EventTask te))" and ?t = "with_state Scheduled (EventTask te)"
  let ?cs = "MCells m" and ?n = "assign (task_id (EventTask te)) (NodeName w) m"
  have n: "MCells ?n = ?cs" "MTaskDb ?n = MTaskDb m"
    by (simp_all add: assign_def)
  have id: "task_id ?t = task_id (EventTask te)"
    by (simp add: task_id_def with_state_def)
  have no_put: "place_task e te w m = Returns m' \<and> MCells m' = ?cs @ [after_post e te w] \<and> MTaskDb m' = MTaskDb m"
    if "op_Put (task_ops e) ?k (length ?cs) (?cs @ [?t]) (MTaskDb m) = Returns (Inl err)"
      and "m' = post_event e te w (length ?cs) (?n\<lparr>MCells := ?cs @ [?t]\<rparr>)" for err m'
    using that by (simp add: place_task_def Let_def n id post_event_after post_event_tasks(1))
  have put: "place_task e te w m = Returns m' \<and> MCells m' = ?cs @ [after_post e te w] \<and> MTaskDb m' = d"
    if "op_Put (task_ops e) ?k (length ?cs) (?cs @ [?t]) (MTaskDb m) = Returns (Inr d)"
      and "m' = post_event e te w (length ?cs) (?n\<lparr>MCells := ?cs @ [?t], MTaskDb := d\<rparr>)" for d m'
    using that by (simp add: place_task_def Let_def n id post_event_after post_event_tasks(1))
  show ?thesis
    using assms(2)
  proof (cases rule: any_inv_cases)
    case (1 i)
    obtain i' where i': "InMemoryTaskStore_Put fmt_v ?k (VTask (length ?cs)) i = Inr i'"
      by (simp add: InMemoryTaskStore_Put_def)
    have "op_Put (task_ops e) ?k (length ?cs) (?cs @ [?t]) (MTaskDb m) = Returns (Inr (MemoryTaskStore i'))"
      by (simp add: assms(1) 1(1) mem_ops_def i')
    moreover have "mem_inv iter (?cs @ [after_post e te w]) i'"
      using mem_db.alloc_put [OF 1(2) assms(3) [rule_format, of "task_id (EventTask te)"],
          of "after_post e te w" "after_post e te w" fmt_v] i'
      by (auto simp: mem_ops_def mem_keeps_def)
    ultimately show ?thesis
      using put [OF _ refl] mem_put_appended [OF 1(2) i'] 1(1) by (intro exI conjI) auto
  next
    case (2 db)
    have own: "bolt_val b j ''tasks'' (?cs @ [x]) d = bolt_val b j ''tasks'' (?cs @ [y]) d"
      "bolt_inv b j ''tasks'' (?cs @ [x]) d = bolt_inv b j ''tasks'' (?cs @ [y]) d" for x y d
      by (simp_all add: bolt_val_def bolt_inv_def fun_eq_iff)
    show ?thesis
    proof (cases "bolt_keeps j ?t")
      case (Inl err)
      note no = bolt_db.alloc_refused [OF 2(2) Inl]
      have "op_Put (task_ops e) ?k (length ?cs) (?cs @ [?t]) (MTaskDb m) = Returns (Inl err)"
        by (simp add: assms(1) 2(1) no(1))
      then show ?thesis
        using no_put [OF _ refl] no(2,3) own [of "after_post e te w" _ ?t] 2(1) Inl by (intro exI conjI) auto
    next
      case (Inr u)
      obtain db' where db': "op_Put (bolt_ops b j ''tasks'') ?k (length ?cs) (?cs @ [?t]) db = Returns (Inr db')"
        "bolt_inv b j ''tasks'' (?cs @ [?t]) db'"
        "bolt_val b j ''tasks'' (?cs @ [?t]) db' = (bolt_val b j ''tasks'' ?cs db)(?k \<mapsto> u)"
        using bolt_db.alloc_put [OF 2(2) assms(3) [rule_format] Inr] by blast
      have "op_Put (task_ops e) ?k (length ?cs) (?cs @ [?t]) (MTaskDb m) = Returns (Inr (BoltTaskStore db'))"
        by (simp add: assms(1) 2(1) db'(1))
      then show ?thesis
        using put [OF _ refl] db'(2,3) own [of "after_post e te w" _ ?t] 2(1) Inr by (intro exI conjI) auto
    qed
  qed
qed

text \<open>C16: The memory store keeps the address of the variable, into which the answer to the post is
  decoded afterwards: under the key of the task posted it then gives what was decoded, be it
  another task, or an empty one when decoding failed. The persistent store keeps the task
  as it was put: the decoding of its encoding, or what was there before if it cannot be encoded. The store is
  assumed to be in order: no two keys of a memory store share a cell, the bucket of a bolt store exists and
  its entries decode; it is left in order.\<close>

theorem answer_replaces_stored_task:
  assumes "task_ops e = any_task_ops fmt_v iter b j"
    and "any_inv iter b j (MCells m) (MTaskDb m)" and "\<forall>u. uuid_String e u \<noteq> ''''"
  shows "\<exists>m'. place_task e te w m = Returns m' \<and> any_inv iter b j (MCells m') (MTaskDb m')
    \<and> any_val b j (MCells m') (MTaskDb m') =
       (let k = uuid_String e (task_id (EventTask te)); v = any_val b j (MCells m) (MTaskDb m);
            t = with_state Scheduled (EventTask te) in
        case MTaskDb m of
          MemoryTaskStore _ \<Rightarrow> v(k \<mapsto> after_post e te w)
        | _ \<Rightarrow>
            (case Marshal j t of
               Inl err \<Rightarrow> v
             | Inr text \<Rightarrow> (case Unmarshal j text of Inl err \<Rightarrow> v | Inr t' \<Rightarrow> v(k \<mapsto> t'))))"
proof (cases "MTaskDb m")
  case (MemoryTaskStore i)
  with place_task_view [OF assms, of te w] show ?thesis
    by (simp add: kept_def Let_def)
next
  case (BoltTaskStore d)
  with place_task_view [OF assms, of te w] show ?thesis
    by (auto simp: kept_def bolt_keeps_def Let_def split: sum.splits)
qed (use assms(2) in \<open>simp_all add: any_inv_def\<close>)

section \<open>Witnesses\<close>

lemma demo_manager_env_fields [simp]:
  "task_ops (demo_manager_env down rs) = any_task_ops (\<lambda>_. '''') (\<lambda>m. m) map_bolt any_json"
  "uuid_String (demo_manager_env down rs) u = show_nat (unat u)"
  "reports (demo_manager_env False rs) w = rs"
  by (simp_all add: demo_manager_env_def reports_def)

lemma demo_inv:
  "any_inv (\<lambda>m. m) map_bolt any_json [t] (MemoryTaskStore \<lparr>Db = [(k, 0)]\<rparr>)"
  by (simp add: mem_inv_def mem_ok_def mem_refs_def gomap_ok_def)

definition demo_holding ::
  "Task \<Rightarrow> (map_db any_store, map_db any_event_store, InMemoryTaskStore) manager" where
  "demo_holding t = demo_manager\<lparr>MCells := [t], MTaskDb := MemoryTaskStore \<lparr>Db = [(show_nat 7, 0)]\<rparr>\<rparr>"

lemma poll_takes_over_reports_witness:
  "\<exists>m'. updateTasks (demo_manager_env False [Some (demo_task Running ''c2'')])
       (demo_holding (demo_task Completed ''c1'')) = Returns m'
     \<and> map_option (\<lambda>t. State (Status t)) (any_val map_bolt any_json (MCells m') (MTaskDb m') (show_nat 7))
       = Some Running"
proof -
  let ?e = "demo_manager_env False [Some (demo_task Running ''c2'')]"
    and ?m = "demo_holding (demo_task Completed ''c1'')"
  have m: "MCells ?m = [demo_task Completed ''c1'']" "MTaskDb ?m = MemoryTaskStore \<lparr>Db = [(show_nat 7, 0)]\<rparr>"
    "MWorkers ?m = [''w1'']"
    by (simp_all add: demo_holding_def demo_manager_def initial_manager_def)
  have tid: "task_id (demo_task s c) = 7" for s c
    by (simp add: task_id_def demo_task_def NewTask_def)
  have val: "any_val map_bolt any_json (MCells ?m) (MTaskDb ?m) = [show_nat 7 \<mapsto> demo_task Completed ''c1'']"
    by (simp add: m mem_val_def mem_refs_def fun_eq_iff)
  have inv: "any_inv (\<lambda>m. m) map_bolt any_json (MCells ?m) (MTaskDb ?m)"
    by (simp only: m demo_inv)
  have filed: "filed ?e (any_val map_bolt any_json (MCells ?m) (MTaskDb ?m))"
    unfolding val filed_def by (simp add: tid split: if_splits)
  obtain m' where "updateTasks ?e ?m = Returns m'"
    and view: "any_val map_bolt any_json (MCells m') (MTaskDb m')
      = [show_nat 7 \<mapsto> (demo_task Completed ''c1'')\<lparr>Status := (Status (demo_task Completed ''c1''))
          \<lparr>State := Running, StartTime := StartTime (Status (demo_task Running ''c2'')),
           FinishTime := FinishTime (Status (demo_task Running ''c2'')), ContainerID := ''c2''\<rparr>\<rparr>]"
    using poll_takes_over_reports [OF demo_manager_env_fields(1) inv _ filed] m(3) tid [unfolded task_id_def]
    by (auto simp: show_nat_not_Nil Let_def val [unfolded m(2) any_store_simps] mem_keeps_def m(2) kept_def
        simp del: show_nat.simps)
  moreover have "map_option (\<lambda>t. State (Status t)) (any_val map_bolt any_json (MCells m') (MTaskDb m') (show_nat 7))
      = Some Running"
    unfolding view by (simp del: show_nat.simps)
  ultimately show ?thesis by blast
qed

lemma health_checks_panic_or_do_nothing_witness:
  "\<exists>m p. manager_run [Adds demo_event, Sends (demo_manager_env False [])] demo_manager = Returns m
     \<and> doHealthChecks (demo_manager_env False []) m = Panics p"
proof -
  have new: "NewManager map_bolt (\<lambda>_. Inr []) [''w1''] ''roundrobin'' ''memory'' = Returns (Inr demo_manager)"
    by (simp add: NewManager_def demo_manager_def)
  obtain m where m: "SendWork (demo_manager_env False []) (Manager_AddTask demo_event demo_manager) = Returns m"
    "MTaskDb m = MemoryTaskStore \<lparr>Db = [(show_nat 7, 0)]\<rparr>" "MCells m = [demo_task Running ''c1'']"
    using demo_send [of False "[]"] by auto
  have run: "manager_run [Adds demo_event, Sends (demo_manager_env False [])] demo_manager = Returns m"
    by (simp add: m(1))
  have list: "Manager_GetTasks (demo_manager_env False []) m = Returns ([0], m)"
    by (simp add: Manager_GetTasks_def m(2) mem_ops_def InMemoryTaskStore_List_def)
  have "State (Status (MCells m ! 0)) = Running" and "sint (RestartCount (Status (MCells m ! 0))) < 3"
    by (simp_all add: m(3) demo_task_def NewTask_def zero_status_def)
  then have "\<exists>p. doHealthChecks (demo_manager_env False []) m = Panics p"
    using health_checks_panic_or_do_nothing [OF new run demo_manager_env_fields(1) [of False "[]"]]
    unfolding list by simp
  with run show ?thesis by blast
qed

lemma answer_replaces_stored_task_witness:
  "\<exists>m'. place_task (demo_manager_env False []) demo_event (hd (worker_nodes 0 [''w1''])) demo_manager = Returns m'
     \<and> any_val map_bolt any_json (MCells m') (MTaskDb m') (show_nat 7) = Some (demo_task Running ''c1'')"
proof -
  have inv: "any_inv (\<lambda>m. m) map_bolt any_json (MCells demo_manager) (MTaskDb demo_manager)"
    by (simp add: demo_manager_def initial_manager_def mem_inv_new)
  show ?thesis
    using answer_replaces_stored_task [of "demo_manager_env False []" "\<lambda>_. ''''" "\<lambda>m. m" map_bolt any_json
        demo_manager demo_event "hd (worker_nodes 0 [''w1''])", OF _ inv]
    by (auto simp: show_nat_not_Nil demo_event_def task_id_def demo_task_def NewTask_def demo_manager_def
        initial_manager_def after_post_def demo_manager_env_def)
qed

end
