(* ===== verification/Manager_Runs.thy ===== *)
theory Manager_Runs
  imports Manager_Updates
begin

text \<open>
  Whole runs of the manager: with workers that answer, its operations never panic and its state stays
  well-formed; with the round-robin scheduler new tasks go to the workers in turn; and
  the endless loops of the manager end by a panic or not at all.
\<close>

section \<open>Workers that answer\<close>

text \<open>Every post is answered, a created task is answered with the task posted, no list of tasks has a nil
  entry, and statistics carry the processor's.\<close>

definition healthy_workers :: "('d, 'e, 'w, 'q) manager_env \<Rightarrow> bool" where
  "healthy_workers e \<longleftrightarrow>
     (\<forall>url body. \<exists>resp. http_post e url body = Inr resp)
     \<and> (\<forall>te w. task_id (after_post e te w) = task_id (EventTask te))
     \<and> (\<forall>w. None \<notin> set (reports e w))
     \<and> (\<forall>i k url resp st. http_stats e i k url = Inr resp \<longrightarrow> Decoded resp = Inr st \<longrightarrow> CpuStats st \<noteq> None)"

definition full_stats :: "(string \<Rightarrow> http_answer res) \<Rightarrow> bool" where
  "full_stats get \<longleftrightarrow>
     (\<forall>url resp st. get url = Inr resp \<longrightarrow> Decoded resp = Inr st \<longrightarrow> CpuStats st \<noteq> None)"

lemma healthy_full_stats: "healthy_workers e \<Longrightarrow> full_stats (http_stats e i k)"
  by (simp add: healthy_workers_def full_stats_def)

section \<open>Scoring returns\<close>

lemma Node_GetStats_full:
  assumes "full_stats get" and "Node_GetStats get n = (Inr p, n')"
  shows "p = NodeStats" and "CpuStats (NodeStats n') \<noteq> None" and "MemStats (NodeStats n') \<noteq> None"
  using assms by (auto simp: Node_GetStats_def full_stats_def split: sum.splits if_splits option.splits)

lemma calculateCpuUsage_returns:
  assumes "full_stats get2"
  shows "\<exists>r n'. calculateCpuUsage get1 get2 n = Returns (r, n')
    \<and> ((\<exists>u. r = Inr u) \<longrightarrow> MemStats (NodeStats n') \<noteq> None)"
proof (cases "Node_GetStats get1 n")
  case one: (Pair r1 n1)
  obtain r2 n2 where two: "Node_GetStats get2 n1 = (r2, n2)" by fastforce
  show ?thesis
  proof (cases r1)
    case (Inl err)
    then show ?thesis by (simp add: calculateCpuUsage_def one)
  next
    case (Inr p1)
    then have p1: "p1 = NodeStats"
      using Node_GetStats_pointer one by metis
    show ?thesis
    proof (cases r2)
      case r2: (Inl err)
      then show ?thesis by (simp add: calculateCpuUsage_def one two Inr)
    next
      case r2: (Inr p2)
      note full = Node_GetStats_full [OF assms two [unfolded r2]]
      then obtain c where "CpuStats (NodeStats n2) = Some c" by blast
      with full(1,3) show ?thesis
        by (simp add: calculateCpuUsage_def one two Inr r2 p1 read_cpu_def Let_def)
    qed
  qed
qed

lemma greedy_scores_returns:
  "(\<And>i k. full_stats (get i k)) \<Longrightarrow> \<exists>m' nodes'. greedy_scores pow get idx nodes m = Returns (m', nodes')"
proof (induction nodes arbitrary: idx m)
  case (Cons n nodes)
  obtain r n' where "calculateCpuUsage (get idx False) (get idx True) n = Returns (r, n')"
    using calculateCpuUsage_returns [OF Cons.prems] by blast
  moreover obtain m' nodes' where "greedy_scores pow get (Suc idx) nodes
      (case r of Inl err \<Rightarrow> m | Inr u \<Rightarrow> AList.update (NodeName n') (calculateLoad u (cpu_capacity pow)) m)
      = Returns (m', nodes')"
    using Cons.IH [OF Cons.prems] by blast
  ultimately show ?case by simp
qed simp

lemma epvm_scores_returns:
  "(\<And>i k. full_stats (get i k)) \<Longrightarrow> \<exists>m' nodes'. epvm_scores pow get mem idx nodes m = Returns (m', nodes')"
proof (induction nodes arbitrary: idx m)
  case (Cons n nodes)
  obtain r n' where use: "calculateCpuUsage (get idx False) (get idx True) n = Returns (r, n')"
    and mem: "(\<exists>u. r = Inr u) \<longrightarrow> MemStats (NodeStats n') \<noteq> None"
    using calculateCpuUsage_returns [OF Cons.prems] by blast
  have "\<exists>m1. (case r of Inl err \<Rightarrow> Returns m
      | Inr u \<Rightarrow> go_bind (MemUsedKb (NodeStats n')) (\<lambda>used. Returns (AList.update (NodeName n')
          (epvm_cost pow mem n' (calculateLoad u (cpu_capacity pow)) used) m))) = Returns m1"
    using mem by (auto simp: MemUsedKb_def with_mem_def split: sum.split option.split)
  then obtain m1 where m1: "(case r of Inl err \<Rightarrow> Returns m
      | Inr u \<Rightarrow> go_bind (MemUsedKb (NodeStats n')) (\<lambda>used. Returns (AList.update (NodeName n')
          (epvm_cost pow mem n' (calculateLoad u (cpu_capacity pow)) used) m))) = Returns m1" ..
  obtain m' nodes' where "epvm_scores pow get mem (Suc idx) nodes m1 = Returns (m', nodes')"
    using Cons.IH [OF Cons.prems] by blast
  with use m1 show ?case by simp
qed simp

lemma SelectWorker_returns:
  assumes "healthy_workers e"
  shows "\<exists>r m'. SelectWorker e t m = Returns (r, m')"
proof -
  have full: "full_stats (http_stats e i k)" for i k
    by (rule healthy_full_stats [OF assms])
  have "\<exists>sc s ns. Score e (MScheduler m) t cs = Returns (sc, s, ns)" for cs
  proof (cases "MScheduler m")
    case (GreedyScheduler x)
    obtain sc ns where "greedy_scores (math_pow e) (http_stats e) 0 cs [] = Returns (sc, ns)"
      using greedy_scores_returns [where get = "http_stats e", OF full] by blast
    then show ?thesis by (simp add: Score_def Greedy_Score_def GreedyScheduler)
  next
    case (RoundRobinScheduler x)
    then show ?thesis by (simp add: Score_def split: prod.split)
  next
    case (EpvmScheduler x)
    obtain sc ns where "epvm_scores (math_pow e) (http_stats e) (task_memory e t) 0 cs [] = Returns (sc, ns)"
      using epvm_scores_returns [where get = "http_stats e", OF full] by blast
    then show ?thesis by (simp add: Score_def Epvm_Score_def EpvmScheduler)
  qed
  then obtain sc s ns where "Score e (MScheduler m) t
      (SelectCandidateNodes (MScheduler m) (task_disk e t) (WorkerNodes m)) = Returns (sc, s, ns)"
    by blast
  then show ?thesis by (simp add: SelectWorker_def Let_def)
qed

section \<open>Well-formed managers\<close>

text \<open>The store works and has every task under its own identifier, the queue holds events only, and the
  pointer to each node is its place in \<open>WorkerNodes\<close>.\<close>

definition well_formed ::
  "(addr gomap \<Rightarrow> addr gomap) \<Rightarrow> 'db bolt \<Rightarrow> Task json \<Rightarrow> (uuid \<Rightarrow> string) \<Rightarrow>
   ('db any_store, 'c any_event_store, 'w) manager \<Rightarrow> bool" where
  "well_formed iter b j us m \<longleftrightarrow>
     any_inv iter b j (MCells m) (MTaskDb m) \<and> (\<exists>i. MEventDb m = MemoryEventStore i)
     \<and> (\<forall>k t. any_val b j (MCells m) (MTaskDb m) k = Some t \<longrightarrow> us (task_id t) = k)
     \<and> (\<forall>q\<in>set (Pending m). \<exists>te. q = QueuedEvent te)
     \<and> map node_addr (WorkerNodes m) = [0..<length (WorkerNodes m)]"

definition serving ::
  "(value \<Rightarrow> string) \<Rightarrow> (addr gomap \<Rightarrow> addr gomap) \<Rightarrow> 'db bolt \<Rightarrow> Task json \<Rightarrow> 'c bolt \<Rightarrow> TaskEvent json \<Rightarrow>
   (uuid \<Rightarrow> string) \<Rightarrow> ('db any_store, 'c any_event_store, 'w, 'q) manager_env \<Rightarrow> bool" where
  "serving fmt_v iter b j eb ej us e \<longleftrightarrow>
     healthy_workers e \<and> task_ops e = any_task_ops fmt_v iter b j
     \<and> event_ops e = any_event_ops fmt_v eb ej \<and> uuid_String e = us"

lemma update_at_itself: "[0..<k][a := a] = [0..<k]"
  by (cases "a < k") (simp_all add: list_update_same_conv list_update_beyond)

lemma write_node_addrs:
  "map node_addr nodes = [0..<k] \<Longrightarrow> map node_addr (fold write_node ns nodes) = [0..<k]"
proof (induction ns arbitrary: nodes)
  case (Cons n ns)
  have "map node_addr (write_node n nodes) = [0..<k]"
    by (simp add: write_node_def map_update Cons.prems update_at_itself)
  with Cons.IH show ?case by simp
qed simp

lemma write_nodes_length [simp]: "length (fold write_node ns nodes) = length nodes"
  by (induction ns arbitrary: nodes) (simp_all add: write_node_def)

lemma SelectWorker_addrs:
  assumes "SelectWorker e t m = Returns (r, m')" and "map node_addr (WorkerNodes m) = [0..<length (WorkerNodes m)]"
  shows "map node_addr (WorkerNodes m') = [0..<length (WorkerNodes m')]"
  using assms write_node_addrs
  by (auto simp: SelectWorker_def Let_def elim!: go_bind_ReturnsE split: if_splits prod.splits)

lemma post_event_rest:
  assumes "http_post e (tasks_url (NodeName w)) (case encode_event e te of Inl err \<Rightarrow> '''' | Inr text \<Rightarrow> text) = Inr resp"
  shows "Pending (post_event e te w a m) = Pending m" and "MEventDb (post_event e te w a m) = MEventDb m"
    and "map node_addr (WorkerNodes (post_event e te w a m)) = map node_addr (WorkerNodes m)"
    and "length (WorkerNodes (post_event e te w a m)) = length (WorkerNodes m)"
proof -
  have post: "post_event e te w a m =
    (let m = m\<lparr>requests := requests m @ [PostRequest (tasks_url (NodeName w))
           (case encode_event e te of Inl err \<Rightarrow> '''' | Inr text \<Rightarrow> text)]\<rparr>
     in if PostStatus resp \<noteq> 201 then m
        else (let (t, err) = PostDecode resp zero_Task; m = m\<lparr>MCells := (MCells m)[a := t]\<rparr>
          in case err of Some _ \<Rightarrow> m
             | None \<Rightarrow> m\<lparr>WorkerNodes := (WorkerNodes m)[node_addr w := (WorkerNodes m ! node_addr w)
                 \<lparr>NodeTaskCount := NodeTaskCount (WorkerNodes m ! node_addr w) + 1\<rparr>]\<rparr>))"
    using assms by (simp add: post_event_def tasks_url_def Let_def)
  have "map node_addr (ns[i := (ns ! i)\<lparr>NodeTaskCount := c\<rparr>]) = map node_addr ns" for ns :: "node_cell list" and i c
    by (cases "i < length ns") (simp_all add: map_update list_update_same_conv list_update_beyond)
  then show "map node_addr (WorkerNodes (post_event e te w a m)) = map node_addr (WorkerNodes m)"
    unfolding post by (simp add: Let_def split: prod.split option.split)
  show "Pending (post_event e te w a m) = Pending m" and "MEventDb (post_event e te w a m) = MEventDb m"
    and "length (WorkerNodes (post_event e te w a m)) = length (WorkerNodes m)"
    unfolding post by (simp_all add: Let_def split: prod.split option.split)
qed

lemma existing_task_ok:
  assumes "serving fmt_v iter b j eb ej us e" and "well_formed iter b j us m"
  shows "\<exists>m'. existing_task e te w m = Returns m' \<and> well_formed iter b j us m'"
proof -
  let ?k = "uuid_String e (task_id (EventTask te))"
  have inv: "any_inv iter b j (MCells m) (MTaskDb m)" and ops: "task_ops e = any_task_ops fmt_v iter b j"
    using assms by (simp_all add: well_formed_def serving_def)
  show ?thesis
  proof (cases "any_val b j (MCells m) (MTaskDb m) ?k")
    case None
    then obtain err where "op_Get (task_ops e) ?k (MCells m) (MTaskDb m) = Returns (Inl err)"
      using any_db.get_None [OF inv] ops by metis
    with assms(2) show ?thesis by (simp add: existing_task_def)
  next
    case (Some t)
    then obtain a cs where a: "op_Get (task_ops e) ?k (MCells m) (MTaskDb m) = Returns (Inr (a, cs))"
      "extends (MCells m) cs"
      using any_db.get_Some [OF inv] ops by metis
    have "any_inv iter b j cs (MTaskDb m)" and "any_val b j cs (MTaskDb m) = any_val b j (MCells m) (MTaskDb m)"
      using any_db.inv_extends [OF inv a(2)] any_db.val_extends [OF inv a(2)] by simp_all
    with assms(2) have "well_formed iter b j us (m\<lparr>MCells := cs, requests := rs\<rparr>)" for rs
      by (simp add: well_formed_def)
    moreover from this [of "requests m"] have "well_formed iter b j us (m\<lparr>MCells := cs\<rparr>)"
      by (simp add: well_formed_def)
    ultimately show ?thesis
      using a(1) by (auto simp: existing_task_def Let_def stopTask_def split: option.split)
  qed
qed

lemma new_task_ok:
  assumes "serving fmt_v iter b j eb ej us e" and "well_formed iter b j us m" and "\<forall>u. us u \<noteq> ''''"
  shows "\<exists>m'. new_task e te m = Returns m' \<and> well_formed iter b j us m'"
proof -
  have e: "healthy_workers e" "task_ops e = any_task_ops fmt_v iter b j" "uuid_String e = us"
    using assms(1) by (simp_all add: serving_def)
  obtain r m1 where sel: "SelectWorker e (EventTask te) m = Returns (r, m1)"
    using SelectWorker_returns [OF e(1)] by blast
  obtain s ns where m1: "m1 = m\<lparr>MScheduler := s, WorkerNodes := ns\<rparr>"
    using SelectWorker_facts(1) [OF sel] by blast
  have ok: "well_formed iter b j us m1"
    using assms(2) SelectWorker_addrs [OF sel] m1 by (simp add: well_formed_def)
  show ?thesis
  proof (cases r)
    case (Inl err)
    with sel ok show ?thesis by (simp add: new_task_def)
  next
    case (Inr o')
    then obtain w where w: "r = Inr (Some w)"
      using SelectWorker_facts(2) [OF sel] by (cases o') auto
    let ?k = "us (task_id (EventTask te))"
    let ?f = "case MTaskDb m1 of MemoryTaskStore _ \<Rightarrow> (\<lambda>_. Inr (after_post e te w)) | _ \<Rightarrow> bolt_keeps j"
    obtain m' where m': "place_task e te w m1 = Returns m'" "any_inv iter b j (MCells m') (MTaskDb m')"
      and val: "any_val b j (MCells m') (MTaskDb m')
        = kept ?f ?k (with_state Scheduled (EventTask te)) (any_val b j (MCells m1) (MTaskDb m1))"
      using place_task_view [OF e(2), of m1 te w] ok assms(3) e(3) by (auto simp: well_formed_def)
    have "us (task_id u) = ?k" if "?f (with_state Scheduled (EventTask te)) = Inr u" for u
    proof -
      have "any_inv iter b j (MCells m1) (MTaskDb m1)"
        using ok by (simp add: well_formed_def)
      then show ?thesis
      proof (cases rule: any_inv_cases)
        case (1 i)
        with that e(1) show ?thesis
          by (auto simp: healthy_workers_def)
      next
        case (2 db)
        then have "decoded_as (with_state Scheduled (EventTask te)) u"
          using that bolt_db.keeps_fields [OF 2(2)] by simp
        then show ?thesis
          by (simp add: decoded_as_def task_id_def with_state_def)
      qed
    qed
    then have filed: "us (task_id t) = k" if "any_val b j (MCells m') (MTaskDb m') k = Some t" for k t
      using that ok unfolding val kept_def
      by (auto simp: well_formed_def split: if_splits sum.splits)
    obtain db where "m' = post_event e te w (length (MCells m1))
        ((assign (task_id (EventTask te)) (NodeName w) m1)
          \<lparr>MCells := MCells m1 @ [with_state Scheduled (EventTask te)], MTaskDb := db\<rparr>)"
      using m'(1) by (rule place_task_Returns)
    moreover obtain resp where "http_post e (tasks_url (NodeName w))
        (case encode_event e te of Inl err \<Rightarrow> '''' | Inr text \<Rightarrow> text) = Inr resp"
      using e(1) unfolding healthy_workers_def by blast
    ultimately have "Pending m' = Pending m1" "MEventDb m' = MEventDb m1"
      "map node_addr (WorkerNodes m') = map node_addr (WorkerNodes m1)"
      "length (WorkerNodes m') = length (WorkerNodes m1)"
      using post_event_rest [of e w te resp] by (simp_all add: assign_def)
    then have "well_formed iter b j us m'"
      using ok m'(2) filed by (simp add: well_formed_def)
    with sel w m'(1) show ?thesis by (simp add: new_task_def)
  qed
qed

lemma SendWork_ok:
  assumes "serving fmt_v iter b j eb ej us e" and "well_formed iter b j us m" and "\<forall>u. us u \<noteq> ''''"
  shows "\<exists>m'. SendWork e m = Returns m' \<and> well_formed iter b j us m'"
proof (cases "Pending m")
  case Nil
  with assms(2) show ?thesis by (simp add: SendWork_def)
next
  case (Cons x q)
  then obtain te where te: "x = QueuedEvent te"
    using assms(2) by (auto simp: well_formed_def)
  obtain i where i: "MEventDb m = MemoryEventStore i"
    using assms(2) by (auto simp: well_formed_def)
  have ops: "event_ops e = any_event_ops fmt_v eb ej"
    using assms(1) by (simp add: serving_def)
  obtain i' where put: "InMemoryTaskEventStore_Put fmt_v (uuid_String e (EventID te))
      (VTaskEvent (length (MEvents m))) i = Inr i'"
    by (simp add: InMemoryTaskEventStore_Put_def)
  let ?m = "m\<lparr>Pending := q, MEvents := MEvents m @ [te], MEventDb := MemoryEventStore i'\<rparr>"
  have ok: "well_formed iter b j us ?m"
    using assms(2) Cons by (simp add: well_formed_def)
  have "SendWork e m = (case map_of (TaskWorkerMap m) (task_id (EventTask te)) of
      Some w \<Rightarrow> existing_task e te w ?m | None \<Rightarrow> new_task e te ?m)"
    by (cases "map_of (TaskWorkerMap m) (task_id (EventTask te))")
      (simp_all add: SendWork_def Cons te i ops any_event_ops_def put Let_def)
  then show ?thesis
    using existing_task_ok [OF assms(1) ok] new_task_ok [OF assms(1) ok assms(3)]
    by (cases "map_of (TaskWorkerMap m) (task_id (EventTask te))") simp_all
qed

lemma updateTasks_ok:
  assumes "serving fmt_v iter b j eb ej us e" and "well_formed iter b j us m" and "\<forall>u. us u \<noteq> ''''"
  shows "\<exists>m'. updateTasks e m = Returns m' \<and> well_formed iter b j us m'"
proof -
  have "managing (any_task_ops fmt_v iter b j) (any_inv iter b j) e m"
    and "filed e (any_val b j (MCells m) (MTaskDb m))"
    and "None \<notin> set (concat (map (reports e) (MWorkers m)))"
    using assms by (auto simp: serving_def well_formed_def managing_def filed_def healthy_workers_def)
  then obtain m' where m': "poll_workers e (MWorkers m) m = Returns m'"
    "managing (any_task_ops fmt_v iter b j) (any_inv iter b j) e m'"
    "filed e (any_val b j (MCells m') (MTaskDb m'))"
    using any_db.poll_workers_view [of fmt_v iter b j e m "MWorkers m"] by auto
  moreover have "untouched m' = untouched m"
    by (rule poll_workers_untouched [OF m'(1)])
  ultimately have "well_formed iter b j us m'"
    using assms by (simp add: well_formed_def managing_def filed_def untouched_def serving_def)
  with m'(1) show ?thesis by (simp add: updateTasks_def)
qed

lemma UpdateNodeStats_ok:
  assumes "well_formed iter b j us m"
  shows "well_formed iter b j us (UpdateNodeStats_round e m)"
proof -
  have "node_addr (snd (Node_GetStats get n)) = node_addr n" for get and n :: node_cell
    by (rule node_addr_more) (rule Node_GetStats_keeps(2))
  then have "map node_addr (WorkerNodes (UpdateNodeStats_round e m)) = map node_addr (WorkerNodes m)"
    by (simp add: UpdateNodeStats_round_def)
  with assms show ?thesis
    by (simp add: well_formed_def UpdateNodeStats_round_def)
qed

fun served_by :: "(('d, 'e, 'w, 'q) manager_env \<Rightarrow> bool) \<Rightarrow> ('d, 'e, 'w, 'q) manager_op \<Rightarrow> bool" where
  "served_by P (Adds te) \<longleftrightarrow> True"
| "served_by P (Sends e) \<longleftrightarrow> P e"
| "served_by P (Updates e) \<longleftrightarrow> P e"
| "served_by P (Checks e) \<longleftrightarrow> False"
| "served_by P (Collects e) \<longleftrightarrow> True"

lemma manager_run_ok:
  assumes "\<forall>u. us u \<noteq> ''''"
  shows "\<forall>op\<in>set ops. served_by (serving fmt_v iter b j eb ej us) op \<Longrightarrow> well_formed iter b j us m \<Longrightarrow>
    \<exists>m'. manager_run ops m = Returns m' \<and> well_formed iter b j us m'"
proof (induction ops arbitrary: m)
  case (Cons op ops)
  have "\<exists>m1. manager_run [op] m = Returns m1 \<and> well_formed iter b j us m1"
  proof (cases op)
    case (Adds te)
    with Cons.prems(2) show ?thesis by (simp add: Manager_AddTask_def well_formed_def)
  next
    case (Sends e)
    with Cons.prems SendWork_ok [OF _ Cons.prems(2) assms, of fmt_v eb ej e] show ?thesis by auto
  next
    case (Updates e)
    with Cons.prems updateTasks_ok [OF _ Cons.prems(2) assms, of fmt_v eb ej e] show ?thesis by auto
  next
    case (Checks e)
    with Cons.prems show ?thesis by simp
  next
    case (Collects e)
    with UpdateNodeStats_ok [OF Cons.prems(2)] show ?thesis by simp
  qed
  then obtain m1 where m1: "manager_run [op] m = Returns m1" "well_formed iter b j us m1" by blast
  have "manager_run (op # ops) m = go_bind (manager_run [op] m) (manager_run ops)"
    by (cases op) (simp_all add: go_bind_assoc)
  with m1 Cons.IH [of m1] Cons.prems(1) show ?case by simp
qed simp

lemma worker_nodes_addrs: "map node_addr (worker_nodes a ws) = [a..<a + length ws]"
  proof (induction ws arbitrary: a)
  case (Cons w ws)
  have "[a..<a + length (w # ws)] = a # [Suc a..<Suc a + length ws]"
    by (simp add: upt_rec)
  with Cons show ?case by (simp add: Node.defs node_cell.defs)
qed simp

lemma worker_nodes_length [simp]: "length (worker_nodes a ws) = length ws"
  by (induction ws arbitrary: a) simp_all

lemma NewManager_ok:
  assumes "iteration_order iter" and "NewManager b open_file ws st ''memory'' = Returns (Inr m)"
  shows "well_formed iter b j us m"
  using assms worker_nodes_addrs [of 0 ws] mem_inv_new [OF assms(1), of "[]"]
  by (auto simp: NewManager_def initial_manager_def well_formed_def mem_val_def mem_refs_def
      NewInMemoryTaskStore_def split: if_splits)

text \<open>C4: A manager in memory whose workers answer never panics, in any run without health checks, with any
  scheduler: every operation finds its queue, its stores and its nodes well-formed and leaves them so, with
  every task stored under its own identifier.\<close>

theorem managers_of_healthy_workers_run:
  assumes "NewManager b open_file ws st ''memory'' = Returns (Inr m)" and "iteration_order iter"
    and "\<forall>u. us u \<noteq> ''''" and "\<forall>op\<in>set ops. served_by (serving fmt_v iter b j eb ej us) op"
  shows "\<exists>m'. manager_run ops m = Returns m' \<and> well_formed iter b j us m'"
  by (rule manager_run_ok [OF assms(3,4) NewManager_ok [OF assms(2,1)]])

section \<open>New tasks go round\<close>

text \<open>A round-robin manager in memory that has sent \<open>i\<close> new tasks and has the events \<open>q\<close> to send; tasks put
  back by failed posts wait behind them.\<close>

definition in_turn ::
  "string list \<Rightarrow> nat \<Rightarrow> TaskEvent list \<Rightarrow> ('d any_store, 'c any_event_store, 'w) manager \<Rightarrow> bool" where
  "in_turn ws i q m \<longleftrightarrow>
     (\<exists>r. MScheduler m = RoundRobinScheduler r \<and> LastWorker r = i mod length ws)
     \<and> map NodeName (WorkerNodes m) = ws \<and> map node_addr (WorkerNodes m) = [0..<length ws]
     \<and> (\<exists>d. MTaskDb m = MemoryTaskStore d) \<and> (\<exists>d. MEventDb m = MemoryEventStore d)
     \<and> (\<exists>ts. Pending m = map QueuedEvent q @ map QueuedTask ts)"

lemma write_nodes_same:
  assumes "map node_addr nodes = [0..<length nodes]" and "set ns \<subseteq> set nodes"
  shows "fold write_node ns nodes = nodes"
  using assms(2)
proof (induction ns)
  case (Cons n ns)
  then obtain i where i: "i < length nodes" "n = nodes ! i"
    by (auto simp: in_set_conv_nth)
  have "map node_addr nodes ! i = i"
    using i(1) by (simp add: assms(1))
  with i have "write_node n nodes = nodes"
    by (simp add: write_node_def)
  with Cons show ?case by simp
qed simp

lemma SelectWorker_in_turn:
  assumes "in_turn ws i q m" and "distinct ws" and "ws \<noteq> []"
  shows "\<exists>w r. SelectWorker e t m = Returns (Inr (Some w), m\<lparr>MScheduler := RoundRobinScheduler r\<rparr>)
    \<and> NodeName w = ws ! (Suc i mod length ws) \<and> LastWorker r = Suc i mod length ws"
proof -
  let ?ns = "WorkerNodes m"
  obtain r where r: "MScheduler m = RoundRobinScheduler r" "LastWorker r = i mod length ws"
    and names: "map NodeName ?ns = ws" and addrs: "map node_addr ?ns = [0..<length ws]"
    using assms(1) unfolding in_turn_def by blast
  have len: "length ?ns = length ws"
    using names by (metis length_map)
  have less: "LastWorker r < length ?ns"
    using r(2) assms(3) len by simp
  have "(LastWorker r + 1) mod length ?ns = Suc i mod length ws"
    using r(2) len by (simp add: mod_Suc_eq)
  then have sel: "rr_select ?ns r = (Some (?ns ! (Suc i mod length ws)), r\<lparr>LastWorker := Suc i mod length ws\<rparr>)"
    using rr_select_next [OF _ less] names assms(2) by (simp add: Let_def)
  obtain sc r' where score: "RoundRobin_Score ?ns r = (sc, r')" by fastforce
  have pick: "RoundRobin_Pick sc ?ns = Some (?ns ! (Suc i mod length ws))"
    "r' = r\<lparr>LastWorker := Suc i mod length ws\<rparr>"
    using sel by (simp_all add: rr_select_def RoundRobin_SelectCandidateNodes_def score)
  have "?ns \<noteq> []" and "Suc i mod length ws < length ?ns"
    using assms(3) len by auto
  then have "SelectWorker e t m
      = Returns (Inr (Some (?ns ! (Suc i mod length ws))), m\<lparr>MScheduler := RoundRobinScheduler r'\<rparr>)"
    using write_nodes_same [of ?ns ?ns] addrs len
    by (simp add: SelectWorker_def r(1) SelectCandidateNodes_def RoundRobin_SelectCandidateNodes_def
        Score_def score Pick_def pick(1))
  moreover have "NodeName (?ns ! (Suc i mod length ws)) = ws ! (Suc i mod length ws)"
    using names \<open>Suc i mod length ws < length ?ns\<close> by (metis nth_map)
  ultimately show ?thesis
    using pick(2) by auto
qed

lemma post_event_keeps:
  "MScheduler (post_event e te w a m) = MScheduler m" "TaskWorkerMap (post_event e te w a m) = TaskWorkerMap m"
  "MEventDb (post_event e te w a m) = MEventDb m"
  "map NodeName (WorkerNodes (post_event e te w a m)) = map NodeName (WorkerNodes m)"
  "map node_addr (WorkerNodes (post_event e te w a m)) = map node_addr (WorkerNodes m)"
proof -
  have "map NodeName (ns[i := (ns ! i)\<lparr>NodeTaskCount := c\<rparr>]) = map NodeName ns
      \<and> map node_addr (ns[i := (ns ! i)\<lparr>NodeTaskCount := c\<rparr>]) = map node_addr ns"
    for ns :: "node_cell list" and i c
    by (cases "i < length ns") (simp_all add: map_update list_update_same_conv list_update_beyond)
  then show "map NodeName (WorkerNodes (post_event e te w a m)) = map NodeName (WorkerNodes m)"
    and "map node_addr (WorkerNodes (post_event e te w a m)) = map node_addr (WorkerNodes m)"
    by (simp_all add: post_event_def Let_def split: sum.split prod.split option.split)
  show "MScheduler (post_event e te w a m) = MScheduler m"
    and "TaskWorkerMap (post_event e te w a m) = TaskWorkerMap m"
    and "MEventDb (post_event e te w a m) = MEventDb m"
    by (simp_all add: post_event_def Let_def split: sum.split prod.split option.split)
qed

definition in_memory_env ::
  "('d any_store, 'c any_event_store, 'w, 'q) manager_env \<Rightarrow> bool" where
  "in_memory_env e \<longleftrightarrow>
     (\<exists>fmt_v iter b j. task_ops e = any_task_ops fmt_v iter b j)
     \<and> (\<exists>fmt_v b j. event_ops e = any_event_ops fmt_v b j)"

lemma SendWork_in_turn:
  assumes "in_memory_env e" and "in_turn ws i (te # q) m" and "distinct ws" and "ws \<noteq> []"
    and "map_of (TaskWorkerMap m) (task_id (EventTask te)) = None"
  shows "\<exists>m'. SendWork e m = Returns m' \<and> in_turn ws (Suc i) q m'
    \<and> map_of (TaskWorkerMap m')
      = (map_of (TaskWorkerMap m))(task_id (EventTask te) \<mapsto> ws ! (Suc i mod length ws))"
proof -
  obtain d ed ts where d: "MTaskDb m = MemoryTaskStore d" "MEventDb m = MemoryEventStore ed"
    "Pending m = QueuedEvent te # map QueuedEvent q @ map QueuedTask ts"
    using assms(2) by (auto simp: in_turn_def)
  obtain fmt_v iter b j efmt_v eb ej where ops: "task_ops e = any_task_ops fmt_v iter b j"
    "event_ops e = any_event_ops efmt_v eb ej"
    using assms(1) by (auto simp: in_memory_env_def)
  obtain ed' where ed': "InMemoryTaskEventStore_Put efmt_v (uuid_String e (EventID te))
      (VTaskEvent (length (MEvents m))) ed = Inr ed'"
    by (simp add: InMemoryTaskEventStore_Put_def)
  let ?m = "m\<lparr>Pending := map QueuedEvent q @ map QueuedTask ts, MEvents := MEvents m @ [te],
    MEventDb := MemoryEventStore ed'\<rparr>"
  have turn: "in_turn ws i q ?m"
    using assms(2) by (auto simp: in_turn_def)
  have "SendWork e m = new_task e te ?m"
    using assms(5) by (simp add: SendWork_def d ops any_event_ops_def ed' Let_def)
  moreover obtain w r where w: "SelectWorker e (EventTask te) ?m
      = Returns (Inr (Some w), ?m\<lparr>MScheduler := RoundRobinScheduler r\<rparr>)"
    "NodeName w = ws ! (Suc i mod length ws)" "LastWorker r = Suc i mod length ws"
    using SelectWorker_in_turn [OF turn assms(3,4)] by blast
  let ?n = "?m\<lparr>MScheduler := RoundRobinScheduler r\<rparr>"
  obtain d' where d': "InMemoryTaskStore_Put fmt_v (uuid_String e (task_id (EventTask te)))
      (VTask (length (MCells m))) d = Inr d'"
    by (simp add: InMemoryTaskStore_Put_def)
  let ?p = "(assign (task_id (EventTask te)) (NodeName w) ?n)
      \<lparr>MCells := MCells m @ [with_state Scheduled (EventTask te)], MTaskDb := MemoryTaskStore d'\<rparr>"
  have "task_id (with_state Scheduled (EventTask te)) = task_id (EventTask te)"
    by (simp add: task_id_def with_state_def)
  then have "place_task e te w ?n = Returns (post_event e te w (length (MCells m)) ?p)"
    by (simp add: place_task_def Let_def assign_def ops d(1) mem_ops_def d')
  ultimately have send: "SendWork e m = Returns (post_event e te w (length (MCells m)) ?p)"
    by (simp add: new_task_def w(1))
  have "in_turn ws (Suc i) q (post_event e te w (length (MCells m)) ?p)"
  proof -
    have "\<exists>ts. Pending (post_event e te w (length (MCells m)) ?p) = map QueuedEvent q @ map QueuedTask ts"
      using post_event_Pending [of e te w "length (MCells m)" ?p]
    proof
      assume "Pending (post_event e te w (length (MCells m)) ?p) = Pending ?p @ [QueuedTask (MCells ?p ! length (MCells m))]"
      then show ?thesis
        by (intro exI [of _ "ts @ [MCells ?p ! length (MCells m)]"]) (simp add: assign_def)
    qed (auto simp: assign_def)
    then show ?thesis
      using turn w(3) by (auto simp: in_turn_def post_event_keeps post_event_tasks(1) assign_def)
  qed
  moreover have "map_of (TaskWorkerMap (post_event e te w (length (MCells m)) ?p))
      = (map_of (TaskWorkerMap m))(task_id (EventTask te) \<mapsto> ws ! (Suc i mod length ws))"
    by (simp add: post_event_keeps assign_def w(2) fun_eq_iff)
  ultimately show ?thesis
    using send by blast
qed

lemma sends_in_turn:
  assumes "distinct ws" and "ws \<noteq> []"
  shows "length es = length tes \<Longrightarrow> \<forall>e\<in>set es. in_memory_env e \<Longrightarrow> in_turn ws i tes m \<Longrightarrow>
    distinct (map (\<lambda>te. task_id (EventTask te)) tes) \<Longrightarrow>
    \<forall>te\<in>set tes. map_of (TaskWorkerMap m) (task_id (EventTask te)) = None \<Longrightarrow>
    \<exists>m'. manager_run (map Sends es) m = Returns m'
      \<and> (\<forall>x. x \<notin> (\<lambda>te. task_id (EventTask te)) ` set tes \<longrightarrow>
            map_of (TaskWorkerMap m') x = map_of (TaskWorkerMap m) x)
      \<and> (\<forall>j<length tes. map_of (TaskWorkerMap m') (task_id (EventTask (tes ! j)))
            = Some (ws ! (Suc (i + j) mod length ws)))"
proof (induction es tes arbitrary: i m rule: list_induct2')
  case (4 e es te tes)
  let ?id = "\<lambda>te. task_id (EventTask te)"
  obtain m1 where m1: "SendWork e m = Returns m1" "in_turn ws (Suc i) tes m1"
    "map_of (TaskWorkerMap m1) = (map_of (TaskWorkerMap m))(?id te \<mapsto> ws ! (Suc i mod length ws))"
    using SendWork_in_turn [of e ws i te tes m] 4(2-) assms by auto
  have new: "?id te \<notin> ?id ` set tes"
    using "4.prems"(4) by simp
  then have "\<forall>te\<in>set tes. map_of (TaskWorkerMap m1) (?id te) = None"
    using "4.prems"(5) unfolding m1(3) by (auto simp: image_iff)
  then obtain m' where m': "manager_run (map Sends es) m1 = Returns m'"
    and old: "\<forall>x. x \<notin> ?id ` set tes \<longrightarrow> map_of (TaskWorkerMap m') x = map_of (TaskWorkerMap m1) x"
    and at: "\<forall>j<length tes. map_of (TaskWorkerMap m') (?id (tes ! j)) = Some (ws ! (Suc (Suc i + j) mod length ws))"
    using "4.IH" [of "Suc i" m1] m1(2) "4.prems" by auto
  have "map_of (TaskWorkerMap m') (?id ((te # tes) ! j)) = Some (ws ! (Suc (i + j) mod length ws))"
    if "j < length (te # tes)" for j
    using that at old new m1(3) by (cases j) simp_all
  moreover have "map_of (TaskWorkerMap m') x = map_of (TaskWorkerMap m) x" if "x \<notin> ?id ` set (te # tes)" for x
    using that old m1(3) by auto
  ultimately show ?case
    using m1(1) m' by auto
qed simp_all

lemma manager_run_append: "manager_run (ops @ ops') m = go_bind (manager_run ops m) (manager_run ops')"
  by (induction ops m rule: manager_run.induct) (simp_all add: go_bind_assoc cong: go_bind_cong)

lemma manager_run_adds:
  "manager_run (map Adds tes) m = Returns (m\<lparr>Pending := Pending m @ map QueuedEvent tes\<rparr>)"
  by (induction tes arbitrary: m) (simp_all add: Manager_AddTask_def)

text \<open>C5: A manager in memory with the round-robin scheduler hands new tasks to its workers in turn,
  starting with the second, whether or not the workers can be reached: of the tasks of a sequence of events,
  the one at a position is mapped to the worker after that position, around the list of workers.\<close>

theorem new_tasks_go_round:
  assumes "NewManager b open_file ws ''roundrobin'' ''memory'' = Returns (Inr m)"
    and "distinct ws" and "ws \<noteq> []" and "distinct (map (\<lambda>te. task_id (EventTask te)) tes)"
    and "length es = length tes" and "\<forall>e\<in>set es. in_memory_env e"
  shows "\<exists>m'. manager_run (map Adds tes @ map Sends es) m = Returns m'
    \<and> (\<forall>j<length tes. map_of (TaskWorkerMap m') (task_id (EventTask (tes ! j)))
          = Some (ws ! (Suc j mod length ws)))"
proof -
  let ?m = "m\<lparr>Pending := Pending m @ map QueuedEvent tes\<rparr>"
  have m: "m = initial_manager ws ''roundrobin'' (MemoryTaskStore NewInMemoryTaskStore)
      (MemoryEventStore NewInMemoryTaskEventStore)"
    using assms(1) by (simp add: NewManager_def)
  have "map NodeName (worker_nodes a ws) = ws" for a
    by (induction ws arbitrary: a) (simp_all add: NewNode_def Node.defs)
  then have "in_turn ws 0 tes ?m"
    using worker_nodes_addrs [of 0 ws] assms(3)
    by (auto simp: m in_turn_def initial_manager_def new_scheduler_def)
  moreover have "\<forall>te\<in>set tes. map_of (TaskWorkerMap ?m) (task_id (EventTask te)) = None"
    by (simp add: m initial_manager_def)
  ultimately show ?thesis
    using sends_in_turn [OF assms(2,3,5,6), of 0 ?m] assms(4)
    by (auto simp: manager_run_append manager_run_adds)
qed

section \<open>The endless loops\<close>














section \<open>Witnesses\<close>

text \<open>Workers that answer a post with the task of the event posted, in the state running: the event is
  encoded as its task's identifier in unary.\<close>

definition echo_env ::
  "Task option list \<Rightarrow> (map_db any_store, map_db any_event_store, InMemoryTaskStore, unit) manager_env" where
  "echo_env rs = (demo_manager_env False rs)
     \<lparr>encode_event := (\<lambda>te. Inr (replicate (unat (task_id (EventTask te))) (CHR ''x''))),
      http_post := (\<lambda>_ body. Inr \<lparr>PostStatus = 201, PostDecode = (\<lambda>_.
        ((demo_task Running ''c1'')\<lparr>Metadata := (Metadata (demo_task Running ''c1''))
           \<lparr>MetaID := of_nat (length body)\<rparr>\<rparr>, None))\<rparr>)\<rparr>"

lemma echo_serving:
  assumes "None \<notin> set rs"
  shows "serving (\<lambda>_. '''') (\<lambda>m. m) map_bolt any_json map_bolt demo_events (\<lambda>u. show_nat (unat u)) (echo_env rs)"
proof -
  have "http_tasks (echo_env rs) = http_tasks (demo_manager_env False rs)"
    by (simp add: echo_env_def)
  then have "reports (echo_env rs) w = rs" for w
    using demo_manager_env_fields(3) [of rs w] by (simp add: reports_def)
  then have "healthy_workers (echo_env rs)"
    using assms by (simp add: healthy_workers_def echo_env_def after_post_def task_id_def demo_manager_env_def)
  then show ?thesis
    by (simp add: serving_def echo_env_def demo_manager_env_def)
qed

lemma echo_in_memory: "in_memory_env (echo_env rs)"
  using demo_manager_env_fields(1) by (auto simp: in_memory_env_def echo_env_def demo_manager_env_def)

lemma managers_of_healthy_workers_run_witness:
  "\<exists>m. manager_run [Adds demo_event, Sends (echo_env []), Updates (echo_env [Some (demo_task Running ''c1'')])]
       demo_manager = Returns m
     \<and> well_formed (\<lambda>m. m) map_bolt any_json (\<lambda>u. show_nat (unat u)) m"
proof -
  have new: "NewManager map_bolt (\<lambda>_. Inr []) [''w1''] ''roundrobin'' ''memory'' = Returns (Inr demo_manager)"
    by (simp add: NewManager_def demo_manager_def)
  show ?thesis
    by (rule managers_of_healthy_workers_run [OF new, where fmt_v = "\<lambda>_. ''''" and eb = map_bolt and ej = demo_events])
      (simp_all add: show_nat_not_Nil echo_serving)
qed

lemma new_tasks_go_round_witness:
  "\<exists>m'. manager_run [Adds demo_event, Sends (demo_manager_env True [])]
       (initial_manager [''w1'', ''w2''] ''roundrobin'' (MemoryTaskStore NewInMemoryTaskStore)
         (MemoryEventStore NewInMemoryTaskEventStore)) = Returns m'
     \<and> map_of (TaskWorkerMap m') 7 = Some ''w2''"
proof -
  have new: "NewManager map_bolt (\<lambda>_. Inr []) [''w1'', ''w2''] ''roundrobin'' ''memory''
      = Returns (Inr (initial_manager [''w1'', ''w2''] ''roundrobin'' (MemoryTaskStore NewInMemoryTaskStore)
          (MemoryEventStore NewInMemoryTaskEventStore)))"
    by (simp add: NewManager_def)
  have "in_memory_env (demo_manager_env True [])"
    by (auto simp: in_memory_env_def demo_manager_env_def)
  moreover have "task_id (EventTask demo_event) = 7"
    by (simp add: demo_event_def task_id_def demo_task_def NewTask_def)
  ultimately show ?thesis
    using new_tasks_go_round [OF new, of "[demo_event]" "[demo_manager_env True []]"] by simp
qed


end
