(* ===== verification/Registration.thy ===== *)
theory Registration
  imports Worker_Properties
begin

text \<open>
  How a worker registers with the manager: the retries of \<open>worker/main.go\<close>, the client of
  \<open>manager_client.go\<close> and the server of \<open>manager_registry_server.go\<close>, over the worker service.

  gRPC is a parameter: a call gives the response or an error, as generated clients do, and a handler that
  returns an error has its response dropped and the error delivered as a status. What the host answers
  (environment, name of the host) and dialling are the fields of a record. \<open>worker/main.go\<close> names a field
  \<open>Ip\<close> which the request does not have; it is read as the address.
\<close>

section \<open>Messages\<close>

record RegisterWorkerRequest =
  ReqWorkerId :: string
  ReqWorkerName :: string
  ReqAddress :: string
  ReqPort :: int32

record RegisterWorkerResponse =
  Success :: bool
  RespMessage :: string

type_synonym 's registration_rpc =
  "RegisterWorkerRequest \<Rightarrow> 's \<Rightarrow> (RegisterWorkerResponse res \<times> 's) go"

section \<open>The server\<close>

definition Server_RegisterWorker ::
  "('d, 'q) service_env \<Rightarrow> RegisterWorkerRequest \<Rightarrow> 'd worker_service \<Rightarrow>
   ((RegisterWorkerResponse \<times> go_error option) \<times> 'd worker_service) go" where
  "Server_RegisterWorker e req w =
     go_bind (RegisterWorker e
         \<lparr>WorkerID = ReqWorkerId req, WorkerName = ReqWorkerName req, Address = ReqAddress req,
          Port = ReqPort req, IsHealthy = True, IsBusy = False\<rparr> w)
       (\<lambda>(err, w). Returns (case err of
           Some err \<Rightarrow> ((\<lparr>Success = False, RespMessage = message err\<rparr>, Some err), w)
         | None \<Rightarrow> ((\<lparr>Success = True, RespMessage = ''WorkerInstance registrado correctamente''\<rparr>, None), w)))"

text \<open>The call as a client sees it; \<open>status\<close> is the error gRPC makes of a handler's.\<close>

definition served_rpc ::
  "(go_error \<Rightarrow> go_error) \<Rightarrow> ('d, 'q) service_env \<Rightarrow> 'd worker_service registration_rpc" where
  "served_rpc status e req w =
     go_bind (Server_RegisterWorker e req w) (\<lambda>((resp, err), w).
       Returns (case err of None \<Rightarrow> Inr resp | Some err \<Rightarrow> Inl (status err), w))"

section \<open>The client\<close>

definition ManagerClient_RegisterWorker ::
  "'s registration_rpc \<Rightarrow> string \<Rightarrow> string \<Rightarrow> string \<Rightarrow> int32 \<Rightarrow> 's \<Rightarrow> (go_error option \<times> 's) go" where
  "ManagerClient_RegisterWorker rpc workerID workerName address port s =
     go_bind (rpc \<lparr>ReqWorkerId = workerID, ReqWorkerName = workerName, ReqAddress = address, ReqPort = port\<rparr> s)
       (\<lambda>(r, s). Returns (case r of
           Inl err \<Rightarrow> (Some err, s)
         | Inr resp \<Rightarrow> if \<not> Success resp then (None, s) else (None, s)))"

section \<open>The worker process\<close>

text \<open>What each attempt (numbered from 0) finds.\<close>

record worker_host =
  Getenv :: "nat \<Rightarrow> string \<Rightarrow> string"
  Hostname :: "nat \<Rightarrow> string res"
  Dial :: "nat \<Rightarrow> string \<Rightarrow> go_error option"

definition manager_addr :: "(string \<Rightarrow> string) \<Rightarrow> string" where
  "manager_addr getenv =
     (let managerHost = getenv ''MANAGER_HOST'';
          managerHost = (if managerHost = '''' then ''localhost'' else managerHost);
          managerPort = getenv ''MANAGER_PORT'';
          managerPort = (if managerPort = '''' then ''50051'' else managerPort)
      in managerHost @ '':'' @ managerPort)"

definition tryRegisterToManager ::
  "worker_host \<Rightarrow> 's registration_rpc \<Rightarrow> nat \<Rightarrow> 's \<Rightarrow> (go_error option \<times> 's) go" where
  "tryRegisterToManager h rpc i s =
     (let hostname = (case Hostname h i of Inl err \<Rightarrow> ''worker-test'' | Inr name \<Rightarrow> name) in
      case Dial h i (manager_addr (Getenv h i)) of
        Some err \<Rightarrow> Returns (Some err, s)
      | None \<Rightarrow>
          go_bind (rpc \<lparr>ReqWorkerId = hostname, ReqWorkerName = hostname, ReqAddress = hostname, ReqPort = 0\<rparr> s)
            (\<lambda>(r, s). Returns (case r of
                Inl err \<Rightarrow> (Some err, s)
              | Inr resp \<Rightarrow>
                  if \<not> Success resp then
                    (Some (GoError (''fallo al registrar worker: '' @ RespMessage resp)), s)
                  else (None, s))))"

text \<open>The log of the retries. After each failed attempt the process sleeps for two seconds.\<close>

datatype retry_log =
    AttemptFailed nat nat go_error
  | Slept duration
  | GaveUp nat

definition maxRetries :: nat where
  "maxRetries = 5"

definition retryDelay :: duration where
  "retryDelay = 2 * 1000000000"

function register_from ::
  "worker_host \<Rightarrow> 's registration_rpc \<Rightarrow> nat \<Rightarrow> 's \<Rightarrow> (retry_log list \<times> 's) go" where
  "register_from h rpc i s =
     (if i < maxRetries then
        go_bind (tryRegisterToManager h rpc i s) (\<lambda>(err, s).
          case err of
            Some err \<Rightarrow>
              go_bind (register_from h rpc (i + 1) s) (\<lambda>(logs, s).
                Returns (AttemptFailed (i + 1) maxRetries err # Slept retryDelay # logs, s))
          | None \<Rightarrow> Returns ([], s))
      else Returns ([GaveUp maxRetries], s))"
  by pat_completeness auto
termination
  by (relation "measure (\<lambda>(h, rpc, i, s). maxRetries - i)") auto

declare register_from.simps [simp del]

definition registerToManager :: "worker_host \<Rightarrow> 's registration_rpc \<Rightarrow> 's \<Rightarrow> (retry_log list \<times> 's) go" where
  "registerToManager h rpc s = register_from h rpc 0 s"

section \<open>Retries\<close>

lemma register_from_failures:
  assumes "\<forall>i<k. tryRegisterToManager h rpc i (ss i) = Returns (Some (errs i), ss (Suc i))"
    and "k \<le> maxRetries" and "i \<le> k" and "register_from h rpc k (ss k) = Returns (logs, s)"
  shows "register_from h rpc i (ss i) = Returns
    (concat (map (\<lambda>i. [AttemptFailed (i + 1) maxRetries (errs i), Slept retryDelay]) [i..<k]) @ logs, s)"
  using assms(3)
proof (induction "k - i" arbitrary: i)
  case 0
  with assms(4) show ?case by simp
next
  case (Suc n)
  then have "i < k" and "[i..<k] = i # [Suc i..<k]" and "n = k - Suc i"
    by (auto simp: upt_conv_Cons)
  moreover from this have "register_from h rpc (Suc i) (ss (Suc i)) = Returns
    (concat (map (\<lambda>i. [AttemptFailed (i + 1) maxRetries (errs i), Slept retryDelay]) [Suc i..<k]) @ logs, s)"
    by (intro Suc.hyps(1)) simp_all
  ultimately show ?case
    using assms(1,2) by (subst register_from.simps) simp
qed

text \<open>C19: A worker tries to register until an attempt succeeds, five times at most, and stops: each failed
  attempt is logged with its number and followed by two seconds of sleep, the fifth too, after which it
  gives up. If a call does not return, neither does the attempt.\<close>

theorem registration_stops:
  assumes "\<forall>i<k. tryRegisterToManager h rpc i (ss i) = Returns (Some (errs i), ss (Suc i))" and "k \<le> 5"
    and "k < 5 \<longrightarrow> tryRegisterToManager h rpc k (ss k) = Returns (None, ss (Suc k))"
  shows "registerToManager h rpc (ss 0) = Returns
    (concat (map (\<lambda>i. [AttemptFailed (i + 1) 5 (errs i), Slept (2 * 1000000000)]) [0..<k])
       @ (if k = 5 then [GaveUp 5] else []),
     ss (if k = 5 then 5 else Suc k))"
proof -
  have "register_from h rpc k (ss k)
      = Returns (if k = 5 then [GaveUp 5] else [], ss (if k = 5 then 5 else Suc k))"
    using assms(2,3) by (subst register_from.simps) (simp add: maxRetries_def)
  from register_from_failures [OF assms(1) _ _ this, of 0] show ?thesis
    using assms(2) by (simp add: registerToManager_def maxRetries_def retryDelay_def)
qed

lemma registration_stops_witness:
  "registerToManager \<lparr>Getenv = (\<lambda>_ _. ''''), Hostname = (\<lambda>_. Inr ''node1''),
      Dial = (\<lambda>i _. if i < 2 then Some (GoError ''refused'') else None)\<rparr>
      (\<lambda>req n. Returns (Inr \<lparr>Success = True, RespMessage = ''''\<rparr>, Suc n)) (0 :: nat)
    = Returns ([AttemptFailed 1 5 (GoError ''refused''), Slept (2 * 1000000000),
        AttemptFailed 2 5 (GoError ''refused''), Slept (2 * 1000000000)], 1)"
  (is "registerToManager ?h ?rpc 0 = _")
proof -
  have "\<forall>i<2. tryRegisterToManager ?h ?rpc i 0 = Returns (Some (GoError ''refused''), 0)"
    and "tryRegisterToManager ?h ?rpc 2 0 = Returns (None, 1)"
    by (simp_all add: tryRegisterToManager_def)
  then show ?thesis
    using registration_stops [of 2 ?h ?rpc "\<lambda>i. i - 2" "\<lambda>_. GoError ''refused''"]
    by (simp add: upt_rec)
qed

section \<open>Registering with the worker service\<close>

text \<open>A refusal never reaches a client as a response: gRPC drops it for the error.\<close>

lemma served_rpc_success:
  "served_rpc status e req w = Returns (Inr resp, w') \<Longrightarrow> Success resp"
  by (auto simp: served_rpc_def Server_RegisterWorker_def elim!: go_bind_ReturnsE split: option.splits prod.splits)

lemma ManagerClient_error:
  "ManagerClient_RegisterWorker rpc workerID workerName address port s = Returns (err, s') \<longleftrightarrow>
     (\<exists>r. rpc \<lparr>ReqWorkerId = workerID, ReqWorkerName = workerName, ReqAddress = address, ReqPort = port\<rparr> s
          = Returns (r, s')
        \<and> err = (case r of Inl err \<Rightarrow> Some err | Inr resp \<Rightarrow> None))"
  by (auto simp: ManagerClient_RegisterWorker_def go_bind_Returns_iff split: sum.splits)

context exact_db
begin

lemma healthy_registration:
  assumes "ready ops inv e w" and "keyed e (stored val w)" and "IsHealthy wi"
  obtains w' where "RegisterWorker e wi w = Returns (None, w')"
    and "map_of (workers w') (WorkerID wi) = Some wi"
  using assms(1,2)
proof (cases rule: RegisterWorker_spec [where wi = wi])
  case (ignored w')
  then have "map_of (workers w') (WorkerID wi) = Some wi" by (simp add: effect_def)
  with ignored(1) show ?thesis by (rule that)
next
  case (matched t w' x)
  then have "RegisterWorker e wi w = Returns (None, w')" and "map_of (workers w') (WorkerID wi) = Some wi"
    using assms(3) by (simp_all add: effect_def)
  then show ?thesis by (rule that)
qed

end

text \<open>C39: Registering with a worker service over a reachable manager takes one attempt, whatever tasks the
  service has: it accepts the worker as healthy and records it under the name of its host, which also
  stands for its address; its port is recorded as 0.\<close>

theorem worker_registers_at_once:
  assumes "in_memory e" and "serve_all e cs (NewWorkerService NewInMemoryTaskStore heap) = Returns w"
    and "Hostname h 0 = Inr name" and "Dial h 0 (manager_addr (Getenv h 0)) = None"
  shows "\<exists>w'. registerToManager h (served_rpc status e) w = Returns ([], w')
    \<and> map_of (workers w') name = Some
        \<lparr>WorkerID = name, WorkerName = name, Address = name, Port = 0, IsHealthy = True, IsBusy = False\<rparr>"
proof -
  let ?wi = "\<lparr>WorkerID = name, WorkerName = name, Address = name, Port = 0, IsHealthy = True, IsBusy = False\<rparr>"
  obtain fmt_v iter where r: "ready (mem_ops fmt_v iter) (mem_inv iter) e w" and keyed: "keyed e (stored mem_val w)"
    by (rule reached [OF assms(1,2)])
  obtain w' where "RegisterWorker e ?wi w = Returns (None, w')" and "map_of (workers w') (WorkerID ?wi) = Some ?wi"
    by (rule mem_db.healthy_registration [OF r keyed, of ?wi]) simp
  then show ?thesis
    by (simp add: registerToManager_def register_from.simps [of h _ 0] maxRetries_def tryRegisterToManager_def
        assms(3,4) served_rpc_def Server_RegisterWorker_def)
qed

lemma worker_registers_at_once_witness:
  "\<exists>w w'. serve_all demo_env [DoCreate (demo_task Pending '''')]
       (NewWorkerService NewInMemoryTaskStore []) = Returns w
     \<and> registerToManager \<lparr>Getenv = (\<lambda>_ _. ''''), Hostname = (\<lambda>_. Inr ''node1''), Dial = (\<lambda>_ _. None)\<rparr>
         (served_rpc (\<lambda>err. err) demo_env) w = Returns ([], w')
     \<and> map_option Port (map_of (workers w') ''node1'') = Some 0"
proof -
  obtain w where w: "serve_all demo_env [DoCreate (demo_task Pending '''')]
      (NewWorkerService NewInMemoryTaskStore []) = Returns w"
    using serve_all_returns [OF demo_in_memory] by blast
  show ?thesis
    using worker_registers_at_once [OF demo_in_memory w,
        of "\<lparr>Getenv = (\<lambda>_ _. ''''), Hostname = (\<lambda>_. Inr ''node1''), Dial = (\<lambda>_ _. None)\<rparr>" "''node1''" "\<lambda>err. err"] w
    by auto
qed

end
