(* ===== verification/Worker_Loops.thy ===== *)
theory Worker_Loops
  imports Worker_Properties Node_Stats
begin

text \<open>
  The two background loops of the worker service (\<open>UpdateTasks\<close> and \<open>CollectStats\<close> of
  \<open>internal/adapters/worker/worker_service.go\<close>): a select over a ticker and the end of the service's context.
  A run of a loop is given by the cases its select takes; a list that is exhausted leaves it waiting.
\<close>

section \<open>The loops\<close>

datatype select_case = Ticked | ContextDone

text \<open>The copies of tasks whose health checks the loop starts, and whether it has returned.\<close>

fun UpdateTasks ::
  "('d, 'q) service_env \<Rightarrow> select_case list \<Rightarrow> 'd worker_service \<Rightarrow>
   (Task list \<times> bool \<times> 'd worker_service) go" where
  "UpdateTasks e [] w = Returns ([], False, w)"
| "UpdateTasks e (ContextDone # cs) w = Returns ([], True, w)"
| "UpdateTasks e (Ticked # cs) w =
     go_bind (UpdateTasks_tick e w) (\<lambda>(ts, w).
     go_bind (UpdateTasks e cs w) (\<lambda>(ts', returned, w). Returns (ts @ ts', returned, w)))"

text \<open>The fields of the service that only this loop writes.\<close>

record collector =
  CollectedStats :: "Stats option"
  CollectedTaskCount :: int

text \<open>\<open>proc\<close> is what \<open>GetStats\<close> reads at each tick.\<close>

fun CollectStats ::
  "(nat \<Rightarrow> MemInfo res \<times> Disk res \<times> CPUStat res \<times> LoadAvg res) \<Rightarrow> nat \<Rightarrow> select_case list \<Rightarrow> collector \<Rightarrow>
   bool \<times> collector" where
  "CollectStats proc i [] w = (False, w)"
| "CollectStats proc i (ContextDone # cs) w = (True, w)"
| "CollectStats proc i (Ticked # cs) w =
     (let (m, d, c, l) = proc i; st = GetStats m d c l;
          w = w\<lparr>CollectedStats := Some st\<rparr>;
          w = w\<lparr>CollectedTaskCount := StatsTaskCount st\<rparr>
      in CollectStats proc (Suc i) cs w)"

section \<open>What the loops do\<close>

definition running_tasks :: "(string \<Rightarrow> Task option) \<Rightarrow> Task set" where
  "running_tasks v = {t. \<exists>k. v k = Some t \<and> State (Status t) = Running}"

context exact_db
begin

lemma UpdateTasks_tick_spec:
  assumes "ready ops inv e w"
  obtains ts w' where "UpdateTasks_tick e w = Returns (ts, w')" and "ready ops inv e w'"
    and "stored val w' = stored val w" and "set ts = running_tasks (stored val w)"
proof -
  obtain as u where u: "Db_List e w = Returns (Inr (as, u))" "ready ops inv e u"
    "effect val w (stored val w) [] [] u"
    "\<forall>a\<in>set as. a < length (cells u) \<and> (\<exists>k. stored val w k = Some (cells u ! a)
           \<and> (\<forall>k'. refs (TaskDb u) k' = Some a \<longrightarrow> k' = k))"
    "\<forall>k t. stored val w k = Some t \<longrightarrow> (\<exists>a\<in>set as. cells u ! a = t)"
    by (rule Db_List_spec [OF assms])
  let ?ts = "filter (\<lambda>t. State (Status t) = Running) (map (\<lambda>a. cells u ! a) as)"
  have "UpdateTasks_tick e w = Returns (?ts, u)"
    by (simp add: UpdateTasks_tick_def u(1))
  moreover have "set ?ts = running_tasks (stored val w)"
  proof -
    have "(\<lambda>a. cells u ! a) ` set as = {t. \<exists>k. stored val w k = Some t}"
      using u(4,5) by blast
    then have "set (map (\<lambda>a. cells u ! a) as) = {t. \<exists>k. stored val w k = Some t}"
      by (simp only: set_map)
    then show ?thesis
      unfolding set_filter by (auto simp: running_tasks_def)
  qed
  ultimately show ?thesis
    using u(2,3) by (intro that [of ?ts u]) (simp_all add: effect_def)
qed

lemma UpdateTasks_spec:
  "ready ops inv e w \<Longrightarrow> \<exists>ts w'. UpdateTasks e cs w = Returns (ts, ContextDone \<in> set cs, w')
    \<and> stored val w' = stored val w
    \<and> set ts = (if cs \<noteq> [] \<and> hd cs = Ticked then running_tasks (stored val w) else {})"
proof (induction e cs w rule: UpdateTasks.induct)
  case (3 e cs w)
  obtain ts w1 where w1: "UpdateTasks_tick e w = Returns (ts, w1)" "ready ops inv e w1"
    "stored val w1 = stored val w" "set ts = running_tasks (stored val w)"
    by (rule UpdateTasks_tick_spec [OF 3(2)])
  then obtain ts' w' where "UpdateTasks e cs w1 = Returns (ts', ContextDone \<in> set cs, w')"
    "stored val w' = stored val w"
    "set ts' = (if cs \<noteq> [] \<and> hd cs = Ticked then running_tasks (stored val w) else {})"
    using 3(1) [OF w1(2)] by auto
  with w1 show ?case by auto
qed simp_all

end

text \<open>C40: The sweep of a service in memory returns when, and only when, its context ends; until then it starts
  health checks on copies of exactly the tasks that run, and changes no task itself.\<close>

theorem sweeps_check_running_tasks:
  assumes "in_memory e" and "serve_all e cs (NewWorkerService NewInMemoryTaskStore heap) = Returns w"
  shows "\<exists>ts w'. UpdateTasks e sel w = Returns (ts, ContextDone \<in> set sel, w')
    \<and> stored mem_val w' = stored mem_val w
    \<and> set ts = (if sel \<noteq> [] \<and> hd sel = Ticked
        then {t. \<exists>k. stored mem_val w k = Some t \<and> State (Status t) = Running} else {})"
proof -
  obtain fmt_v iter where "ready (mem_ops fmt_v iter) (mem_inv iter) e w"
    by (rule reached [OF assms])
  then show ?thesis
    unfolding running_tasks_def [symmetric] by (rule mem_db.UpdateTasks_spec)
qed

lemma demo_running:
  "\<exists>w t. serve_all demo_env [DoCreate (demo_task Pending ''''), DoRegister (demo_worker '''')]
       (NewWorkerService NewInMemoryTaskStore []) = Returns w
     \<and> stored mem_val w = [show_nat 7 \<mapsto> t] \<and> State (Status t) = Running"
proof -
  obtain w t where w: "serve_all demo_env [DoCreate (demo_task Pending '''')]
      (NewWorkerService NewInMemoryTaskStore []) = Returns w"
    "stored mem_val w = [show_nat 7 \<mapsto> t]" "State (Status t) = Scheduled" "ContainerID (Status t) = ''''"
    using demo_created by blast
  obtain fmt_v iter where r: "ready (mem_ops fmt_v iter) (mem_inv iter) demo_env w"
    and keyed: "keyed demo_env (stored mem_val w)"
    by (rule reached [OF demo_in_memory w(1)])
  have here: "stored mem_val w (show_nat 7) = Some t"
    unfolding w(2) by (rule fun_upd_same)
  have only: "stored mem_val w k = Some t' \<Longrightarrow> t' = t" for k t'
    unfolding w(2) by (simp split: if_splits)
  have key: "task_key demo_env t = show_nat 7"
    using keyed here unfolding keyed_def by metis
  have wi: "IsHealthy (demo_worker '''')" "WorkerID (demo_worker '''') = ''''"
    by (simp_all add: demo_worker_def)
  obtain w' where "RegisterWorker demo_env (demo_worker '''') w = Returns (None, w')"
    "stored mem_val w' = [show_nat 7 \<mapsto> started (with_state Starting t)]"
    using r keyed
  proof (cases rule: mem_db.RegisterWorker_spec [where wi = "demo_worker ''''"])
    case (ignored w')
    then show ?thesis
      using here only w(3,4) wi(2) by metis
  next
    case (matched u w' x)
    moreover have "u = t"
      by (rule only [OF matched(1)])
    ultimately show ?thesis
      using wi(1) w(2) key by (intro that [of w']) (simp_all add: effect_def del: show_nat.simps)
  qed
  moreover from this(1) have "serve_all demo_env [DoCreate (demo_task Pending ''''), DoRegister (demo_worker '''')]
      (NewWorkerService NewInMemoryTaskStore []) = Returns w'"
    using w(1) by (auto simp: go_bind_Returns_iff)
  ultimately show ?thesis
    by (intro exI [of _ w'] exI [of _ "started (with_state Starting t)"]) simp
qed

lemma sweeps_check_running_tasks_witness:
  "\<exists>w ts w' t. serve_all demo_env [DoCreate (demo_task Pending ''''), DoRegister (demo_worker '''')]
       (NewWorkerService NewInMemoryTaskStore []) = Returns w
     \<and> UpdateTasks demo_env [Ticked, ContextDone, Ticked] w = Returns (ts, True, w') \<and> set ts = {t}
     \<and> State (Status t) = Running"
proof -
  obtain w t where w: "serve_all demo_env [DoCreate (demo_task Pending ''''), DoRegister (demo_worker '''')]
      (NewWorkerService NewInMemoryTaskStore []) = Returns w"
    "stored mem_val w = [show_nat 7 \<mapsto> t]" "State (Status t) = Running"
    using demo_running by blast
  have one: "{u. \<exists>k. stored mem_val w k = Some u \<and> State (Status u) = Running} = {t}"
    using w(3) unfolding w(2) by (auto split: if_splits)
  obtain ts w' where "UpdateTasks demo_env [Ticked, ContextDone, Ticked] w = Returns (ts, True, w')" "set ts = {t}"
    using sweeps_check_running_tasks [OF demo_in_memory w(1), of "[Ticked, ContextDone, Ticked]"]
    unfolding one by auto
  with w show ?thesis by blast
qed

text \<open>The task count collected is that of the statistics, which never set it: it stays zero.\<close>

lemma collected_task_count:
  "fst (CollectStats proc i cs w) = (ContextDone \<in> set cs)
   \<and> (snd (CollectStats proc i cs w) = w
      \<or> CollectedTaskCount (snd (CollectStats proc i cs w)) = 0
        \<and> CollectedStats (snd (CollectStats proc i cs w)) \<noteq> None)"
proof (induction proc i cs w rule: CollectStats.induct)
  case (3 proc i cs w)
  obtain m d c l where p: "proc i = (m, d, c, l)" by (cases "proc i")
  let ?w = "w\<lparr>CollectedStats := Some (GetStats m d c l), CollectedTaskCount := 0\<rparr>"
  have "CollectStats proc i (Ticked # cs) w = CollectStats proc (Suc i) cs ?w"
    by (simp add: p GetStats_def Let_def)
  moreover have "fst (CollectStats proc (Suc i) cs ?w) = (ContextDone \<in> set cs)
   \<and> (snd (CollectStats proc (Suc i) cs ?w) = ?w
      \<or> CollectedTaskCount (snd (CollectStats proc (Suc i) cs ?w)) = 0
        \<and> CollectedStats (snd (CollectStats proc (Suc i) cs ?w)) \<noteq> None)"
    using 3 by (simp add: p GetStats_def)
  ultimately show ?case by auto
qed simp_all

end
