(* ===== verification/Zap_Logger.thy ===== *)
theory Zap_Logger
  imports Prelude
begin

text \<open>
  The logger, \<open>internal/adapters/logger/zap_logger.go\<close>, behind the interface of \<open>core/ports/logger.go\<close>.

  The zap library is a parameter: its sugared loggers \<open>'l\<close>, how one is made, and what its methods do to
  the output \<open>'o\<close>. What the adapter relies on is documented by zap: logging with a logger derived by
  \<open>With\<close> is logging with the pairs of \<open>With\<close> before those of the call, and \<open>Fatalw\<close> ends the process
  after writing.
\<close>

section \<open>The library\<close>

datatype level = LevelDebug | LevelInfo | LevelWarn | LevelError | LevelFatal

type_synonym args = "(string \<times> string) list"

record ('l, 'o) zap =
  NewProduction :: "'l res"
  Sugar :: "'l \<Rightarrow> 'l"
  Logw :: "level \<Rightarrow> string \<Rightarrow> args \<Rightarrow> 'l \<Rightarrow> 'o \<Rightarrow> 'o"
  zap_With :: "args \<Rightarrow> 'l \<Rightarrow> 'l"

section \<open>The adapter\<close>

record 'l ZapLogger =
  sugared :: 'l

definition NewZapLogger :: "('l, 'o) zap \<Rightarrow> 'l ZapLogger res" where
  "NewZapLogger z =
     (case NewProduction z of
        Inl err \<Rightarrow> Inl err
      | Inr logger \<Rightarrow> Inr \<lparr>sugared = Sugar z logger\<rparr>)"

definition Debug :: "('l, 'o) zap \<Rightarrow> string \<Rightarrow> args \<Rightarrow> 'l ZapLogger \<Rightarrow> 'o \<Rightarrow> 'o" where
  "Debug z msg as l = Logw z LevelDebug msg as (sugared l)"

definition Info :: "('l, 'o) zap \<Rightarrow> string \<Rightarrow> args \<Rightarrow> 'l ZapLogger \<Rightarrow> 'o \<Rightarrow> 'o" where
  "Info z msg as l = Logw z LevelInfo msg as (sugared l)"

definition Warn :: "('l, 'o) zap \<Rightarrow> string \<Rightarrow> args \<Rightarrow> 'l ZapLogger \<Rightarrow> 'o \<Rightarrow> 'o" where
  "Warn z msg as l = Logw z LevelWarn msg as (sugared l)"

definition Error :: "('l, 'o) zap \<Rightarrow> string \<Rightarrow> args \<Rightarrow> 'l ZapLogger \<Rightarrow> 'o \<Rightarrow> 'o" where
  "Error z msg as l = Logw z LevelError msg as (sugared l)"

text \<open>The process ends here; the output is what it leaves.\<close>

definition Fatal :: "('l, 'o) zap \<Rightarrow> string \<Rightarrow> args \<Rightarrow> 'l ZapLogger \<Rightarrow> 'o \<Rightarrow> 'o" where
  "Fatal z msg as l = Logw z LevelFatal msg as (sugared l)"

definition With :: "('l, 'o) zap \<Rightarrow> args \<Rightarrow> 'l ZapLogger \<Rightarrow> 'l ZapLogger" where
  "With z as l = \<lparr>sugared = zap_With z as (sugared l)\<rparr>"

section \<open>Derived loggers\<close>

definition with_documented :: "('l, 'o) zap \<Rightarrow> bool" where
  "with_documented z \<longleftrightarrow>
     (\<forall>lv msg as bs l. Logw z lv msg as (zap_With z bs l) = Logw z lv msg (bs @ as) l)"

lemma With_adds_pairs:
  assumes "with_documented z"
  shows "Debug z msg as (With z bs l) = Debug z msg (bs @ as) l"
    and "Info z msg as (With z bs l) = Info z msg (bs @ as) l"
    and "Warn z msg as (With z bs l) = Warn z msg (bs @ as) l"
    and "Error z msg as (With z bs l) = Error z msg (bs @ as) l"
    and "Fatal z msg as (With z bs l) = Fatal z msg (bs @ as) l"
  using assms by (simp_all add: with_documented_def Debug_def Info_def Warn_def Error_def Fatal_def With_def)

text \<open>A concrete library: loggers are the pairs they carry, the output is the list of entries.\<close>

definition list_zap :: "(args, (level \<times> string \<times> args) list) zap" where
  "list_zap = \<lparr>NewProduction = Inr [], Sugar = (\<lambda>l. l), Logw = (\<lambda>lv msg as l out. out @ [(lv, msg, l @ as)]),
     zap_With = (\<lambda>bs l. l @ bs)\<rparr>"

lemma list_zap_documented: "with_documented list_zap"
  by (simp add: with_documented_def list_zap_def)

end
