(* ===== verification/Spec2Isabelle.thy ===== *)
theory Spec2Isabelle
  imports Process_Store Persistent_Store Sandbox_Factory Dispatch Worker_Process Worker_Client Pool_Stats
    Manager_Runs Registration Worker_Loops Zap_Logger
begin

text \<open>
  A verification library of the DevOps platform: a manager hands tasks to workers, a worker service admits
  tasks and runs each in a sandbox, and a process server inside the sandbox executes its command.

  \<^bold>\<open>The program and how its parts meet.\<close> A client gives the worker service a task
  (\<open>AddTask\<close>); a dispatch loop takes tasks from a bounded queue, at most a limit of them at a time, and
  \<open>createContainer\<close> validates the transition of the task's state, builds a sandbox configuration, asks
  the sandbox factory for a Docker, Kubernetes or Hyper-V service, and stores the task as Scheduled. The worker
  process in the sandbox registers with the manager's gRPC server (with retries); the server calls
  \<open>RegisterWorker\<close> of the worker service, which finds the task of the worker's container and starts its
  command through the worker client. The output streamed back moves the stored task along its life cycle and
  is passed to observers; a sweep checks the health of running tasks. Apart from this, the manager posts
  task events over HTTP to workers a scheduler picks by their statistics, polls the workers for the states
  of their tasks and restarts what failed. Stores (in memory, or over bolt) keep tasks and events for both.
  The Docker pool starts a network of manager and worker containers.

  \<^bold>\<open>Theories and the code they model\<close> (paths under \<open>src/internal\<close> unless they start with
  \<open>src/\<close>).

  \<^item> \<open>Prelude\<close>: errors, panics, maps, pointers and machine integers of Go and the collections of
    lemmas. \<open>Go_Text\<close>: the functions of \<open>strings\<close>, \<open>strconv\<close> and \<open>net\<close> the code calls.
    \<open>Go_Float\<close>: \<open>float64\<close> with IEEE rounding. \<open>Go_Chan\<close>: buffered channels.
  \<^item> \<open>Task_State\<close>: \<open>core/domain/task/state_machine.go\<close>; the enumeration, the transition table and
    histories of accepted transitions. \<open>Task_Model\<close>: \<open>core/domain/task/task.go\<close>; the structs
    as records and the methods as functions on them.
  \<^item> \<open>Sandbox_Config\<close>: \<open>core/domain/sandbox_config.go\<close>; the builder over a heap of maps, so that
    what \<open>Build\<close> shares is visible.
  \<^item> \<open>Process_Store\<close>: \<open>core/usecase/process_store.go\<close> and the data of \<open>core/domain\<close>.
  \<^item> \<open>Store\<close> (in memory), \<open>Persistent_Store\<close> (bolt) and \<open>Task_Db\<close>:
    \<open>adapters/store/store.go\<close>, \<open>adapters/store/factory.go\<close> and the interface
    \<open>core/ports/store.go\<close>. A store's state is a map from keys to task cells, or a database
    value; the cells are a list that pointers index.
  \<^item> \<open>Sandbox_Docker\<close>: \<open>adapters/sandbox/docker_sandbox.go\<close>. \<open>Sandbox_Factory\<close>:
    \<open>kubernetes_sandbox.go\<close>, \<open>hyperv.go\<close> and \<open>factory.go\<close> beside it.
  \<^item> The worker service, \<open>adapters/worker/worker_service.go\<close>: \<open>Dispatch\<close> (\<open>NewWorkerService\<close>,
    \<open>AddTask\<close>, \<open>dispatchLoop\<close>, \<open>runTask\<close>, \<open>Shutdown\<close>, as interleaved steps),
    \<open>Worker_Service\<close> (the handlers, from \<open>createContainer\<close> to \<open>CheckTaskHealth\<close>),
    \<open>Worker_Effects\<close> and \<open>Worker_Properties\<close> (what they do), \<open>Worker_Loops\<close> (the loops
    \<open>UpdateTasks\<close> and \<open>CollectStats\<close>).
  \<^item> \<open>Worker_Process\<close>: \<open>adapters/grpc/server/worker_process_server.go\<close>.
    \<open>Worker_Client\<close>: \<open>adapters/grpc/client/worker_client.go\<close> and the goroutines that share its
    output channel with \<open>StartTask\<close> and \<open>processTaskOutput\<close>.
  \<^item> \<open>Registration\<close>: \<open>src/worker/main.go\<close> (\<open>registerWithManager\<close> and what it calls),
    \<open>adapters/grpc/client/manager_client.go\<close>, \<open>adapters/grpc/server/manager_registry_server.go\<close>.
  \<^item> \<open>Node_Stats\<close>: \<open>adapters/stats/stats.go\<close>, \<open>adapters/node/node.go\<close>.
    \<open>Scheduler\<close>: \<open>adapters/scheduler/scheduler.go\<close>.
  \<^item> \<open>Manager\<close>: \<open>adapters/manager/manager.go\<close>, the struct as a record (queue, stores, cells,
    the two books, nodes) and one definition per method. \<open>Manager_Properties\<close>, \<open>Manager_Updates\<close>
    and \<open>Manager_Runs\<close> hold what the methods keep, what they do to stored tasks, and whole runs with
    the four endless loops.
  \<^item> \<open>Docker_Pool\<close> and \<open>Pool_Stats\<close>: \<open>adapters/resource/docker/docker_pool.go\<close> and
    \<open>core/domain/resource/resource.go\<close>. \<open>Zap_Logger\<close>: \<open>adapters/logger/zap_logger.go\<close>.

  \<^bold>\<open>How code is written down.\<close> A method on a struct takes and returns the record; a call that may
  fail returns a sum with the error on the left, one that may panic a value of \<open>'a go\<close>
  (\<open>Returns\<close> or \<open>Panics\<close>), and both occur together. A variable whose address is taken is a cell of
  a list. Readings of the clock, random draws, fresh identifiers and the order of ranging over a map are
  arguments, so that the theorems hold for each.

  \<^bold>\<open>Interfaces\<close>, each a locale interpreted on the code's definitions.

  \<^item> \<open>keyed_store\<close> (\<open>Store\<close>): what put, get, list and count promise, by the in-memory
    stores of tasks and of events.
  \<^item> \<open>task_db\<close> (\<open>Task_Db\<close>): the store of tasks as its clients see it, by the in-memory store,
    the bolt store, and (in \<open>Manager_Updates\<close>) the choice between them the manager makes. Every
    effect of a worker handler is proved once in this locale, so for either store.
  \<^item> \<open>fifo\<close> (\<open>Go_Chan\<close>): what a channel promises; \<open>Dispatch\<close> uses only that.
  \<^item> \<open>rounding\<close> (\<open>Go_Float\<close>): monotone rounding that fixes one; the bound on the load of a
    processor uses only that.

  \<^bold>\<open>What the lemmas show.\<close>

  \<^item> Life cycle: which histories of states the transition table accepts; run times after a run of updates.
  \<^item> Stores: the in-memory store refines a finite map under every iteration order; the bolt store
    on its documented laws; where the two differ for their clients.
  \<^item> Worker service: no task is lost or run twice and the limit holds in every interleaving; every
    task can end; the outcome of each handler on every branch; no sequence of handlers panics; the
    handlers that read the store follow the life cycle, those that work on a copy of a task do not.
  \<^item> Manager: its books are inverse to each other in every run; with workers that answer no operation
    panics; a poll is the fold of the reports; new tasks go to the nodes in turn; a loop ends by
    a panic or not at all, and which events lead to one.
  \<^item> Schedulers: all choices are the first candidate of a least score; round robin is fair; greedy
    scores nothing.
  \<^item> Sandboxes, pool, process server, client, registration: the calls made and the results on each branch,
    lines and ports that survive their trip, and the races on the busy flag and the output channel.

  \<^bold>\<open>Bounds and ends.\<close> No definition has fuel. \<open>register_from\<close> ends by a measure, the number of
  attempts left. The endless loops of the manager are \<open>forever\<close>, a partial function into options: \<open>None\<close>
  is not ending, and \<open>rounds k\<close>, the first \<open>k\<close> rounds, is what both outcomes are proved by. The two loops of
  the worker service, which select among channels, run over the list of the cases selected; the
  dispatch loop and the goroutines around a command are step relations. Integers that can wrap are words
  (the counters of \<open>resource.go\<close> and \<open>stats.go\<close>, restart counts).

  \<^bold>\<open>Parameters.\<close> The Docker, Kubernetes and bolt clients, PowerShell, JSON, HTTP, the generated
  gRPC code, the zap library, \<open>math.Pow\<close>, \<open>/proc\<close> and the operating system's processes are
  arguments or records of functions. What is assumed of them is named: \<open>bolt_documented\<close>,
  \<open>json_round_trip\<close>, \<open>with_documented\<close>, \<open>healthy_workers\<close> (each worker answers every
  request), and each theorem with such a hypothesis has a witness with a concrete instance.

  \<^bold>\<open>Readings of the code.\<close> Parts of the repository do not compile as they are: the manager, the
  schedulers and the pool name fields and packages of an older task type, and \<open>src/worker/main.go\<close>
  a field its message lacks. They are read as the rest of the same file spells them; each theory says where.
  Handlers are atomic: the map of tasks and the store are not written by two handlers at once. Where
  interleaving is the point (dispatch, the busy flag, the output channel), the steps are single accesses.

  \<^bold>\<open>Not modelled.\<close>

  \<^item> \<open>core/ports/process_repository.go\<close>, \<open>worker_repository.go\<close>, \<open>resource_pool.go\<close>: interfaces
    that nothing calls; they have no behaviour (the Docker pool, which implements the last, is modelled).
  \<^item> \<open>src/workerManager/main.go\<close> and \<open>main\<close> of \<open>src/worker/main.go\<close>: they wire servers, with
    constructors and variables the repository does not have.
  \<^item> The HTTP server of the workers the manager talks to is not in the repository; its answers are a
    parameter. Logging calls inside the other components are left out; \<open>fmt.Println\<close> too.
\<close>

end
